(* ===== verification/Prelude.thy ===== *)
theory Prelude
  imports Main
begin

text \<open>
  The prelude of the development: the collections of simplification rules the component
  theories share, results of fallible Rust code, Rust strings as lists of UTF-8 bytes
  (with the slicing that panics off a character boundary), hexadecimal digits, and
  reachability with the locale that lifts a one-step invariant to every reachable state.
\<close>

section \<open>Rule collections\<close>

named_theorems res_simps \<open>propagation of errors through results\<close>
named_theorems str_simps \<open>Rust strings as byte lists\<close>
named_theorems op_defs \<open>definitions of the operations a step is made of\<close>

section \<open>Results\<close>

text \<open>
  A fallible call returns \<open>Inl\<close> of its failure or \<open>Inr\<close> of its value. The \<open>?\<close> of the
  source, which hands the failure on, is \<open>rbind\<close>.
\<close>

definition rbind :: "'e + 'a \<Rightarrow> ('a \<Rightarrow> 'e + 'b) \<Rightarrow> 'e + 'b" where
  "rbind r f = (case r of Inl e \<Rightarrow> Inl e | Inr x \<Rightarrow> f x)"

text \<open>\<open>Result::map_err\<close> and \<open>Option::ok_or\<close>.\<close>

definition map_err :: "('e \<Rightarrow> 'f) \<Rightarrow> 'e + 'a \<Rightarrow> 'f + 'a" where
  "map_err f r = (case r of Inl e \<Rightarrow> Inl (f e) | Inr x \<Rightarrow> Inr x)"

definition ok_or :: "'e \<Rightarrow> 'a option \<Rightarrow> 'e + 'a" where
  "ok_or e x = (case x of None \<Rightarrow> Inl e | Some v \<Rightarrow> Inr v)"

definition is_ok :: "'e + 'a \<Rightarrow> bool" where
  "is_ok r = (case r of Inl _ \<Rightarrow> False | Inr _ \<Rightarrow> True)"

lemma rbind_simps [simp, res_simps]:
  "rbind (Inl e) f = Inl e" "rbind (Inr x) f = f x"
  by (simp_all add: rbind_def)

lemma rbind_eq_Inr_iff [res_simps]: "rbind r f = Inr y \<longleftrightarrow> (\<exists>x. r = Inr x \<and> f x = Inr y)"
  by (cases r) simp_all

lemma rbind_eq_InrE [elim!]:
  assumes "rbind r f = Inr y"
  obtains x where "r = Inr x" "f x = Inr y"
  using assms by (auto simp: rbind_eq_Inr_iff)

lemma map_err_simps [simp, res_simps]:
  "map_err f (Inl e) = Inl (f e)" "map_err f (Inr x) = Inr x"
  by (simp_all add: map_err_def)

lemma map_err_eq_Inr_iff [simp, res_simps]: "map_err f r = Inr x \<longleftrightarrow> r = Inr x"
  by (cases r) simp_all

lemma ok_or_simps [simp, res_simps]:
  "ok_or e None = Inl e" "ok_or e (Some v) = Inr v"
  by (simp_all add: ok_or_def)

lemma ok_or_eq_Inr_iff [simp, res_simps]: "ok_or e x = Inr v \<longleftrightarrow> x = Some v"
  by (cases x) simp_all

lemma is_ok_simps [simp, res_simps]: "\<not> is_ok (Inl e)" "is_ok (Inr x)"
  by (simp_all add: is_ok_def)

lemma is_ok_iff: "is_ok r \<longleftrightarrow> (\<exists>x. r = Inr x)"
  by (cases r) simp_all

section \<open>Rust strings\<close>

text \<open>
  A Rust \<open>String\<close> is a sequence of bytes that is valid UTF-8; HOL's \<^typ>\<open>char\<close> is a byte,
  so a \<^typ>\<open>string\<close> is the string's bytes and \<^const>\<open>length\<close> is its \<open>len()\<close>. Byte
  vectors have the same type, and \<open>as_bytes()\<close> is the identity.
\<close>

type_synonym bytes = "char list"

abbreviation byte_val :: "char \<Rightarrow> nat" where
  "byte_val c \<equiv> of_char c"

text \<open>A UTF-8 continuation byte has the form \<open>10xxxxxx\<close>.\<close>

definition is_cont :: "char \<Rightarrow> bool" where
  "is_cont c \<longleftrightarrow> 128 \<le> byte_val c \<and> byte_val c < 192"

definition is_ascii :: "char \<Rightarrow> bool" where
  "is_ascii c \<longleftrightarrow> byte_val c < 128"

text \<open>\<open>str::chars\<close>: each character is a lead byte and the continuation bytes after it.\<close>

function chars :: "string \<Rightarrow> string list" where
  "chars [] = []"
| "chars (b # bs) = (b # takeWhile is_cont bs) # chars (dropWhile is_cont bs)"
  by pat_completeness auto
termination
  by (relation "measure length") (auto simp: length_dropWhile_le le_imp_less_Suc)

text \<open>\<open>str::is_char_boundary\<close>; slicing a string elsewhere panics (\<open>None\<close>).\<close>

definition is_char_boundary :: "string \<Rightarrow> nat \<Rightarrow> bool" where
  "is_char_boundary s i \<longleftrightarrow>
     i = 0 \<or> i = length s \<or> (i < length s \<and> \<not> is_cont (s ! i))"

definition slice_to :: "string \<Rightarrow> nat \<Rightarrow> string option" where
  "slice_to s i = (if is_char_boundary s i then Some (take i s) else None)"

definition slice_from :: "string \<Rightarrow> nat \<Rightarrow> string option" where
  "slice_from s i = (if is_char_boundary s i then Some (drop i s) else None)"

text \<open>\<open>String::from_utf8\<close> accepts exactly the well-formed byte sequences of Unicode.\<close>

definition in_range :: "nat \<Rightarrow> nat \<Rightarrow> char \<Rightarrow> bool" where
  "in_range lo hi c \<longleftrightarrow> lo \<le> byte_val c \<and> byte_val c \<le> hi"

definition utf8_second :: "char \<Rightarrow> char \<Rightarrow> bool" where
  "utf8_second b c =
     (if byte_val b = 224 then in_range 160 191 c
      else if byte_val b = 237 then in_range 128 159 c
      else if byte_val b = 240 then in_range 144 191 c
      else if byte_val b = 244 then in_range 128 143 c
      else in_range 128 191 c)"

fun utf8_valid :: "bytes \<Rightarrow> bool" where
  "utf8_valid [] = True"
| "utf8_valid [a] = is_ascii a"
| "utf8_valid [a, b] =
     (if is_ascii a then utf8_valid [b] else in_range 194 223 a \<and> is_cont b)"
| "utf8_valid [a, b, c] =
     (if is_ascii a then utf8_valid [b, c]
      else if in_range 194 223 a then is_cont b \<and> utf8_valid [c]
      else in_range 224 239 a \<and> utf8_second a b \<and> is_cont c)"
| "utf8_valid (a # b # c # d # rest) =
     (if is_ascii a then utf8_valid (b # c # d # rest)
      else if in_range 194 223 a then is_cont b \<and> utf8_valid (c # d # rest)
      else if in_range 224 239 a then utf8_second a b \<and> is_cont c \<and> utf8_valid (d # rest)
      else in_range 240 244 a \<and> utf8_second a b \<and> is_cont c \<and> is_cont d \<and> utf8_valid rest)"

lemma ascii_not_cont [str_simps]: "is_ascii c \<Longrightarrow> \<not> is_cont c"
  by (simp add: is_ascii_def is_cont_def)

lemma chars_Nil_iff [simp]: "chars s = [] \<longleftrightarrow> s = []"
  by (cases s) simp_all

lemma concat_chars [simp]: "concat (chars s) = s"
  by (induction s rule: chars.induct) simp_all

lemma chars_no_cont: "\<forall>b \<in> set (tl s). \<not> is_cont b \<Longrightarrow> chars s = map (\<lambda>c. [c]) s"
proof (induction s rule: chars.induct)
  case (2 b bs)
  then have t: "takeWhile is_cont bs = []" "dropWhile is_cont bs = bs"
    by (cases bs; simp)+
  have "\<forall>b \<in> set (tl bs). \<not> is_cont b"
    using 2(2) by (cases bs) simp_all
  with 2(1) t show ?case by simp
qed simp

lemma utf8_valid_ascii: "\<forall>c \<in> set s. is_ascii c \<Longrightarrow> utf8_valid s"
  by (induction s rule: utf8_valid.induct) auto

section \<open>Hexadecimal digits\<close>

text \<open>\<open>char::is_ascii_hexdigit\<close>, \<open>u8::to_ascii_lowercase\<close> and the formatting \<open>{byte:02x}\<close>.\<close>

definition is_digit :: "char \<Rightarrow> bool" where
  "is_digit c \<longleftrightarrow> 48 \<le> byte_val c \<and> byte_val c \<le> 57"

definition is_hex_lower :: "char \<Rightarrow> bool" where
  "is_hex_lower c \<longleftrightarrow> is_digit c \<or> 97 \<le> byte_val c \<and> byte_val c \<le> 102"

definition is_ascii_hexdigit :: "char \<Rightarrow> bool" where
  "is_ascii_hexdigit c \<longleftrightarrow> is_hex_lower c \<or> 65 \<le> byte_val c \<and> byte_val c \<le> 70"

definition ascii_lower :: "char \<Rightarrow> char" where
  "ascii_lower c = (if 65 \<le> byte_val c \<and> byte_val c \<le> 90 then char_of (byte_val c + 32) else c)"

definition hex_digit :: "nat \<Rightarrow> char" where
  "hex_digit n = (if n < 10 then char_of (48 + n) else char_of (87 + n))"

definition hex_byte :: "char \<Rightarrow> string" where
  "hex_byte b = [hex_digit (byte_val b div 16), hex_digit (byte_val b mod 16)]"

definition hex_value :: "char \<Rightarrow> nat" where
  "hex_value c =
     (if is_digit c then byte_val c - 48
      else if 97 \<le> byte_val c then byte_val c - 87
      else byte_val c - 55)"

lemma byte_val_less [simp]: "byte_val c < 256"
proof -
  have "byte_val c \<in> range (of_char :: char \<Rightarrow> nat)" by (rule rangeI)
  then show ?thesis by (simp add: range_nat_of_char)
qed

lemma byte_val_char_of [simp]: "n < 256 \<Longrightarrow> byte_val (char_of n) = n"
  by (simp add: of_char_of)

lemma hex_digit_lower [simp]: "n < 16 \<Longrightarrow> is_hex_lower (hex_digit n)"
  by (auto simp: hex_digit_def is_hex_lower_def is_digit_def)

lemma hex_value_hex_digit [simp]: "n < 16 \<Longrightarrow> hex_value (hex_digit n) = n"
  by (auto simp: hex_digit_def hex_value_def is_digit_def)

lemma hex_byte_lower: "\<forall>c \<in> set (hex_byte b). is_hex_lower c"
proof -
  have "byte_val b div 16 < 16" using byte_val_less [of b] by linarith
  then show ?thesis by (simp add: hex_byte_def)
qed

lemma length_hex_bytes [simp]: "length (concat (map hex_byte bs)) = 2 * length bs"
  by (induction bs) (simp_all add: hex_byte_def)

lemma hex_bytes_lower: "c \<in> set (concat (map hex_byte bs)) \<Longrightarrow> is_hex_lower c"
  using hex_byte_lower by auto

lemma hex_lower_hexdigit [simp]: "is_hex_lower c \<Longrightarrow> is_ascii_hexdigit c"
  by (simp add: is_ascii_hexdigit_def)

lemma hexdigit_ascii: "is_ascii_hexdigit c \<Longrightarrow> is_ascii c"
  by (auto simp: is_ascii_hexdigit_def is_hex_lower_def is_digit_def is_ascii_def)

lemma ascii_lower_hex_lower [simp]: "is_hex_lower c \<Longrightarrow> ascii_lower c = c"
  by (auto simp: ascii_lower_def is_hex_lower_def is_digit_def)

lemma ascii_lower_hexdigit: "is_ascii_hexdigit c \<Longrightarrow> is_hex_lower (ascii_lower c)"
  by (auto simp: ascii_lower_def is_ascii_hexdigit_def is_hex_lower_def is_digit_def)

lemma ascii_lower_idem [simp]: "ascii_lower (ascii_lower c) = ascii_lower c"
  by (auto simp: ascii_lower_def)

section \<open>Reachable states and invariants\<close>

text \<open>
  The reachable states of a step relation, and the interface between a component's step
  relation and its invariant: a component proves the two laws of \<open>inv_system\<close> for its own
  initial state and steps, and every reachable state satisfies its invariant.
\<close>

inductive reachable :: "('s \<Rightarrow> bool) \<Rightarrow> ('s \<Rightarrow> 's \<Rightarrow> bool) \<Rightarrow> 's \<Rightarrow> bool"
  for init :: "'s \<Rightarrow> bool" and step :: "'s \<Rightarrow> 's \<Rightarrow> bool" where
  reach_init: "init s \<Longrightarrow> reachable init step s"
| reach_step: "reachable init step s \<Longrightarrow> step s t \<Longrightarrow> reachable init step t"

locale inv_system =
  fixes init :: "'s \<Rightarrow> bool"
    and step :: "'s \<Rightarrow> 's \<Rightarrow> bool"
    and inv :: "'s \<Rightarrow> bool"
  assumes inv_init: "init s \<Longrightarrow> inv s"
    and inv_step: "inv s \<Longrightarrow> step s t \<Longrightarrow> inv t"
begin

lemma reachable_inv: "reachable init step s \<Longrightarrow> inv s"
  by (induction rule: reachable.induct) (blast intro: inv_init inv_step)+

lemma steps_inv: "step\<^sup>*\<^sup>* s t \<Longrightarrow> inv s \<Longrightarrow> inv t"
  by (induction rule: rtranclp_induct) (blast intro: inv_step)+

end

lemma reachable_steps:
  assumes "step\<^sup>*\<^sup>* s t" "reachable init step s"
  shows "reachable init step t"
  using assms by (induction rule: rtranclp_induct) (blast intro: reach_step)+

text \<open>
  A refinement: every step of the detailed system is a run of the abstract one, seen through
  \<open>abs\<close>, as long as the invariant of the detailed system holds.
\<close>

locale refinement = inv_system init step inv
  for init :: "'s \<Rightarrow> bool" and step :: "'s \<Rightarrow> 's \<Rightarrow> bool" and inv :: "'s \<Rightarrow> bool" +
  fixes ainit :: "'a \<Rightarrow> bool" and astep :: "'a \<Rightarrow> 'a \<Rightarrow> bool" and abs :: "'s \<Rightarrow> 'a"
  assumes abs_init: "init s \<Longrightarrow> ainit (abs s)"
    and abs_step: "inv s \<Longrightarrow> step s t \<Longrightarrow> astep\<^sup>*\<^sup>* (abs s) (abs t)"
begin

lemma abs_steps: "step\<^sup>*\<^sup>* s t \<Longrightarrow> inv s \<Longrightarrow> astep\<^sup>*\<^sup>* (abs s) (abs t)"
proof (induction rule: rtranclp_induct)
  case (step t u)
  then show ?case using abs_step [OF steps_inv] by (meson rtranclp_trans)
qed simp

lemma abs_reachable: "reachable init step s \<Longrightarrow> reachable ainit astep (abs s)"
proof (induction rule: reachable.induct)
  case (reach_step s t)
  then show ?case by (blast intro: reachable_steps abs_step reachable_inv)
qed (simp add: reachable.reach_init abs_init)

end

text \<open>
  The contract of an encoding: decoding an encoded value gives it back. Encoders that
  satisfy it are injective, and no two values share an encoding.
\<close>

locale codec =
  fixes encode :: "'a \<Rightarrow> 'b" and decode :: "'b \<Rightarrow> 'e + 'a" and valid :: "'a \<Rightarrow> bool"
  assumes decode_encode: "valid x \<Longrightarrow> decode (encode x) = Inr x"
begin

lemma encode_inj:
  assumes "valid x" "valid y" "encode x = encode y"
  shows "x = y"
proof -
  have "Inr x = decode (encode x)" by (rule decode_encode [OF assms(1), symmetric])
  also have "\<dots> = decode (encode y)" by (simp only: assms(3))
  also have "\<dots> = Inr y" by (rule decode_encode [OF assms(2)])
  finally show ?thesis by (rule sum.inject(2) [THEN iffD1])
qed

end

end
