(* ===== verification/Errors.thy ===== *)
theory Errors
  imports Prelude
begin

text \<open>
  The error type of the library (crates/openlv/src/errors.rs) with its display strings, and
  the results of operations: a failure is one of these errors or a Rust panic.
\<close>

datatype openlv_error =
    InvalidUri string
  | Signaling string
  | Transport string
  | Session string
  | SessionClosed
  | RequestLimitReached
  | Encryption string
  | WireFrame string
  | ProtocolViolation string
  | UnsupportedProtocol string
  | NoConnection
  | RequestTimeout string
  | RequestFailed
  | InvalidRequestTimeout
  | ResponseChannelClosed
  | Other string

text \<open>The \<open>Display\<close> implementation that the \<open>#[error(..)]\<close> attributes generate.\<close>

fun error_to_string :: "openlv_error \<Rightarrow> string" where
  "error_to_string (InvalidUri s) = ''invalid session URI: '' @ s"
| "error_to_string (Signaling s) = ''signaling error: '' @ s"
| "error_to_string (Transport s) = ''transport error: '' @ s"
| "error_to_string (Session s) = ''session error: '' @ s"
| "error_to_string SessionClosed = ''session is closed''"
| "error_to_string RequestLimitReached = ''incoming request limit reached; request declined''"
| "error_to_string (Encryption s) = ''encryption error: '' @ s"
| "error_to_string (WireFrame s) = ''invalid wire frame: '' @ s"
| "error_to_string (ProtocolViolation s) = ''protocol violation: '' @ s"
| "error_to_string (UnsupportedProtocol s) = ''unsupported signaling protocol: '' @ s"
| "error_to_string NoConnection = ''no signaling connection''"
| "error_to_string (RequestTimeout s) = ''request timed out: '' @ s"
| "error_to_string RequestFailed = ''remote peer failed to handle the request''"
| "error_to_string InvalidRequestTimeout = ''timeout exceeds supported range''"
| "error_to_string ResponseChannelClosed = ''response channel closed''"
| "error_to_string (Other s) = s"

text \<open>How a call ends without a value: an error it returns, or a panic that unwinds its task.\<close>

datatype fault = Err openlv_error | Panic

type_synonym 'a res = "fault + 'a"

abbreviation Ok :: "'a \<Rightarrow> 'a res" where
  "Ok x \<equiv> Inr x"

abbreviation Fail :: "openlv_error \<Rightarrow> 'a res" where
  "Fail e \<equiv> Inl (Err e)"

abbreviation panicked :: "'a res" where
  "panicked \<equiv> Inl Panic"

text \<open>A string slice that panics off a character boundary.\<close>

definition or_panic :: "'a option \<Rightarrow> 'a res" where
  "or_panic x = (case x of None \<Rightarrow> panicked | Some v \<Rightarrow> Ok v)"

lemma or_panic_simps [simp, res_simps]:
  "or_panic None = panicked" "or_panic (Some v) = Ok v"
  by (simp_all add: or_panic_def)

text \<open>A call that never panics: the guarantee every caller outside a spawned task relies on.\<close>

definition no_panic :: "'a res \<Rightarrow> bool" where
  "no_panic r \<longleftrightarrow> r \<noteq> panicked"

lemma no_panic_simps [simp, res_simps]:
  "no_panic (Ok x)" "no_panic (Fail e)" "\<not> no_panic panicked"
  by (simp_all add: no_panic_def)

lemma no_panic_rbind [intro]:
  assumes "no_panic r" "\<And>x. r = Ok x \<Longrightarrow> no_panic (f x)"
  shows "no_panic (rbind r f)"
  using assms by (cases r) (auto simp: no_panic_def)

lemma no_panic_errors [simp, intro]:
  "no_panic (map_err (\<lambda>x. Err (g x)) r)" "no_panic (ok_or (Err e) x)"
  by (simp_all add: no_panic_def map_err_def ok_or_def split: sum.splits option.splits)

lemma no_panic_same_fault: "no_panic r \<Longrightarrow> r = Inl f \<Longrightarrow> no_panic (Inl f)"
  by (auto simp: no_panic_def)

end
