(* ===== verification/Wire.thy ===== *)
theory Wire
  imports Errors
begin

text \<open>
  Wire frames (crates/openlv/src/signaling/wire/mod.rs): a prefix byte that names the key
  the payload is encrypted with, a byte that names the recipient role, and the ciphertext.
\<close>

section \<open>Data\<close>

definition HANDSHAKE_PREFIX :: string where "HANDSHAKE_PREFIX = ''h''"
definition ENCRYPTED_PREFIX :: string where "ENCRYPTED_PREFIX = ''x''"

datatype wire_prefix = Handshake | Encrypted

datatype wire_recipient = Host | Client

record wire_frame =
  prefix :: wire_prefix
  recipient :: wire_recipient
  ciphertext :: string

section \<open>Operations\<close>

fun as_char :: "wire_recipient \<Rightarrow> string" where
  "as_char Host = ''h''"
| "as_char Client = ''c''"

text \<open>A Rust \<open>char\<close> is the group of its UTF-8 bytes, as \<^const>\<open>chars\<close> delivers it.\<close>

definition from_char :: "string \<Rightarrow> wire_recipient option" where
  "from_char value =
     (if value = ''h'' then Some Host else if value = ''c'' then Some Client else None)"

definition for_role :: "bool \<Rightarrow> wire_recipient" where
  "for_role is_host = (if is_host then Host else Client)"

definition compose_frame :: "wire_prefix \<Rightarrow> wire_recipient \<Rightarrow> string \<Rightarrow> string" where
  "compose_frame p r c =
     (let prefix_char = (case p of Handshake \<Rightarrow> HANDSHAKE_PREFIX | Encrypted \<Rightarrow> ENCRYPTED_PREFIX)
      in prefix_char @ as_char r @ c)"

definition parse_prefix :: "string \<Rightarrow> wire_prefix res" where
  "parse_prefix s =
     (if s = HANDSHAKE_PREFIX then Ok Handshake
      else if s = ENCRYPTED_PREFIX then Ok Encrypted
      else Fail (WireFrame ''invalid wire frame prefix''))"

definition parse_recipient :: "string \<Rightarrow> wire_recipient res" where
  "parse_recipient payload =
     rbind (ok_or (Err (WireFrame ''invalid wire frame recipient''))
              (if 1 < length (chars payload) then Some (chars payload ! 1) else None))
       (\<lambda>c. ok_or (Err (WireFrame ''invalid wire frame recipient'')) (from_char c))"

definition parse_frame :: "string \<Rightarrow> wire_frame res" where
  "parse_frame payload =
     (if length payload < 2 then Fail (WireFrame ''wire frame is too short'')
      else rbind (or_panic (slice_to payload 1)) (\<lambda>first.
           rbind (parse_prefix first) (\<lambda>p.
           rbind (parse_recipient payload) (\<lambda>r.
           rbind (or_panic (slice_from payload 2)) (\<lambda>rest.
           Ok \<lparr>prefix = p, recipient = r, ciphertext = rest\<rparr>)))))"

definition is_recipient :: "wire_frame \<Rightarrow> bool \<Rightarrow> bool" where
  "is_recipient frame is_host \<longleftrightarrow> recipient frame = for_role is_host"

definition frame_string :: "wire_frame \<Rightarrow> string" where
  "frame_string f = compose_frame (prefix f) (recipient f) (ciphertext f)"

text \<open>
  What the two bytes in front of the ciphertext may be. A Rust string whose third byte
  starts a character is sliced at byte 2 without a panic; every valid UTF-8 ciphertext
  starts with such a byte.
\<close>

definition starts_char :: "string \<Rightarrow> bool" where
  "starts_char s \<longleftrightarrow> s = [] \<or> \<not> is_cont (hd s)"

section \<open>Properties\<close>

lemma is_cont_role_bytes [simp]:
  "\<not> is_cont CHR ''h''" "\<not> is_cont CHR ''x''" "\<not> is_cont CHR ''c''"
  by (simp_all add: is_cont_def)

lemma takeWhile_starts_char [simp]: "starts_char s \<Longrightarrow> takeWhile is_cont s = []"
  by (cases s) (auto simp: starts_char_def)

lemma slice2_starts_char:
  "starts_char s \<Longrightarrow> slice_from (a # b # s) 2 = Some s"
  by (cases s) (auto simp: slice_from_def is_char_boundary_def starts_char_def)

lemma parse_compose:
  assumes "starts_char c"
  shows "parse_frame (compose_frame p r c) = Ok \<lparr>prefix = p, recipient = r, ciphertext = c\<rparr>"
  using assms
  by (cases p; cases r)
     (simp_all add: parse_frame_def compose_frame_def slice2_starts_char parse_prefix_def
        parse_recipient_def HANDSHAKE_PREFIX_def ENCRYPTED_PREFIX_def from_char_def slice_to_def
        is_char_boundary_def)

interpretation frame_codec: codec frame_string parse_frame "\<lambda>f. starts_char (ciphertext f)"
  by unfold_locales (simp add: frame_string_def parse_compose)

text \<open>
  Past the length check, what the parser does depends on the first three bytes only.
\<close>

lemma parse_frame_short: "length s < 2 \<Longrightarrow> parse_frame s = Fail (WireFrame ''wire frame is too short'')"
  by (simp add: parse_frame_def)

lemma parse_frame_split:
  "parse_frame (a # b # s) =
     (if is_cont b then panicked
      else rbind (parse_prefix [a]) (\<lambda>p.
           rbind (ok_or (Err (WireFrame ''invalid wire frame recipient''))
                    (from_char (b # takeWhile is_cont s))) (\<lambda>r.
           Ok \<lparr>prefix = p, recipient = r, ciphertext = s\<rparr>)))"
proof (cases "is_cont b")
  case True
  then show ?thesis
    by (simp add: parse_frame_def slice_to_def is_char_boundary_def)
next
  case False
  have "slice_from (a # b # s) 2 = Some s" if "from_char (b # takeWhile is_cont s) = Some r" for r
  proof -
    from that have "takeWhile is_cont s = []"
      by (auto simp: from_char_def split: if_splits)
    then have "starts_char s"
      by (cases s) (auto simp: starts_char_def split: if_splits)
    then show ?thesis by (rule slice2_starts_char)
  qed
  then show ?thesis
    using False
    by (cases "parse_prefix [a]"; cases "from_char (b # takeWhile is_cont s)")
       (simp_all add: parse_frame_def slice_to_def is_char_boundary_def parse_recipient_def)
qed

lemma parse_frame_cases:
  assumes "parse_frame s = r"
  obtains (short) "length s < 2" | (long) a b t where "s = a # b # t"
  using assms by (cases s rule: remdups_adj.cases) auto

lemma frame_parsed:
  assumes "parse_frame s = Ok f"
  shows "s = frame_string f \<and> starts_char (ciphertext f)"
proof (cases rule: parse_frame_cases [OF assms])
  case 1
  with assms show ?thesis by (simp add: parse_frame_short)
next
  case (2 a b t)
  with assms have f: "parse_prefix [a] = Ok (prefix f)"
      "from_char (b # takeWhile is_cont t) = Some (recipient f)" "ciphertext f = t"
    by (auto simp: parse_frame_split split: if_splits)
  then have "takeWhile is_cont t = []" by (auto simp: from_char_def split: if_splits)
  then have "starts_char t" by (cases t) (auto simp: starts_char_def split: if_splits)
  with f 2 show ?thesis
    by (auto simp: frame_string_def compose_frame_def parse_prefix_def from_char_def
        HANDSHAKE_PREFIX_def ENCRYPTED_PREFIX_def split: if_splits)
qed

text \<open>
  C32. Every frame the parser accepts is the one \<open>compose_frame\<close> writes for its fields, and
  every frame \<open>compose_frame\<close> writes over a ciphertext that starts with a character is
  accepted with the fields it was written from: the two functions are inverse to each other.
\<close>

theorem parse_frame_iff_compose:
  "parse_frame s = Ok f \<longleftrightarrow> s = frame_string f \<and> starts_char (ciphertext f)"
  using frame_parsed [of s f] frame_codec.decode_encode [of f] by auto

text \<open>
  C34. The parser panics exactly on the strings whose first character takes more than one
  byte: \<open>&payload[..1]\<close> then cuts that character. No other slice of it can panic.
\<close>

theorem parse_frame_panics_iff:
  "parse_frame s = panicked \<longleftrightarrow> 2 \<le> length s \<and> is_cont (s ! 1)"
proof (cases rule: parse_frame_cases [OF refl [of "parse_frame s"]])
  case 1
  then show ?thesis by (simp add: parse_frame_short)
next
  case (2 a b t)
  then show ?thesis
    by (cases "parse_prefix [a]"; cases "from_char (b # takeWhile is_cont t)")
       (auto simp: parse_frame_split parse_prefix_def split: if_splits)
qed

end
