(* ===== verification/Json.thy ===== *)
theory Json
  imports Complex_Main Errors "HOL-Library.Word" "HOL-Library.Finite_Map"
begin

text \<open>
  JSON values as serde_json's \<open>Value\<close> has them, its accessors, and the shapes that serde's
  derive attributes give to structs and to enums tagged by a \<open>"type"\<close> member. An object is
  a finite map (a \<open>Value\<close> object has one value per key and no order). A number is an
  unsigned 64-bit integer, a negative integer, or a finite double, which is a rational.
\<close>

section \<open>Values\<close>

type_synonym u64 = "64 word"

datatype json_number = PosInt u64 | NegInt int | Float rat

datatype json =
    JNull
  | JBool bool
  | JNumber json_number
  | JString string
  | JArray "json list"
  | JObject "(string, json) fmap"

abbreviation obj :: "(string \<times> json) list \<Rightarrow> json" where
  "obj ms \<equiv> JObject (fmap_of_list ms)"

abbreviation JU64 :: "u64 \<Rightarrow> json" where
  "JU64 n \<equiv> JNumber (PosInt n)"

text \<open>\<open>Value::get\<close>, indexing by a string (\<open>Null\<close> where there is no member), \<open>as_str\<close>, \<open>is_object\<close>.\<close>

fun json_get :: "json \<Rightarrow> string \<Rightarrow> json option" where
  "json_get (JObject m) k = fmlookup m k"
| "json_get _ k = None"

definition json_index :: "json \<Rightarrow> string \<Rightarrow> json" where
  "json_index v k = (case json_get v k of None \<Rightarrow> JNull | Some x \<Rightarrow> x)"

fun as_str :: "json \<Rightarrow> string option" where
  "as_str (JString s) = Some s"
| "as_str _ = None"

fun as_array :: "json \<Rightarrow> json list option" where
  "as_array (JArray vs) = Some vs"
| "as_array _ = None"

fun as_u64 :: "json \<Rightarrow> u64 option" where
  "as_u64 (JNumber (PosInt n)) = Some n"
| "as_u64 _ = None"

fun is_object :: "json \<Rightarrow> bool" where
  "is_object (JObject _) = True"
| "is_object _ = False"

section \<open>Derived shapes\<close>

text \<open>
  A derived struct is read from an object, where members it does not name are ignored, or
  from an array that holds exactly its fields in order. The result lists the value each
  field finds, \<open>None\<close> for a member the object does not have.
\<close>

fun struct_fields :: "string list \<Rightarrow> json \<Rightarrow> json option list option" where
  "struct_fields names (JObject m) = Some (map (fmlookup m) names)"
| "struct_fields names (JArray vs) =
     (if length vs = length names then Some (map Some vs) else None)"
| "struct_fields names _ = None"

text \<open>
  An enum with \<open>#[serde(tag = "type")]\<close> is read from an object with a string member
  \<open>type\<close>, or from an array whose first element is that string; the rest is the variant.
\<close>

fun tagged :: "json \<Rightarrow> (string \<times> json) option" where
  "tagged (JObject m) =
     (case fmlookup m ''type'' of
        Some (JString t) \<Rightarrow> Some (t, JObject (fmdrop ''type'' m))
      | _ \<Rightarrow> None)"
| "tagged (JArray (JString t # vs)) = Some (t, JArray vs)"
| "tagged _ = None"

text \<open>A unit variant ignores the members of an object and takes no further array element.\<close>

fun unit_content :: "json \<Rightarrow> bool" where
  "unit_content (JObject _) = True"
| "unit_content (JArray vs) \<longleftrightarrow> vs = []"
| "unit_content _ = False"

text \<open>An \<open>Option\<close> field is absent where its member is missing or \<open>null\<close>.\<close>

definition opt_field :: "(json \<Rightarrow> 'a option) \<Rightarrow> json option \<Rightarrow> 'a option option" where
  "opt_field dec v =
     (case v of
        None \<Rightarrow> Some None
      | Some JNull \<Rightarrow> Some None
      | Some x \<Rightarrow> map_option Some (dec x))"

definition req_field :: "(json \<Rightarrow> 'a option) \<Rightarrow> json option \<Rightarrow> 'a option" where
  "req_field dec v = Option.bind v dec"

definition string_list :: "json \<Rightarrow> string list option" where
  "string_list v = Option.bind (as_array v) (\<lambda>vs. those (map as_str vs))"

text \<open>\<open>#[serde(skip_serializing_if = "Option::is_none")]\<close>: an absent field has no member.\<close>

definition opt_member :: "string \<Rightarrow> ('a \<Rightarrow> json) \<Rightarrow> 'a option \<Rightarrow> (string \<times> json) list" where
  "opt_member k enc x = (case x of None \<Rightarrow> [] | Some v \<Rightarrow> [(k, enc v)])"

section \<open>Properties\<close>

declare fmlookup_of_list [simp]

lemma json_get_obj [simp]: "json_get (obj ms) k = map_of ms k"
  by simp

lemma json_index_obj [simp]:
  "json_index (obj ms) k = (case map_of ms k of None \<Rightarrow> JNull | Some x \<Rightarrow> x)"
  by (simp add: json_index_def)

lemma opt_field_simps [simp]:
  "opt_field dec None = Some None"
  "opt_field dec (Some JNull) = Some None"
  "v \<noteq> JNull \<Longrightarrow> opt_field dec (Some v) = map_option Some (dec v)"
  by (auto simp: opt_field_def split: json.splits)

lemma req_field_simps [simp]:
  "req_field dec None = None" "req_field dec (Some v) = dec v"
  by (simp_all add: req_field_def)

lemma those_map_Some [simp]: "those (map Some xs) = Some xs"
  by (induction xs) simp_all

lemma string_list_strings [simp]: "string_list (JArray (map JString ts)) = Some ts"
  by (simp add: string_list_def comp_def)

lemma is_object_obj [simp]: "is_object v \<longleftrightarrow> (\<exists>m. v = JObject m)"
  by (cases v) simp_all

end
