(* ===== verification/Messages.thy ===== *)
theory Messages
  imports Json
begin

text \<open>
  The messages peers exchange: signaling messages with their validation
  (crates/openlv/src/signaling/message/mod.rs), and session and transport negotiation
  messages (crates/openlv/src/transport/message/mod.rs). The serializers and deserializers
  are those the derive attributes of these types describe.
\<close>

section \<open>Signaling messages\<close>

record pubkey_payload =
  public_key_text :: string

record peer_info =
  identity :: string
  peer_name :: string
  icon :: "string option"

record peer_capabilities =
  transports :: "string list"
  info :: "peer_info option"

datatype signaling_message =
    Flash (flash_payload: json) (msg_timestamp: u64)
  | Pubkey pubkey_payload (msg_timestamp: u64)
  | Capabilities peer_capabilities (msg_timestamp: u64)
  | Data json (msg_timestamp: u64)

definition pubkey_payload_to_value :: "pubkey_payload \<Rightarrow> json" where
  "pubkey_payload_to_value p = obj [(''publicKey'', JString (public_key_text p))]"

definition pubkey_payload_from_value :: "json \<Rightarrow> pubkey_payload option" where
  "pubkey_payload_from_value v =
     (case struct_fields [''publicKey''] v of
        Some [k] \<Rightarrow> map_option (\<lambda>s. \<lparr>public_key_text = s\<rparr>) (req_field as_str k)
      | _ \<Rightarrow> None)"

definition peer_info_to_value :: "peer_info \<Rightarrow> json" where
  "peer_info_to_value i =
     obj ([(''identity'', JString (identity i)), (''name'', JString (peer_name i))]
          @ opt_member ''icon'' JString (icon i))"

definition peer_info_from_value :: "json \<Rightarrow> peer_info option" where
  "peer_info_from_value v =
     (case struct_fields [''identity'', ''name'', ''icon''] v of
        Some [i, n, c] \<Rightarrow>
          Option.bind (req_field as_str i) (\<lambda>i'.
          Option.bind (req_field as_str n) (\<lambda>n'.
          Option.bind (opt_field as_str c) (\<lambda>c'.
          Some \<lparr>identity = i', peer_name = n', icon = c'\<rparr>)))
      | _ \<Rightarrow> None)"

definition peer_capabilities_to_value :: "peer_capabilities \<Rightarrow> json" where
  "peer_capabilities_to_value c =
     obj ([(''transports'', JArray (map JString (transports c)))]
          @ opt_member ''info'' peer_info_to_value (info c))"

definition peer_capabilities_from_value :: "json \<Rightarrow> peer_capabilities option" where
  "peer_capabilities_from_value v =
     (case struct_fields [''transports'', ''info''] v of
        Some [t, i] \<Rightarrow>
          Option.bind (req_field string_list t) (\<lambda>t'.
          Option.bind (opt_field peer_info_from_value i) (\<lambda>i'.
          Some \<lparr>transports = t', info = i'\<rparr>))
      | _ \<Rightarrow> None)"

fun signaling_message_to_value :: "signaling_message \<Rightarrow> json" where
  "signaling_message_to_value (Flash p t) =
     obj [(''type'', JString ''flash''), (''payload'', p), (''timestamp'', JU64 t)]"
| "signaling_message_to_value (Pubkey p t) =
     obj [(''type'', JString ''pubkey''), (''payload'', pubkey_payload_to_value p),
          (''timestamp'', JU64 t)]"
| "signaling_message_to_value (Capabilities p t) =
     obj [(''type'', JString ''capabilities''), (''payload'', peer_capabilities_to_value p),
          (''timestamp'', JU64 t)]"
| "signaling_message_to_value (Data p t) =
     obj [(''type'', JString ''data''), (''payload'', p), (''timestamp'', JU64 t)]"

text \<open>The variants share the fields \<open>payload\<close> and \<open>timestamp\<close> and differ in the payload's type.\<close>

definition payload_and_timestamp ::
  "(json \<Rightarrow> 'a option) \<Rightarrow> ('a \<Rightarrow> u64 \<Rightarrow> signaling_message) \<Rightarrow> json \<Rightarrow> signaling_message option" where
  "payload_and_timestamp dec con v =
     (case struct_fields [''payload'', ''timestamp''] v of
        Some [p, t] \<Rightarrow>
          Option.bind (req_field dec p) (\<lambda>p'.
          Option.bind (req_field as_u64 t) (\<lambda>t'. Some (con p' t')))
      | _ \<Rightarrow> None)"

definition signaling_message_from_value :: "json \<Rightarrow> signaling_message option" where
  "signaling_message_from_value v =
     Option.bind (tagged v) (\<lambda>(tag, content).
       if tag = ''flash'' then payload_and_timestamp Some Flash content
       else if tag = ''pubkey'' then payload_and_timestamp pubkey_payload_from_value Pubkey content
       else if tag = ''capabilities'' then
         payload_and_timestamp peer_capabilities_from_value Capabilities content
       else if tag = ''data'' then payload_and_timestamp Some Data content
       else None)"

section \<open>Validation\<close>

definition is_bounded_string :: "string \<Rightarrow> nat \<Rightarrow> bool" where
  "is_bounded_string value max_length \<longleftrightarrow> value \<noteq> [] \<and> length value \<le> max_length"

definition validate_peer_info :: "peer_info \<Rightarrow> string + unit" where
  "validate_peer_info i =
     (if \<not> is_bounded_string (identity i) 128 then Inl ''peer identity must be 1-128 characters''
      else if \<not> is_bounded_string (peer_name i) 128 then Inl ''peer name must be 1-128 characters''
      else (case icon i of
              Some ic \<Rightarrow> if \<not> is_bounded_string ic 8192
                then Inl ''peer icon must be 1-8192 characters'' else Inr ()
            | None \<Rightarrow> Inr ()))"

definition validate_capabilities :: "peer_capabilities \<Rightarrow> string + unit" where
  "validate_capabilities c =
     (if transports c = [] \<or> length (transports c) > 8
        then Inl ''transports must contain 1-8 entries''
      else if \<not> list_all (\<lambda>t. is_bounded_string t 32) (transports c)
        then Inl ''transport identifiers must be 1-32 characters''
      else (case info c of Some i \<Rightarrow> validate_peer_info i | None \<Rightarrow> Inr ()))"

fun validate_message :: "signaling_message \<Rightarrow> string + unit" where
  "validate_message (Flash p t) =
     (if \<not> is_object p then Inl ''signaling payload must be an object'' else Inr ())"
| "validate_message (Data p t) =
     (if \<not> is_object p then Inl ''signaling payload must be an object'' else Inr ())"
| "validate_message (Pubkey p t) =
     (if public_key_text p = [] then Inl ''public key must not be empty'' else Inr ())"
| "validate_message (Capabilities p t) = validate_capabilities p"

section \<open>Session and negotiation messages\<close>

record negotiation =
  message_type :: string
  negotiation_payload :: string

datatype session_message =
    Request (message_id: string) json
  | Response (message_id: string) json
  | Ack (message_id: string)
  | Failed (message_id: string)
  | Close
  | Unknown

definition negotiation_to_value :: "negotiation \<Rightarrow> json" where
  "negotiation_to_value n =
     obj [(''type'', JString (message_type n)), (''payload'', JString (negotiation_payload n))]"

definition negotiation_from_value :: "json \<Rightarrow> negotiation option" where
  "negotiation_from_value v =
     (case struct_fields [''type'', ''payload''] v of
        Some [t, p] \<Rightarrow>
          Option.bind (req_field as_str t) (\<lambda>t'.
          Option.bind (req_field as_str p) (\<lambda>p'.
          Some \<lparr>message_type = t', negotiation_payload = p'\<rparr>))
      | _ \<Rightarrow> None)"

fun session_message_to_value :: "session_message \<Rightarrow> json" where
  "session_message_to_value (Request i p) =
     obj [(''type'', JString ''request''), (''messageId'', JString i), (''payload'', p)]"
| "session_message_to_value (Response i p) =
     obj [(''type'', JString ''response''), (''messageId'', JString i), (''payload'', p)]"
| "session_message_to_value (Ack i) =
     obj [(''type'', JString ''ack''), (''messageId'', JString i)]"
| "session_message_to_value (Failed i) =
     obj [(''type'', JString ''failed''), (''messageId'', JString i)]"
| "session_message_to_value Close = obj [(''type'', JString ''close'')]"
| "session_message_to_value Unknown = obj [(''type'', JString ''Unknown'')]"

definition id_and_payload ::
  "(string \<Rightarrow> json \<Rightarrow> session_message) \<Rightarrow> json \<Rightarrow> session_message option" where
  "id_and_payload con v =
     (case struct_fields [''messageId'', ''payload''] v of
        Some [i, p] \<Rightarrow>
          Option.bind (req_field as_str i) (\<lambda>i'.
          Option.bind (req_field Some p) (\<lambda>p'. Some (con i' p')))
      | _ \<Rightarrow> None)"

definition id_only :: "(string \<Rightarrow> session_message) \<Rightarrow> json \<Rightarrow> session_message option" where
  "id_only con v =
     (case struct_fields [''messageId''] v of
        Some [i] \<Rightarrow> map_option con (req_field as_str i)
      | _ \<Rightarrow> None)"

definition session_message_from_value :: "json \<Rightarrow> session_message option" where
  "session_message_from_value v =
     Option.bind (tagged v) (\<lambda>(tag, content).
       if tag = ''request'' then id_and_payload Request content
       else if tag = ''response'' then id_and_payload Response content
       else if tag = ''ack'' then id_only Ack content
       else if tag = ''failed'' then id_only Failed content
       else if tag = ''close'' then (if unit_content content then Some Close else None)
       else (if unit_content content then Some Unknown else None))"

text \<open>\<open>SessionMessage::reply\<close>: the answer to a request, by the outcome of its handler.\<close>

definition reply :: "string \<Rightarrow> 'e + json \<Rightarrow> session_message" where
  "reply mid outcome = (case outcome of Inr p \<Rightarrow> Response mid p | Inl _ \<Rightarrow> Failed mid)"

section \<open>Round trips\<close>

lemmas shape_defs = pubkey_payload_to_value_def pubkey_payload_from_value_def
  peer_info_to_value_def peer_info_from_value_def peer_capabilities_to_value_def
  peer_capabilities_from_value_def payload_and_timestamp_def id_and_payload_def id_only_def
  negotiation_to_value_def negotiation_from_value_def opt_member_def

lemma pubkey_payload_roundtrip [simp]:
  "pubkey_payload_from_value (pubkey_payload_to_value p) = Some p"
  by (simp add: shape_defs)

lemma peer_info_roundtrip [simp]: "peer_info_from_value (peer_info_to_value i) = Some i"
  by (cases "icon i") (simp_all add: shape_defs)

lemma peer_info_not_null [simp]: "peer_info_to_value i \<noteq> JNull"
  by (simp add: peer_info_to_value_def)

lemma peer_capabilities_roundtrip [simp]:
  "peer_capabilities_from_value (peer_capabilities_to_value c) = Some c"
  by (cases "info c")
     (simp_all add: peer_capabilities_from_value_def peer_capabilities_to_value_def opt_member_def)

lemma signaling_message_roundtrip [simp]:
  "signaling_message_from_value (signaling_message_to_value m) = Some m"
  by (cases m) (simp_all add: signaling_message_from_value_def payload_and_timestamp_def)

lemma negotiation_roundtrip [simp]: "negotiation_from_value (negotiation_to_value n) = Some n"
  by (simp add: shape_defs)

lemma session_message_roundtrip [simp]:
  "session_message_from_value (session_message_to_value m) = Some m"
  by (cases m) (simp_all add: session_message_from_value_def id_and_payload_def id_only_def)

interpretation signaling_codec:
  codec signaling_message_to_value "\<lambda>v. ok_or () (signaling_message_from_value v)" "\<lambda>_. True"
  by unfold_locales simp

interpretation session_codec:
  codec session_message_to_value "\<lambda>v. ok_or () (session_message_from_value v)" "\<lambda>_. True"
  by unfold_locales simp

interpretation negotiation_codec:
  codec negotiation_to_value "\<lambda>v. ok_or () (negotiation_from_value v)" "\<lambda>_. True"
  by unfold_locales simp

end
