(* ===== verification/Crypto.thy ===== *)
theory Crypto
  imports Json
begin

text \<open>
  Encryption (crates/openlv/src/encryption): the pre-shared handshake key, the X25519 key
  pairs with their peer encryption, and public-key hashes. The primitives come from other
  crates and are fields of the record \<open>platform\<close>, an argument of every definition that uses
  them, as are the text form of JSON and the texts of foreign errors. What the code relies
  on of them is stated by the predicates \<open>base64_ok\<close>, \<open>aead_ok\<close> and \<open>x25519_ok\<close>. Random
  bytes are arguments.
\<close>

section \<open>The platform\<close>

record platform =
  b64_encode :: "bytes \<Rightarrow> string"
  b64_decode :: "string \<Rightarrow> string + bytes"
  x25519_base :: "bytes \<Rightarrow> bytes"
  x25519 :: "bytes \<Rightarrow> bytes \<Rightarrow> bytes"
  contributory :: "bytes \<Rightarrow> bool"
  hkdf_expand :: "bytes \<Rightarrow> bytes \<Rightarrow> bytes"
  aes256_encrypt :: "bytes \<Rightarrow> bytes \<Rightarrow> bytes \<Rightarrow> string + bytes"
  aes256_decrypt :: "bytes \<Rightarrow> bytes \<Rightarrow> bytes \<Rightarrow> string + bytes"
  aes128_encrypt :: "bytes \<Rightarrow> bytes \<Rightarrow> bytes \<Rightarrow> string + bytes"
  aes128_decrypt :: "bytes \<Rightarrow> bytes \<Rightarrow> bytes \<Rightarrow> string + bytes"
  sha256 :: "bytes \<Rightarrow> bytes"
  utf8_error :: "bytes \<Rightarrow> string"
  json_print :: "json \<Rightarrow> string"
  json_parse :: "string \<Rightarrow> string + json"
  json_error :: "json \<Rightarrow> string"

text \<open>Base64 decodes what it encodes, writes ASCII, and writes nothing for no bytes.\<close>

definition base64_ok :: "platform \<Rightarrow> bool" where
  "base64_ok P \<longleftrightarrow>
     (\<forall>b. b64_decode P (b64_encode P b) = Inr b) \<and> b64_encode P [] = [] \<and>
     (\<forall>b. list_all is_ascii (b64_encode P b))"

text \<open>
  AES-GCM encrypts every message up to its size limit, appends a tag of 16 bytes, and
  decrypts what it encrypted under the same key and nonce.
\<close>

definition gcm_limit :: nat where
  "gcm_limit = 2 ^ 36 - 32"

definition aead_ok ::
  "(bytes \<Rightarrow> bytes \<Rightarrow> bytes \<Rightarrow> string + bytes) \<Rightarrow> (bytes \<Rightarrow> bytes \<Rightarrow> bytes \<Rightarrow> string + bytes) \<Rightarrow> bool" where
  "aead_ok enc dec \<longleftrightarrow>
     (\<forall>k n m. length m \<le> gcm_limit \<longrightarrow> is_ok (enc k n m)) \<and>
     (\<forall>k n m c. enc k n m = Inr c \<longrightarrow> dec k n c = Inr m \<and> length c = length m + 16)"

text \<open>Diffie-Hellman agreement on 32-byte keys.\<close>

definition x25519_ok :: "platform \<Rightarrow> bool" where
  "x25519_ok P \<longleftrightarrow>
     (\<forall>a. length a = 32 \<longrightarrow> length (x25519_base P a) = 32) \<and>
     (\<forall>a b. length a = 32 \<longrightarrow> length b = 32 \<longrightarrow>
        x25519 P a (x25519_base P b) = x25519 P b (x25519_base P a))"

section \<open>Base64 (encryption/mod.rs)\<close>

definition to_base64 :: "platform \<Rightarrow> bytes \<Rightarrow> string" where
  "to_base64 P data = b64_encode P data"

definition from_base64 :: "platform \<Rightarrow> string \<Rightarrow> bytes res" where
  "from_base64 P value = map_err (\<lambda>e. Err (Encryption e)) (b64_decode P value)"

text \<open>\<open>String::from_utf8\<close> with its error mapped, as both decryptions end.\<close>

definition from_utf8 :: "platform \<Rightarrow> bytes \<Rightarrow> string res" where
  "from_utf8 P b = (if utf8_valid b then Ok b else Fail (Encryption (utf8_error P b)))"

text \<open>\<open>fill_bytes\<close> on a zeroed buffer of \<open>n\<close> bytes, from the bytes the generator yields.\<close>

definition fill_bytes :: "nat \<Rightarrow> bytes \<Rightarrow> bytes" where
  "fill_bytes n rnd = take n (rnd @ replicate n (char_of (0 :: nat)))"

lemma length_fill_bytes [simp]: "length (fill_bytes n rnd) = n"
  by (simp add: fill_bytes_def)

lemma fill_bytes_exact [simp]: "length rnd = n \<Longrightarrow> fill_bytes n rnd = rnd"
  by (simp add: fill_bytes_def)

section \<open>The handshake key (encryption/handshake/mod.rs)\<close>

definition IV_LENGTH :: nat where "IV_LENGTH = 12"

record handshake_key =
  hk_hex :: string
  hk_cipher :: bytes

fun hex_decode :: "string \<Rightarrow> bytes" where
  "hex_decode (a # b # rest) = char_of (16 * hex_value a + hex_value b) # hex_decode rest"
| "hex_decode _ = []"

text \<open>
  The checks in front leave only pairs of hexadecimal digits, so neither the conversion of a
  chunk to text, nor \<open>from_str_radix\<close>, nor the cipher's length check can fail.
\<close>

definition from_hex :: "string \<Rightarrow> handshake_key res" where
  "from_hex hex =
     (if length hex \<noteq> 32 \<or> \<not> list_all is_ascii_hexdigit hex
        then Fail (Encryption ''handshake key must be 32 lowercase hex characters'')
      else Ok \<lparr>hk_hex = map ascii_lower hex, hk_cipher = hex_decode hex\<rparr>)"

definition generate_handshake_key :: "bytes \<Rightarrow> handshake_key res" where
  "generate_handshake_key rnd = from_hex (concat (map hex_byte rnd))"

definition to_hex :: "handshake_key \<Rightarrow> string" where
  "to_hex k = hk_hex k"

definition handshake_encrypt :: "platform \<Rightarrow> bytes \<Rightarrow> handshake_key \<Rightarrow> string \<Rightarrow> string res" where
  "handshake_encrypt P rnd key message =
     (let iv = fill_bytes IV_LENGTH rnd in
      rbind (map_err (\<lambda>e. Err (Encryption e)) (aes128_encrypt P (hk_cipher key) iv message))
        (\<lambda>ct. Ok (to_base64 P (iv @ ct))))"

definition handshake_decrypt :: "platform \<Rightarrow> handshake_key \<Rightarrow> string \<Rightarrow> string res" where
  "handshake_decrypt P key message =
     rbind (from_base64 P message) (\<lambda>combined.
       if length combined < IV_LENGTH then Fail (Encryption ''encrypted payload is too short'')
       else rbind (map_err (\<lambda>e. Err (Encryption e))
                     (aes128_decrypt P (hk_cipher key) (take IV_LENGTH combined)
                        (drop IV_LENGTH combined)))
              (from_utf8 P))"

section \<open>Peer keys (encryption/asymmetric/mod.rs)\<close>

definition PUBLIC_KEY_BYTES :: nat where "PUBLIC_KEY_BYTES = 32"
definition NONCE_BYTES :: nat where "NONCE_BYTES = 12"
definition KEY_INFO :: bytes where "KEY_INFO = ''openlv/1 peer-key''"

record encryption_key =
  public_key :: bytes
  ek_serialized :: string

record decryption_key =
  secret_key :: bytes
  own_public_key :: bytes
  dk_serialized :: string

record key_pair =
  kp_encryption_key :: encryption_key
  kp_decryption_key :: decryption_key

definition ek_from_base64 :: "platform \<Rightarrow> string \<Rightarrow> encryption_key res" where
  "ek_from_base64 P serialized =
     rbind (from_base64 P serialized) (\<lambda>b.
       if length b \<noteq> PUBLIC_KEY_BYTES then Fail (Encryption ''public key must be 32 bytes'')
       else Ok \<lparr>public_key = b, ek_serialized = serialized\<rparr>)"

definition ek_from_ciphertext :: "platform \<Rightarrow> string \<Rightarrow> encryption_key res" where
  "ek_from_ciphertext P ct =
     rbind (from_base64 P ct) (\<lambda>b.
     rbind (ok_or (Err (Encryption ''encrypted payload is malformed''))
              (if PUBLIC_KEY_BYTES \<le> length b then Some (take PUBLIC_KEY_BYTES b) else None))
       (\<lambda>sender. ek_from_base64 P (to_base64 P sender)))"

definition dk_from_base64 :: "platform \<Rightarrow> string \<Rightarrow> decryption_key res" where
  "dk_from_base64 P serialized =
     rbind (from_base64 P serialized) (\<lambda>b.
       if length b \<noteq> PUBLIC_KEY_BYTES then Fail (Encryption ''secret key must be 32 bytes'')
       else Ok \<lparr>secret_key = b, own_public_key = x25519_base P b, dk_serialized = serialized\<rparr>)"

text \<open>The AES-256 key for a peer: the hash of the shared secret under the given info.\<close>

definition peer_cipher :: "platform \<Rightarrow> decryption_key \<Rightarrow> bytes \<Rightarrow> bytes \<Rightarrow> bytes res" where
  "peer_cipher P dk peer_public_key key_info =
     (if length peer_public_key \<noteq> PUBLIC_KEY_BYTES
        then Fail (Encryption ''public key must be 32 bytes'')
      else let shared_secret = x25519 P (secret_key dk) peer_public_key in
        if \<not> contributory P shared_secret
          then Fail (Encryption ''peer public key yields an all-zero shared secret'')
        else Ok (hkdf_expand P shared_secret key_info))"

definition peer_encrypt ::
  "platform \<Rightarrow> bytes \<Rightarrow> decryption_key \<Rightarrow> string \<Rightarrow> encryption_key \<Rightarrow> string res" where
  "peer_encrypt P rnd dk message peer =
     rbind (peer_cipher P dk (public_key peer) (KEY_INFO @ own_public_key dk @ public_key peer))
       (\<lambda>key.
     let nonce = fill_bytes NONCE_BYTES rnd in
     rbind (map_err (\<lambda>e. Err (Encryption e)) (aes256_encrypt P key nonce message)) (\<lambda>ct.
     Ok (to_base64 P (own_public_key dk @ nonce @ ct))))"

definition peer_decrypt ::
  "platform \<Rightarrow> decryption_key \<Rightarrow> string \<Rightarrow> encryption_key option \<Rightarrow> string res" where
  "peer_decrypt P dk message peer =
     (if message = [] then Fail (Encryption ''cannot decrypt an empty payload'')
      else rbind (from_base64 P message) (\<lambda>b.
        if length b \<le> PUBLIC_KEY_BYTES + NONCE_BYTES
          then Fail (Encryption ''encrypted payload is malformed'')
        else
          let sender = take PUBLIC_KEY_BYTES b;
              rest = drop PUBLIC_KEY_BYTES b;
              nonce = take NONCE_BYTES rest;
              ct = drop NONCE_BYTES rest
          in if (case peer of Some p \<Rightarrow> public_key p \<noteq> sender | None \<Rightarrow> False)
               then Fail (Encryption ''sender key does not match the peer key'')
             else rbind (peer_cipher P dk sender (KEY_INFO @ sender @ own_public_key dk)) (\<lambda>key.
                  rbind (map_err (\<lambda>e. Err (Encryption e)) (aes256_decrypt P key nonce ct))
                    (from_utf8 P))))"

definition generate_key_pair :: "platform \<Rightarrow> bytes \<Rightarrow> key_pair res" where
  "generate_key_pair P rnd =
     (let pk = x25519_base P rnd in
      Ok \<lparr>kp_encryption_key = \<lparr>public_key = pk, ek_serialized = to_base64 P pk\<rparr>,
          kp_decryption_key =
            \<lparr>secret_key = rnd, own_public_key = pk, dk_serialized = to_base64 P rnd\<rparr>\<rparr>)"

definition parse_encryption_key :: "platform \<Rightarrow> string \<Rightarrow> encryption_key res" where
  "parse_encryption_key P serialized = ek_from_base64 P serialized"

section \<open>Public-key hashes (encryption/hash/mod.rs)\<close>

definition HASH_LENGTH :: nat where "HASH_LENGTH = 16"

record init_hash_result =
  ih_hash :: string
  ih_is_host :: bool

definition hash_public_key :: "platform \<Rightarrow> encryption_key \<Rightarrow> string" where
  "hash_public_key P k = take HASH_LENGTH (concat (map hex_byte (sha256 P (public_key k))))"

definition validate_public_key_hash :: "platform \<Rightarrow> encryption_key \<Rightarrow> string \<Rightarrow> bool res" where
  "validate_public_key_hash P k expected_hash = Ok (hash_public_key P k = expected_hash)"

definition init_hash :: "platform \<Rightarrow> string option \<Rightarrow> encryption_key \<Rightarrow> init_hash_result res" where
  "init_hash P initial_hash k =
     (let our_hash = hash_public_key P k;
          hash = (case initial_hash of Some i \<Rightarrow> i | None \<Rightarrow> our_hash)
      in Ok \<lparr>ih_hash = hash, ih_is_host = (hash = our_hash)\<rparr>)"

section \<open>Handshake keys\<close>

lemma hex_value_lower [simp]: "is_ascii_hexdigit c \<Longrightarrow> hex_value (ascii_lower c) = hex_value c"
  by (auto simp: hex_value_def ascii_lower_def is_ascii_hexdigit_def is_hex_lower_def is_digit_def)

lemma hex_decode_lower [simp]:
  "list_all is_ascii_hexdigit s \<Longrightarrow> hex_decode (map ascii_lower s) = hex_decode s"
  by (induction s rule: hex_decode.induct) simp_all

lemma hex_decode_hex_bytes [simp]: "hex_decode (concat (map hex_byte bs)) = bs"
proof (induction bs)
  case (Cons b bs)
  have "byte_val b div 16 < 16" using byte_val_less [of b] by linarith
  then have "char_of (16 * hex_value (hex_digit (byte_val b div 16)) + hex_value (hex_digit (byte_val b mod 16))) = b"
    by (simp add: char_of_def [symmetric])
  with Cons show ?case by (simp add: hex_byte_def)
qed simp

lemma length_hex_decode [simp]: "even (length s) \<Longrightarrow> length (hex_decode s) = length s div 2"
  by (induction s rule: hex_decode.induct) auto

lemma from_hex_Ok_iff:
  "from_hex s = Ok k \<longleftrightarrow>
     length s = 32 \<and> list_all is_ascii_hexdigit s \<and>
     k = \<lparr>hk_hex = map ascii_lower s, hk_cipher = hex_decode s\<rparr>"
  by (auto simp: from_hex_def)

lemma from_hex_length: "from_hex s = Ok k \<Longrightarrow> length (hk_cipher k) = 16"
  by (auto simp: from_hex_Ok_iff)

lemma from_hex_again:
  assumes "from_hex s = Ok k"
  shows "from_hex (to_hex k) = Ok k \<and> length (to_hex k) = 32 \<and> list_all is_hex_lower (to_hex k)"
proof -
  from assms have s: "length s = 32" "list_all is_ascii_hexdigit s"
    "k = \<lparr>hk_hex = map ascii_lower s, hk_cipher = hex_decode s\<rparr>"
    by (auto simp: from_hex_Ok_iff)
  then have low: "list_all is_hex_lower (map ascii_lower s)"
    by (auto simp: list_all_iff ascii_lower_hexdigit)
  with s have "from_hex (to_hex k) = Ok k"
    by (auto simp: to_hex_def from_hex_Ok_iff list_all_iff)
  with s low show ?thesis by (simp add: to_hex_def)
qed

text \<open>
  A handshake key survives its own text form: parsing the hexadecimal text of a parsed
  key gives the same key, text and key bytes, whatever case the original text had, and the
  text is always 32 lowercase digits.
\<close>

lemma from_hex_to_hex:
  assumes "from_hex s = Ok k"
  shows "from_hex (to_hex k) = Ok k \<and> length (to_hex k) = 32 \<and> list_all is_hex_lower (to_hex k)"
  using assms by (rule from_hex_again)

text \<open>
  A generated handshake key is never refused: its random bytes are exactly the bytes of
  the cipher, and its text is 32 lowercase hexadecimal digits.
\<close>

theorem generate_handshake_key_ok:
  assumes "length rnd = 16"
  shows "\<exists>k. generate_handshake_key rnd = Ok k \<and> hk_cipher k = rnd \<and>
           length (to_hex k) = 32 \<and> list_all is_hex_lower (to_hex k)"
proof -
  let ?hex = "concat (map hex_byte rnd)"
  have low: "list_all is_hex_lower ?hex"
    using hex_bytes_lower by (auto simp: list_all_iff)
  then have "map ascii_lower ?hex = ?hex"
    by (intro map_idI) (auto simp: list_all_iff)
  with low assms show ?thesis
    by (auto simp: generate_handshake_key_def from_hex_def to_hex_def list_all_iff simp del: map_concat)
qed

theorem generate_handshake_key_ok_witness:
  "\<exists>k. generate_handshake_key (replicate 16 CHR ''x'') = Ok k \<and>
     hk_cipher k = replicate 16 CHR ''x'' \<and> length (to_hex k) = 32 \<and> list_all is_hex_lower (to_hex k)"
  by (rule generate_handshake_key_ok) simp

lemma from_base64_to_base64: "base64_ok P \<Longrightarrow> from_base64 P (to_base64 P b) = Ok b"
  by (simp add: base64_ok_def from_base64_def to_base64_def)

lemma to_base64_Nil_iff: "base64_ok P \<Longrightarrow> to_base64 P b = [] \<longleftrightarrow> b = []"
  by (metis base64_ok_def sum.inject(2) to_base64_def)

lemma aead_okE:
  assumes "aead_ok enc dec" "length m \<le> gcm_limit"
  obtains c where "enc k n m = Inr c" "dec k n c = Inr m" "length c = length m + 16"
  using assms unfolding aead_ok_def is_ok_iff by blast

lemma handshake_roundtrip_gen:
  assumes "base64_ok P" "aead_ok (aes128_encrypt P) (aes128_decrypt P)"
    and "length iv = IV_LENGTH" "utf8_valid m" "length m \<le> gcm_limit"
  obtains c where "handshake_encrypt P iv key m = Ok (to_base64 P c)" "c \<noteq> []"
    "handshake_decrypt P key (to_base64 P c) = Ok m"
proof -
  obtain ct where ct: "aes128_encrypt P (hk_cipher key) iv m = Inr ct"
    and dec: "aes128_decrypt P (hk_cipher key) iv ct = Inr m" "length ct = length m + 16"
    using assms(2,5) by (rule aead_okE)
  have "handshake_decrypt P key (to_base64 P (iv @ ct)) = Ok m"
    using assms dec by (simp add: handshake_decrypt_def from_base64_to_base64 from_utf8_def)
  moreover have "iv @ ct \<noteq> []" using dec by auto
  ultimately show ?thesis using ct that assms(3) by (simp add: handshake_encrypt_def Let_def)
qed

section \<open>Peer encryption\<close>

text \<open>The key pairs \<open>KeyPair::generate\<close> makes.\<close>

definition is_key_pair :: "platform \<Rightarrow> key_pair \<Rightarrow> bool" where
  "is_key_pair P kp \<longleftrightarrow> (\<exists>rnd. length rnd = 32 \<and> generate_key_pair P rnd = Ok kp)"

lemma is_key_pairD:
  assumes "is_key_pair P kp"
  shows "length (secret_key (kp_decryption_key kp)) = 32"
    "own_public_key (kp_decryption_key kp) = x25519_base P (secret_key (kp_decryption_key kp))"
    "public_key (kp_encryption_key kp) = own_public_key (kp_decryption_key kp)"
    "ek_serialized (kp_encryption_key kp) = to_base64 P (public_key (kp_encryption_key kp))"
  using assms by (auto simp: is_key_pair_def generate_key_pair_def Let_def)

lemma key_pair_public_length:
  assumes "x25519_ok P" "is_key_pair P kp"
  shows "length (public_key (kp_encryption_key kp)) = 32"
  using assms is_key_pairD [OF assms(2)] by (auto simp: x25519_ok_def)

lemma parse_own_key:
  assumes "base64_ok P" "x25519_ok P" "is_key_pair P kp"
  shows "parse_encryption_key P (ek_serialized (kp_encryption_key kp)) = Ok (kp_encryption_key kp)"
  using assms is_key_pairD [OF assms(3)] key_pair_public_length [OF assms(2,3)]
  by (simp add: parse_encryption_key_def ek_from_base64_def from_base64_to_base64 PUBLIC_KEY_BYTES_def)

text \<open>Both ends of two honest key pairs derive the same cipher for one direction.\<close>

lemma peer_cipher_agree:
  assumes "x25519_ok P" "is_key_pair P a" "is_key_pair P b"
  shows "peer_cipher P (kp_decryption_key a) (public_key (kp_encryption_key b)) ki =
         peer_cipher P (kp_decryption_key b) (public_key (kp_encryption_key a)) ki"
  using assms is_key_pairD [OF assms(2)] is_key_pairD [OF assms(3)]
  by (auto simp: peer_cipher_def x25519_ok_def PUBLIC_KEY_BYTES_def Let_def)

definition contributory_pair :: "platform \<Rightarrow> key_pair \<Rightarrow> key_pair \<Rightarrow> bool" where
  "contributory_pair P a b \<longleftrightarrow>
     contributory P (x25519 P (secret_key (kp_decryption_key a)) (public_key (kp_encryption_key b)))"

lemma peer_roundtrip_gen:
  assumes ok: "base64_ok P" "aead_ok (aes256_encrypt P) (aes256_decrypt P)" "x25519_ok P"
    and kp: "is_key_pair P a" "is_key_pair P b" "contributory_pair P a b"
    and m: "length nonce = NONCE_BYTES" "utf8_valid m" "length m \<le> gcm_limit"
    and peer: "peer = None \<or> peer = Some (kp_encryption_key a)"
  obtains ct where "peer_encrypt P nonce (kp_decryption_key a) m (kp_encryption_key b) =
      Ok (to_base64 P (public_key (kp_encryption_key a) @ nonce @ ct))"
    "peer_decrypt P (kp_decryption_key b)
       (to_base64 P (public_key (kp_encryption_key a) @ nonce @ ct)) peer = Ok m"
proof -
  let ?pa = "public_key (kp_encryption_key a)" and ?pb = "public_key (kp_encryption_key b)"
  let ?inf = "KEY_INFO @ ?pa @ ?pb"
  note len = key_pair_public_length [OF ok(3) kp(1)] key_pair_public_length [OF ok(3) kp(2)]
  note pub = is_key_pairD(3) [OF kp(1)] is_key_pairD(3) [OF kp(2)]
  obtain key where key: "peer_cipher P (kp_decryption_key a) ?pb ?inf = Ok key"
    using kp(3) len by (simp add: peer_cipher_def contributory_pair_def PUBLIC_KEY_BYTES_def)
  then have key': "peer_cipher P (kp_decryption_key b) ?pa ?inf = Ok key"
    using peer_cipher_agree [OF ok(3) kp(1,2), of ?inf] by simp
  obtain ct where ct: "aes256_encrypt P key nonce m = Inr ct"
    and dec: "aes256_decrypt P key nonce ct = Inr m" "length ct = length m + 16"
    using ok(2) m(3) by (rule aead_okE)
  let ?c = "to_base64 P (?pa @ nonce @ ct)"
  have "?c \<noteq> []" using ok(1) len by (auto simp: to_base64_Nil_iff)
  moreover have "length (?pa @ nonce @ ct) > PUBLIC_KEY_BYTES + NONCE_BYTES"
    using len m dec by (simp add: PUBLIC_KEY_BYTES_def)
  ultimately have "peer_decrypt P (kp_decryption_key b) ?c peer = Ok m"
    using len m peer key' dec pub
    by (auto simp: peer_decrypt_def from_base64_to_base64 [OF ok(1)] PUBLIC_KEY_BYTES_def from_utf8_def)
  moreover have "peer_encrypt P nonce (kp_decryption_key a) m (kp_encryption_key b) = Ok ?c"
    using key ct pub m(1) by (simp add: peer_encrypt_def Let_def)
  ultimately show ?thesis by (rule that [rotated])
qed

text \<open>
  What decryption with a known peer guarantees: the sender the ciphertext names is that peer.
\<close>

lemma peer_decrypt_sender:
  assumes "peer_decrypt P dk c (Some p) = Ok m"
  obtains b where "from_base64 P c = Ok b" "take PUBLIC_KEY_BYTES b = public_key p"
    "length b > PUBLIC_KEY_BYTES + NONCE_BYTES"
  using assms by (auto simp: peer_decrypt_def Let_def split: if_splits)

section \<open>Hashes\<close>

lemma hash_public_key_form:
  assumes "length (sha256 P (public_key k)) = 32"
  shows "length (hash_public_key P k) = 16" "list_all is_hex_lower (hash_public_key P k)"
proof -
  show "length (hash_public_key P k) = 16"
    using assms by (simp add: hash_public_key_def HASH_LENGTH_def)
  show "list_all is_hex_lower (hash_public_key P k)"
    using hex_bytes_lower by (auto simp: hash_public_key_def list_all_iff dest!: in_set_takeD)
qed

lemma init_hash_own [simp]:
  "init_hash P None k = Ok \<lparr>ih_hash = hash_public_key P k, ih_is_host = True\<rparr>"
  by (simp add: init_hash_def)

lemma init_hash_given [simp]:
  "init_hash P (Some h) k = Ok \<lparr>ih_hash = h, ih_is_host = (h = hash_public_key P k)\<rparr>"
  by (simp add: init_hash_def)

section \<open>Decryption fails with errors, never with a panic\<close>

lemma no_panic_from_base64 [simp]: "no_panic (from_base64 P s)"
  by (simp add: from_base64_def)

lemma no_panic_from_utf8 [simp]: "no_panic (from_utf8 P b)"
  by (simp add: from_utf8_def)

lemma no_panic_peer_cipher [simp]: "no_panic (peer_cipher P dk k ki)"
  by (simp add: peer_cipher_def Let_def)

lemma no_panic_handshake [simp]:
  "no_panic (handshake_encrypt P iv key m)" "no_panic (handshake_decrypt P key m)"
  by (auto simp: handshake_encrypt_def handshake_decrypt_def Let_def intro!: no_panic_rbind)

lemma no_panic_peer [simp]:
  "no_panic (peer_encrypt P nonce dk m k)" "no_panic (peer_decrypt P dk m peer)"
  by (auto simp: peer_encrypt_def peer_decrypt_def Let_def intro!: no_panic_rbind)

lemma no_panic_ek [simp]:
  "no_panic (ek_from_base64 P s)" "no_panic (parse_encryption_key P s)"
  "no_panic (ek_from_ciphertext P s)"
proof -
  show *: "no_panic (ek_from_base64 P s)" for s
    by (auto simp: ek_from_base64_def intro!: no_panic_rbind)
  then show "no_panic (parse_encryption_key P s)" by (simp add: parse_encryption_key_def)
  show "no_panic (ek_from_ciphertext P s)"
    by (auto simp: ek_from_ciphertext_def * intro!: no_panic_rbind)
qed

end
