(* ===== verification/Signaling.thy ===== *)
theory Signaling
  imports Wire Messages Crypto
begin

text \<open>
  The signaling layer (crates/openlv/src/signaling/layer/mod.rs): its state, every operation
  of \<open>SignalingLayer\<close> and \<open>SignalingInner\<close>, and the background tasks they spawn. Timestamps,
  random bytes and the results of the channel are arguments. Broadcast channels are the logs
  of what was sent on them. A spawned task lives in \<open>live_tasks\<close> until it is aborted or
  ends; dropping a join handle leaves its task alive, as tokio does.

  \<open>handle_receive_sync\<close> is the part of \<open>handle_receive\<close> in front of its only await, which
  every branch reaches in tail position; the action it returns says what is left to do.
  \<open>handle_receive\<close> runs that action to its end. The theory Interleaving runs the same parts
  with other work in between.
\<close>

section \<open>State\<close>

datatype signal_state =
    S_Standby | S_Connecting | S_Ready | S_Handshake | S_HandshakePartial | S_Encrypted | S_Error

record signaling_properties =
  sp_is_host :: bool
  sp_h :: string
  sp_handshake_key :: "handshake_key option"
  sp_encryption_key :: encryption_key
  sp_decryption_key :: decryption_key
  sp_capabilities :: peer_capabilities

datatype task = Resend wire_prefix wire_recipient signaling_message | Deadline

record layer =
  channel_type :: string
  props :: signaling_properties
  sl_state :: signal_state
  relying_key :: "encryption_key option"
  peer_caps :: "peer_capabilities option"
  outbox :: "string list"
  state_tx :: "signal_state list"
  message_tx :: "json list"
  handshake_task :: "nat option"
  deadline_task :: "nat option"
  live_tasks :: "nat \<rightharpoonup> task"
  next_task :: nat

datatype action =
    Return "unit res"
  | Send_repeating wire_prefix wire_recipient signaling_message
  | Send_message wire_prefix wire_recipient signaling_message

section \<open>Operations\<close>

definition new_layer :: "string \<Rightarrow> signaling_properties \<Rightarrow> layer" where
  "new_layer ct p =
     \<lparr>channel_type = ct, props = p, sl_state = S_Standby, relying_key = None, peer_caps = None,
      outbox = [], state_tx = [], message_tx = [], handshake_task = None, deadline_task = None,
      live_tasks = Map.empty, next_task = 0\<rparr>"

text \<open>\<open>tokio::spawn\<close> and \<open>JoinHandle::abort\<close>.\<close>

definition spawn_task :: "task \<Rightarrow> layer \<Rightarrow> nat \<times> layer" where
  "spawn_task t L =
     (next_task L, L\<lparr>live_tasks := (live_tasks L)(next_task L \<mapsto> t), next_task := Suc (next_task L)\<rparr>)"

definition abort_task :: "nat \<Rightarrow> layer \<Rightarrow> layer" where
  "abort_task i L = L\<lparr>live_tasks := (live_tasks L)(i := None)\<rparr>"

definition stop_repeating :: "layer \<Rightarrow> layer" where
  "stop_repeating L =
     (case handshake_task L of
        Some i \<Rightarrow> abort_task i (L\<lparr>handshake_task := None\<rparr>)
      | None \<Rightarrow> L)"

definition stop_handshake_tasks :: "layer \<Rightarrow> layer" where
  "stop_handshake_tasks L =
     (let L1 = stop_repeating L in
      case deadline_task L1 of
        Some i \<Rightarrow> abort_task i (L1\<lparr>deadline_task := None\<rparr>)
      | None \<Rightarrow> L1)"

definition set_state :: "signal_state \<Rightarrow> layer \<Rightarrow> layer" where
  "set_state new_state L =
     (let L1 = L\<lparr>sl_state := new_state\<rparr>;
          L2 = (if new_state = S_Encrypted \<or> new_state = S_Error then stop_handshake_tasks L1 else L1)
      in L2\<lparr>state_tx := state_tx L2 @ [new_state]\<rparr>)"

definition can_encrypt :: "layer \<Rightarrow> bool" where
  "can_encrypt L \<longleftrightarrow> relying_key L \<noteq> None"

definition remote_recipient :: "layer \<Rightarrow> wire_recipient" where
  "remote_recipient L = (if sp_is_host (props L) then Client else Host)"

definition pubkey_message :: "u64 \<Rightarrow> layer \<Rightarrow> signaling_message" where
  "pubkey_message now L = Pubkey \<lparr>public_key_text = ek_serialized (sp_encryption_key (props L))\<rparr> now"

definition capabilities_message :: "u64 \<Rightarrow> layer \<Rightarrow> signaling_message" where
  "capabilities_message now L = Capabilities (sp_capabilities (props L)) now"

definition start_handshake_deadline :: "layer \<Rightarrow> layer" where
  "start_handshake_deadline L =
     (if deadline_task L \<noteq> None then L
      else let (i, L1) = spawn_task Deadline L in L1\<lparr>deadline_task := Some i\<rparr>)"

text \<open>What the deadline task does when its 30 seconds are over; then it ends.\<close>

definition deadline_expired :: "nat \<Rightarrow> layer \<Rightarrow> layer" where
  "deadline_expired i L =
     abort_task i (if sl_state L \<noteq> S_Encrypted then set_state S_Error L else L)"

definition message_frame ::
  "platform \<Rightarrow> bytes \<Rightarrow> layer \<Rightarrow> wire_prefix \<Rightarrow> wire_recipient \<Rightarrow> signaling_message \<Rightarrow> string res" where
  "message_frame P rnd L p r m =
     (let plaintext = json_print P (signaling_message_to_value m) in
      rbind
        (case p of
           Handshake \<Rightarrow>
             rbind (ok_or (Err (Signaling ''handshake key is required'')) (sp_handshake_key (props L)))
               (\<lambda>k. handshake_encrypt P rnd k plaintext)
         | Encrypted \<Rightarrow>
             rbind (ok_or (Err (Signaling ''relying party public key not found'')) (relying_key L))
               (\<lambda>k. peer_encrypt P rnd (sp_decryption_key (props L)) plaintext k))
        (\<lambda>ct. Ok (compose_frame p r ct)))"

text \<open>\<open>send_message\<close>: encrypt, then publish; \<open>pub\<close> is what the channel answers to a frame.\<close>

definition send_message ::
  "platform \<Rightarrow> bytes \<Rightarrow> (string \<Rightarrow> unit res) \<Rightarrow> layer \<Rightarrow> wire_prefix \<Rightarrow> wire_recipient
    \<Rightarrow> signaling_message \<Rightarrow> unit res \<times> layer" where
  "send_message P rnd pub L p r m =
     (case message_frame P rnd L p r m of
        Inl e \<Rightarrow> (Inl e, L)
      | Inr frame \<Rightarrow> (pub frame, L\<lparr>outbox := outbox L @ [frame]\<rparr>))"

definition start_repeating :: "wire_prefix \<Rightarrow> wire_recipient \<Rightarrow> signaling_message \<Rightarrow> layer \<Rightarrow> layer" where
  "start_repeating p r m L =
     (let (i, L1) = spawn_task (Resend p r m) L in L1\<lparr>handshake_task := Some i\<rparr>)"

definition send_repeating ::
  "platform \<Rightarrow> bytes \<Rightarrow> (string \<Rightarrow> unit res) \<Rightarrow> layer \<Rightarrow> wire_prefix \<Rightarrow> wire_recipient
    \<Rightarrow> signaling_message \<Rightarrow> unit res \<times> layer" where
  "send_repeating P rnd pub L p r m =
     (case send_message P rnd pub (stop_repeating L) p r m of
        (Inl e, L1) \<Rightarrow> (Inl e, L1)
      | (Inr _, L1) \<Rightarrow> (Ok (), start_repeating p r m L1))"

text \<open>One turn of the loop a repeating task runs; its result is only logged.\<close>

definition resend :: "platform \<Rightarrow> bytes \<Rightarrow> (string \<Rightarrow> unit res) \<Rightarrow> nat \<Rightarrow> layer \<Rightarrow> layer" where
  "resend P rnd pub i L =
     (case live_tasks L i of
        Some (Resend p r m) \<Rightarrow> snd (send_message P rnd pub L p r m)
      | _ \<Rightarrow> L)"

definition store_relying_key :: "encryption_key \<Rightarrow> layer \<Rightarrow> bool \<times> layer" where
  "store_relying_key k L =
     (if relying_key L \<noteq> None then (False, L) else (True, L\<lparr>relying_key := Some k\<rparr>))"

definition store_peer_capabilities :: "peer_capabilities \<Rightarrow> layer \<Rightarrow> layer" where
  "store_peer_capabilities c L =
     (if peer_caps L = None then L\<lparr>peer_caps := Some c\<rparr> else L)"

text \<open>The milliseconds since the epoch, cut to 64 bits; 0 when the clock is before it.\<close>

definition current_timestamp :: "nat option \<Rightarrow> u64" where
  "current_timestamp since_epoch = (case since_epoch of Some ms \<Rightarrow> of_nat ms | None \<Rightarrow> 0)"

section \<open>Receiving\<close>

definition decrypt_frame :: "platform \<Rightarrow> layer \<Rightarrow> wire_frame \<Rightarrow> string res" where
  "decrypt_frame P L frame =
     (case prefix frame of
        Handshake \<Rightarrow>
          rbind (ok_or (Err (Signaling ''handshake key is required'')) (sp_handshake_key (props L)))
            (\<lambda>k. handshake_decrypt P k (ciphertext frame))
      | Encrypted \<Rightarrow>
          peer_decrypt P (sp_decryption_key (props L)) (ciphertext frame) (relying_key L))"

definition message_from_str :: "platform \<Rightarrow> string \<Rightarrow> signaling_message res" where
  "message_from_str P s =
     rbind (map_err (\<lambda>e. Err (Other e)) (json_parse P s)) (\<lambda>v.
       ok_or (Err (Other (json_error P v))) (signaling_message_from_value v))"

text \<open>Host receives the client's flash and replies with its public key.\<close>

definition on_flash :: "u64 \<Rightarrow> layer \<Rightarrow> layer \<times> action" where
  "on_flash now L =
     (let L1 = start_handshake_deadline (set_state S_Handshake L)
      in (L1, Send_repeating Handshake Client (pubkey_message now L1)))"

text \<open>Client checks the host's public key against \<open>h\<close> and replies with its own.\<close>

definition on_host_pubkey :: "platform \<Rightarrow> u64 \<Rightarrow> layer \<Rightarrow> pubkey_payload \<Rightarrow> layer \<times> action" where
  "on_host_pubkey P now L payload =
     (case parse_encryption_key P (public_key_text payload) of
        Inl e \<Rightarrow> (L, Return (Inl e))
      | Inr received_key \<Rightarrow>
        (case validate_public_key_hash P received_key (sp_h (props L)) of
           Inl e \<Rightarrow> (L, Return (Inl e))
         | Inr False \<Rightarrow> (set_state S_Error L, Return (Ok ()))
         | Inr True \<Rightarrow>
           (let (stored, L1) = store_relying_key received_key L in
            if \<not> stored then (L1, Return (Ok ()))
            else let L2 = set_state S_HandshakePartial L1
                 in (L2, Send_repeating Encrypted Host (pubkey_message now L2)))))"

text \<open>Host records the client's public key and answers with its capabilities.\<close>

definition on_client_pubkey ::
  "platform \<Rightarrow> u64 \<Rightarrow> layer \<Rightarrow> wire_frame \<Rightarrow> pubkey_payload \<Rightarrow> layer \<times> action" where
  "on_client_pubkey P now L frame payload =
     (case parse_encryption_key P (public_key_text payload) of
        Inl e \<Rightarrow> (L, Return (Inl e))
      | Inr received_key \<Rightarrow>
        (case ek_from_ciphertext P (ciphertext frame) of
           Inl e \<Rightarrow> (L, Return (Inl e))
         | Inr sender \<Rightarrow>
           if public_key sender \<noteq> public_key received_key then (L, Return (Ok ()))
           else let (stored, L1) = store_relying_key received_key L in
             if \<not> stored then (L1, Return (Ok ()))
             else let L2 = set_state S_HandshakePartial L1
                  in (L2, Send_repeating Encrypted Client (capabilities_message now L2))))"

text \<open>Both sides are done at the peer's capabilities; the client echoes its own.\<close>

definition on_capabilities :: "u64 \<Rightarrow> layer \<Rightarrow> peer_capabilities \<Rightarrow> layer \<times> action" where
  "on_capabilities now L payload =
     (let L1 = set_state S_Encrypted (store_peer_capabilities payload L) in
      if \<not> sp_is_host (props L1)
      then (L1, Send_message Encrypted Host (capabilities_message now L1))
      else (L1, Return (Ok ())))"

definition dispatch ::
  "platform \<Rightarrow> u64 \<Rightarrow> layer \<Rightarrow> wire_frame \<Rightarrow> signaling_message \<Rightarrow> layer \<times> action" where
  "dispatch P now L frame message =
     (case (prefix frame, message, sl_state L, sp_is_host (props L)) of
        (Handshake, Flash _ _, S_Ready, True) \<Rightarrow> on_flash now L
      | (Handshake, Pubkey payload _, S_Handshake, False) \<Rightarrow> on_host_pubkey P now L payload
      | (Encrypted, Pubkey payload _, S_Handshake, True) \<Rightarrow> on_client_pubkey P now L frame payload
      | (Encrypted, Capabilities payload _, S_HandshakePartial, _) \<Rightarrow> on_capabilities now L payload
      | (Encrypted, Capabilities _ _, S_Encrypted, False) \<Rightarrow>
          (L, Send_message Encrypted Host (capabilities_message now L))
      | (Encrypted, Data payload _, S_Encrypted, _) \<Rightarrow>
          (L\<lparr>message_tx := message_tx L @ [payload]\<rparr>, Return (Ok ()))
      | _ \<Rightarrow> (L, Return (Ok ())))"

definition handle_receive_sync :: "platform \<Rightarrow> u64 \<Rightarrow> layer \<Rightarrow> string \<Rightarrow> layer \<times> action" where
  "handle_receive_sync P now L payload =
     (case parse_frame payload of
        Inl e \<Rightarrow> (L, Return (Inl e))
      | Inr frame \<Rightarrow>
        if \<not> is_recipient frame (sp_is_host (props L)) then (L, Return (Ok ()))
        else (case rbind (decrypt_frame P L frame) (message_from_str P) of
                Inl e \<Rightarrow> (L, Return (Inl e))
              | Inr message \<Rightarrow>
                (case validate_message message of
                   Inl _ \<Rightarrow> (L, Return (Ok ()))
                 | Inr _ \<Rightarrow> dispatch P now L frame message)))"

definition run_action ::
  "platform \<Rightarrow> bytes \<Rightarrow> (string \<Rightarrow> unit res) \<Rightarrow> layer \<times> action \<Rightarrow> unit res \<times> layer" where
  "run_action P rnd pub La =
     (case snd La of
        Return r \<Rightarrow> (r, fst La)
      | Send_repeating p r m \<Rightarrow> send_repeating P rnd pub (fst La) p r m
      | Send_message p r m \<Rightarrow> send_message P rnd pub (fst La) p r m)"

definition handle_receive ::
  "platform \<Rightarrow> u64 \<Rightarrow> bytes \<Rightarrow> (string \<Rightarrow> unit res) \<Rightarrow> layer \<Rightarrow> string \<Rightarrow> unit res \<times> layer" where
  "handle_receive P now rnd pub L payload =
     run_action P rnd pub (handle_receive_sync P now L payload)"

section \<open>The public operations\<close>

definition flash_message :: "u64 \<Rightarrow> signaling_message" where
  "flash_message now = Flash (obj []) now"

text \<open>\<open>setup\<close>; \<open>ch_setup\<close> and \<open>ch_subscribe\<close> are the answers of the channel's two calls.\<close>

definition setup_tail :: "u64 \<Rightarrow> layer \<Rightarrow> layer \<times> action" where
  "setup_tail now L =
     (if can_encrypt L then (set_state S_Encrypted L, Return (Ok ()))
      else if sp_is_host (props L) then (set_state S_Ready L, Return (Ok ()))
      else
        let L1 = start_handshake_deadline (set_state S_Handshake (set_state S_Ready L))
        in (L1, Send_repeating Handshake Host (flash_message now)))"

definition layer_setup ::
  "platform \<Rightarrow> u64 \<Rightarrow> bytes \<Rightarrow> (string \<Rightarrow> unit res) \<Rightarrow> unit res \<Rightarrow> unit res \<Rightarrow> layer \<Rightarrow> unit res \<times> layer" where
  "layer_setup P now rnd pub ch_setup ch_subscribe L =
     (let L1 = set_state S_Connecting L in
      case rbind ch_setup (\<lambda>_. ch_subscribe) of
        Inl e \<Rightarrow> (Inl e, L1)
      | Inr _ \<Rightarrow> run_action P rnd pub (setup_tail now L1))"

definition layer_teardown :: "unit res \<Rightarrow> layer \<Rightarrow> unit res \<times> layer" where
  "layer_teardown ch_teardown L = (ch_teardown, stop_handshake_tasks L)"

definition layer_send ::
  "platform \<Rightarrow> u64 \<Rightarrow> bytes \<Rightarrow> (string \<Rightarrow> unit res) \<Rightarrow> layer \<Rightarrow> json \<Rightarrow> unit res \<times> layer" where
  "layer_send P now rnd pub L message =
     (if \<not> can_encrypt L
        then (Fail (Signaling ''cannot encrypt message before keys are exchanged''), L)
      else send_message P rnd pub L Encrypted (remote_recipient L) (Data message now))"

section \<open>What the operations change\<close>

lemma stop_repeating_frame [simp]:
  "props (stop_repeating L) = props L" "sl_state (stop_repeating L) = sl_state L"
  "relying_key (stop_repeating L) = relying_key L" "peer_caps (stop_repeating L) = peer_caps L"
  "message_tx (stop_repeating L) = message_tx L" "outbox (stop_repeating L) = outbox L"
  "handshake_task (stop_repeating L) = None" "deadline_task (stop_repeating L) = deadline_task L"
  "next_task (stop_repeating L) = next_task L"
  by (simp_all add: stop_repeating_def abort_task_def split: option.splits)

lemma stop_handshake_tasks_frame [simp]:
  "props (stop_handshake_tasks L) = props L" "sl_state (stop_handshake_tasks L) = sl_state L"
  "relying_key (stop_handshake_tasks L) = relying_key L"
  "peer_caps (stop_handshake_tasks L) = peer_caps L"
  "message_tx (stop_handshake_tasks L) = message_tx L" "outbox (stop_handshake_tasks L) = outbox L"
  "handshake_task (stop_handshake_tasks L) = None" "deadline_task (stop_handshake_tasks L) = None"
  by (simp_all add: stop_handshake_tasks_def abort_task_def Let_def split: option.splits)

lemma set_state_frame [simp]:
  "props (set_state s L) = props L" "sl_state (set_state s L) = s"
  "relying_key (set_state s L) = relying_key L" "peer_caps (set_state s L) = peer_caps L"
  "message_tx (set_state s L) = message_tx L" "outbox (set_state s L) = outbox L"
  by (simp_all add: set_state_def Let_def)

lemma start_handshake_deadline_frame [simp]:
  "props (start_handshake_deadline L) = props L" "sl_state (start_handshake_deadline L) = sl_state L"
  "relying_key (start_handshake_deadline L) = relying_key L"
  "peer_caps (start_handshake_deadline L) = peer_caps L"
  "message_tx (start_handshake_deadline L) = message_tx L"
  "outbox (start_handshake_deadline L) = outbox L"
  by (simp_all add: start_handshake_deadline_def spawn_task_def)

lemma start_repeating_frame [simp]:
  "props (start_repeating p r m L) = props L" "sl_state (start_repeating p r m L) = sl_state L"
  "relying_key (start_repeating p r m L) = relying_key L"
  "peer_caps (start_repeating p r m L) = peer_caps L"
  "message_tx (start_repeating p r m L) = message_tx L"
  "outbox (start_repeating p r m L) = outbox L"
  by (simp_all add: start_repeating_def spawn_task_def)

lemma store_peer_capabilities_frame [simp]:
  "props (store_peer_capabilities c L) = props L"
  "sl_state (store_peer_capabilities c L) = sl_state L"
  "relying_key (store_peer_capabilities c L) = relying_key L"
  "message_tx (store_peer_capabilities c L) = message_tx L"
  "outbox (store_peer_capabilities c L) = outbox L"
  "peer_caps (store_peer_capabilities c L) = (if peer_caps L = None then Some c else peer_caps L)"
  by (simp_all add: store_peer_capabilities_def)

text \<open>Sending touches the outbox and the task fields only.\<close>

lemma send_message_result: "\<exists>fs. snd (send_message P rnd pub L p r m) = L\<lparr>outbox := outbox L @ fs\<rparr>"
proof (cases "message_frame P rnd L p r m")
  case (Inl e)
  then have "snd (send_message P rnd pub L p r m) = L\<lparr>outbox := outbox L @ []\<rparr>"
    by (simp add: send_message_def)
  then show ?thesis by (rule exI)
next
  case (Inr f)
  then show ?thesis by (auto simp: send_message_def)
qed

lemma send_message_frame [simp]:
  "props (snd (send_message P rnd pub L p r m)) = props L"
  "sl_state (snd (send_message P rnd pub L p r m)) = sl_state L"
  "relying_key (snd (send_message P rnd pub L p r m)) = relying_key L"
  "peer_caps (snd (send_message P rnd pub L p r m)) = peer_caps L"
  "message_tx (snd (send_message P rnd pub L p r m)) = message_tx L"
  using send_message_result [of P rnd pub L p r m] by auto

lemma send_repeating_cases:
  obtains (failed) fs where "snd (send_repeating P rnd pub L p r m) = (stop_repeating L)\<lparr>outbox := fs\<rparr>"
  | (started) fs where "snd (send_repeating P rnd pub L p r m) =
      start_repeating p r m ((stop_repeating L)\<lparr>outbox := fs\<rparr>)"
proof -
  obtain r' L' where sm: "send_message P rnd pub (stop_repeating L) p r m = (r', L')"
    by (cases "send_message P rnd pub (stop_repeating L) p r m")
  then obtain fs where L': "L' = (stop_repeating L)\<lparr>outbox := fs\<rparr>"
    using send_message_result [of P rnd pub "stop_repeating L" p r m] by auto
  show ?thesis
  proof (cases r')
    case (Inl e)
    then show ?thesis using sm L' by (intro failed) (simp add: send_repeating_def)
  next
    case (Inr u)
    then show ?thesis using sm L' by (intro started) (simp add: send_repeating_def)
  qed
qed

lemma send_repeating_frame [simp]:
  "props (snd (send_repeating P rnd pub L p r m)) = props L"
  "sl_state (snd (send_repeating P rnd pub L p r m)) = sl_state L"
  "relying_key (snd (send_repeating P rnd pub L p r m)) = relying_key L"
  "peer_caps (snd (send_repeating P rnd pub L p r m)) = peer_caps L"
  "message_tx (snd (send_repeating P rnd pub L p r m)) = message_tx L"
  by (cases rule: send_repeating_cases [of P rnd pub L p r m]; simp)+

lemma run_action_frame [simp]:
  "props (snd (run_action P rnd pub La)) = props (fst La)"
  "sl_state (snd (run_action P rnd pub La)) = sl_state (fst La)"
  "relying_key (snd (run_action P rnd pub La)) = relying_key (fst La)"
  "peer_caps (snd (run_action P rnd pub La)) = peer_caps (fst La)"
  "message_tx (snd (run_action P rnd pub La)) = message_tx (fst La)"
  by (simp_all add: run_action_def split: action.splits)

text \<open>The branches of the match in \<open>handle_receive\<close>.\<close>

lemma dispatch_cases:
  obtains (flash) "prefix frame = Handshake" "sl_state L = S_Ready" "sp_is_host (props L)"
      "dispatch P now L frame message = on_flash now L"
  | (host_pubkey) payload t where "prefix frame = Handshake" "message = Pubkey payload t"
      "sl_state L = S_Handshake" "\<not> sp_is_host (props L)"
      "dispatch P now L frame message = on_host_pubkey P now L payload"
  | (client_pubkey) payload t where "prefix frame = Encrypted" "message = Pubkey payload t"
      "sl_state L = S_Handshake" "sp_is_host (props L)"
      "dispatch P now L frame message = on_client_pubkey P now L frame payload"
  | (capabilities) payload t where "prefix frame = Encrypted" "message = Capabilities payload t"
      "sl_state L = S_HandshakePartial"
      "dispatch P now L frame message = on_capabilities now L payload"
  | (retried) payload t where "prefix frame = Encrypted" "message = Capabilities payload t"
      "sl_state L = S_Encrypted" "\<not> sp_is_host (props L)"
      "dispatch P now L frame message = (L, Send_message Encrypted Host (capabilities_message now L))"
  | (data) payload t where "prefix frame = Encrypted" "message = Data payload t"
      "sl_state L = S_Encrypted"
      "dispatch P now L frame message = (L\<lparr>message_tx := message_tx L @ [payload]\<rparr>, Return (Ok ()))"
  | (ignored) "dispatch P now L frame message = (L, Return (Ok ()))"
proof (cases "prefix frame")
  case Handshake
  note pre = this
  show ?thesis
  proof (cases message)
    case (Flash v t)
    with pre show ?thesis
      by (cases "sl_state L = S_Ready \<and> sp_is_host (props L)")
         (auto intro: flash ignored simp: dispatch_def split: signal_state.splits bool.splits)
  next
    case (Pubkey p t)
    with pre show ?thesis
      by (cases "sl_state L = S_Handshake \<and> \<not> sp_is_host (props L)")
         (auto intro: host_pubkey ignored simp: dispatch_def split: signal_state.splits bool.splits)
  qed (use pre in \<open>simp_all add: dispatch_def ignored\<close>)
next
  case Encrypted
  note pre = this
  show ?thesis
  proof (cases message)
    case (Pubkey p t)
    with pre show ?thesis
      by (cases "sl_state L = S_Handshake \<and> sp_is_host (props L)")
         (auto intro: client_pubkey ignored simp: dispatch_def split: signal_state.splits bool.splits)
  next
    case (Capabilities c t)
    with pre show ?thesis
      by (cases "sl_state L"; cases "sp_is_host (props L)")
         (auto intro: capabilities retried ignored simp: dispatch_def)
  next
    case (Data v t)
    with pre show ?thesis
      by (cases "sl_state L = S_Encrypted")
         (auto intro: data ignored simp: dispatch_def split: signal_state.splits)
  qed (use pre in \<open>simp_all add: dispatch_def ignored\<close>)
qed

text \<open>
  A received payload either leaves the layer as it was, or it was a frame for this role that
  decrypted to a valid message.
\<close>

lemma handle_receive_sync_cases:
  obtains (dropped) r where "handle_receive_sync P now L payload = (L, Return r)"
  | (accepted) frame plain message where "parse_frame payload = Ok frame"
      "is_recipient frame (sp_is_host (props L))" "decrypt_frame P L frame = Ok plain"
      "message_from_str P plain = Ok message" "validate_message message = Inr ()"
      "handle_receive_sync P now L payload = dispatch P now L frame message"
proof (cases "parse_frame payload")
  case (Inl e)
  then show ?thesis by (intro dropped) (simp add: handle_receive_sync_def)
next
  case (Inr frame)
  show ?thesis
  proof (cases "rbind (decrypt_frame P L frame) (message_from_str P)")
    case (Inl e)
    with Inr show ?thesis
      by (cases "is_recipient frame (sp_is_host (props L))")
         (intro dropped, simp add: handle_receive_sync_def)+
  next
    case msg: (Inr message)
    then obtain plain where "decrypt_frame P L frame = Ok plain" "message_from_str P plain = Ok message"
      by auto
    with Inr msg show ?thesis
      by (cases "validate_message message"; cases "is_recipient frame (sp_is_host (props L))")
         (use dropped accepted in \<open>auto simp: handle_receive_sync_def\<close>)
  qed
qed

section \<open>The layer as a state machine\<close>

text \<open>
  Everything that can happen to a layer, one operation at a time: the session sets it up
  once, the channel delivers any payload, background tasks run, the session sends and tears
  down. Timestamps, random bytes and the answers of the channel are arbitrary.
\<close>

inductive layer_step :: "platform \<Rightarrow> layer \<Rightarrow> layer \<Rightarrow> bool" for P :: platform where
  step_setup: "sl_state L = S_Standby \<Longrightarrow>
    layer_step P L (snd (layer_setup P now rnd pub ch_setup ch_subscribe L))"
| step_receive: "layer_step P L (snd (handle_receive P now rnd pub L payload))"
| step_resend: "layer_step P L (resend P rnd pub i L)"
| step_deadline: "live_tasks L i = Some Deadline \<Longrightarrow> layer_step P L (deadline_expired i L)"
| step_send: "layer_step P L (snd (layer_send P now rnd pub L message))"
| step_teardown: "layer_step P L (snd (layer_teardown ch_teardown L))"

abbreviation fresh_layer :: "layer \<Rightarrow> bool" where
  "fresh_layer L \<equiv> \<exists>ct p. L = new_layer ct p"

subsection \<open>Invariants\<close>

text \<open>
  Tasks: a live task is the one its handle field holds, so that stopping the handles stops
  the tasks; and once the handshake is over, well or badly, no task is left.
\<close>

definition task_inv :: "layer \<Rightarrow> bool" where
  "task_inv L \<longleftrightarrow>
     (\<forall>i p r m. live_tasks L i = Some (Resend p r m) \<longrightarrow> handshake_task L = Some i) \<and>
     (\<forall>i. live_tasks L i = Some Deadline \<longrightarrow> deadline_task L = Some i) \<and>
     (\<forall>i. handshake_task L = Some i \<or> deadline_task L = Some i \<longrightarrow> i < next_task L)"

definition quiet_inv :: "layer \<Rightarrow> bool" where
  "quiet_inv L \<longleftrightarrow>
     (sl_state L = S_Encrypted \<or> sl_state L = S_Error \<longrightarrow> live_tasks L = Map.empty)"

text \<open>
  Keys: the peer's key is known exactly from the partial handshake on, the peer's
  capabilities exactly from the end of the handshake on, a client only ever holds a key
  with the hash it was given, and the capabilities are within their bounds.
\<close>

definition key_inv :: "platform \<Rightarrow> layer \<Rightarrow> bool" where
  "key_inv P L \<longleftrightarrow>
     (sl_state L \<in> {S_HandshakePartial, S_Encrypted} \<longrightarrow> relying_key L \<noteq> None) \<and>
     (relying_key L \<noteq> None \<longrightarrow> sl_state L \<in> {S_HandshakePartial, S_Encrypted, S_Error}) \<and>
     (sl_state L = S_Encrypted \<longrightarrow> peer_caps L \<noteq> None) \<and>
     (\<forall>k. relying_key L = Some k \<longrightarrow> \<not> sp_is_host (props L) \<longrightarrow>
        hash_public_key P k = sp_h (props L)) \<and>
     (\<forall>c. peer_caps L = Some c \<longrightarrow> validate_capabilities c = Inr ())"

definition layer_inv :: "platform \<Rightarrow> layer \<Rightarrow> bool" where
  "layer_inv P L \<longleftrightarrow> task_inv L \<and> quiet_inv L \<and> key_inv P L"

text \<open>The key invariant reads fields that tasks and sends do not touch.\<close>

lemma key_inv_cong:
  assumes "props L' = props L" "sl_state L' = sl_state L" "relying_key L' = relying_key L"
    "peer_caps L' = peer_caps L"
  shows "key_inv P L' = key_inv P L"
  using assms by (simp add: key_inv_def)

lemma task_inv_stop_repeating:
  assumes "task_inv L"
  shows "task_inv (stop_repeating L) \<and> (\<forall>i p r m. live_tasks (stop_repeating L) i \<noteq> Some (Resend p r m))"
proof (cases "handshake_task L")
  case None
  with assms show ?thesis by (auto simp: task_inv_def stop_repeating_def)
next
  case (Some j)
  have none: "live_tasks (stop_repeating L) i \<noteq> Some (Resend p r m)" for i p r m
  proof (cases "i = j")
    case False
    with assms Some have "live_tasks L i \<noteq> Some (Resend p r m)"
      by (metis task_inv_def option.inject)
    with False Some show ?thesis by (simp add: stop_repeating_def abort_task_def)
  qed (simp add: Some stop_repeating_def abort_task_def)
  moreover have "live_tasks (stop_repeating L) i = Some Deadline \<Longrightarrow> live_tasks L i = Some Deadline" for i
    by (simp add: Some stop_repeating_def abort_task_def split: if_splits)
  ultimately show ?thesis using assms by (auto simp: task_inv_def)
qed

lemma task_inv_stop_handshake_tasks:
  assumes "task_inv L"
  shows "task_inv (stop_handshake_tasks L) \<and> live_tasks (stop_handshake_tasks L) = Map.empty"
proof -
  let ?L = "stop_repeating L"
  from assms have inv: "task_inv ?L" "\<And>i p r m. live_tasks ?L i \<noteq> Some (Resend p r m)"
    by (simp_all add: task_inv_stop_repeating)
  have dl: "live_tasks ?L i = None \<or> live_tasks ?L i = Some Deadline" for i
    using inv(2) by (cases "live_tasks ?L i"; cases "the (live_tasks ?L i)") auto
  have dt: "live_tasks ?L i = Some Deadline \<Longrightarrow> deadline_task ?L = Some i" for i
    using inv(1) by (simp add: task_inv_def)
  have "live_tasks (stop_handshake_tasks L) i = None" for i
    using dl [of i] dt [of i]
    by (cases "deadline_task L") (auto simp: stop_handshake_tasks_def abort_task_def Let_def)
  then show ?thesis by (auto simp: task_inv_def)
qed

lemma task_inv_set_state: "task_inv L \<Longrightarrow> task_inv (set_state s L)"
proof -
  assume "task_inv L"
  then have "task_inv (L\<lparr>sl_state := s\<rparr>)" by (simp add: task_inv_def)
  then show ?thesis
    using task_inv_stop_handshake_tasks [of "L\<lparr>sl_state := s\<rparr>"]
    by (simp add: set_state_def Let_def task_inv_def)
qed

lemma quiet_inv_set_state: "task_inv L \<Longrightarrow> quiet_inv (set_state s L)"
  using task_inv_stop_handshake_tasks [of "L\<lparr>sl_state := s\<rparr>"]
  by (auto simp: quiet_inv_def set_state_def Let_def task_inv_def)

lemma task_inv_start_handshake_deadline: "task_inv L \<Longrightarrow> task_inv (start_handshake_deadline L)"
  by (fastforce simp: task_inv_def start_handshake_deadline_def spawn_task_def split: if_splits)

lemma task_inv_start_repeating:
  assumes "task_inv L" "\<And>i p r m. live_tasks L i \<noteq> Some (Resend p r m)"
  shows "task_inv (start_repeating p r m L)"
  using assms by (fastforce simp: task_inv_def start_repeating_def spawn_task_def split: if_splits)

lemma task_inv_send_repeating: "task_inv L \<Longrightarrow> task_inv (snd (send_repeating P rnd pub L p r m))"
proof (cases rule: send_repeating_cases [of P rnd pub L p r m])
  case (started fs)
  assume "task_inv L"
  then have "task_inv ((stop_repeating L)\<lparr>outbox := fs\<rparr>)"
      "\<And>i p r m. live_tasks ((stop_repeating L)\<lparr>outbox := fs\<rparr>) i \<noteq> Some (Resend p r m)"
    using task_inv_stop_repeating [of L] by (auto simp: task_inv_def)
  then show ?thesis unfolding started by (rule task_inv_start_repeating)
qed (use task_inv_stop_repeating [of L] in \<open>auto simp: task_inv_def\<close>)

lemma task_inv_send_message: "task_inv L \<Longrightarrow> task_inv (snd (send_message P rnd pub L p r m))"
  using send_message_result [of P rnd pub L p r m] by (auto simp: task_inv_def)

lemma quiet_inv_send_message: "quiet_inv L \<Longrightarrow> quiet_inv (snd (send_message P rnd pub L p r m))"
  using send_message_result [of P rnd pub L p r m] by (auto simp: quiet_inv_def)

lemma quiet_inv_busy: "sl_state L \<noteq> S_Encrypted \<Longrightarrow> sl_state L \<noteq> S_Error \<Longrightarrow> quiet_inv L"
  by (simp add: quiet_inv_def)

lemma key_inv_Error: "key_inv P L \<Longrightarrow> key_inv P (set_state S_Error L)"
  by (auto simp: key_inv_def)

lemma layer_inv_Error: "layer_inv P L \<Longrightarrow> layer_inv P (set_state S_Error L)"
  by (simp add: layer_inv_def key_inv_Error task_inv_set_state quiet_inv_set_state)

lemma layer_inv_send_message:
  assumes "layer_inv P L"
  shows "layer_inv P (snd (send_message P' rnd pub L p r m))"
  using assms key_inv_cong [of "snd (send_message P' rnd pub L p r m)" L P]
  by (simp add: layer_inv_def task_inv_send_message quiet_inv_send_message)

lemma layer_inv_send_repeating:
  assumes "layer_inv P L" "sl_state L \<noteq> S_Encrypted" "sl_state L \<noteq> S_Error"
  shows "layer_inv P (snd (send_repeating P' rnd pub L p r m))"
  using assms key_inv_cong [of "snd (send_repeating P' rnd pub L p r m)" L P]
  by (simp add: layer_inv_def task_inv_send_repeating quiet_inv_busy)

text \<open>
  A handler leaves the invariant, and asks for a repeated send only while the handshake
  goes on.
\<close>

definition action_ok :: "platform \<Rightarrow> layer \<times> action \<Rightarrow> bool" where
  "action_ok P La \<longleftrightarrow> layer_inv P (fst La) \<and>
     (case snd La of
        Send_repeating _ _ _ \<Rightarrow> sl_state (fst La) \<noteq> S_Encrypted \<and> sl_state (fst La) \<noteq> S_Error
      | _ \<Rightarrow> True)"

lemma action_ok_simps [simp]:
  "action_ok P (L, Return r) \<longleftrightarrow> layer_inv P L"
  "action_ok P (L, Send_message p rc m) \<longleftrightarrow> layer_inv P L"
  "action_ok P (L, Send_repeating p rc m) \<longleftrightarrow>
     layer_inv P L \<and> sl_state L \<noteq> S_Encrypted \<and> sl_state L \<noteq> S_Error"
  by (simp_all add: action_ok_def)

lemma run_action_inv: "action_ok P La \<Longrightarrow> layer_inv P (snd (run_action P' rnd pub La))"
  by (cases La; cases "snd La")
     (simp_all add: run_action_def layer_inv_send_message layer_inv_send_repeating)

lemma on_flash_ok:
  assumes "layer_inv P L" "sl_state L = S_Ready"
  shows "action_ok P (on_flash now L)"
proof -
  let ?L = "start_handshake_deadline (set_state S_Handshake L)"
  from assms have "key_inv P ?L" by (auto simp: layer_inv_def key_inv_def)
  moreover from assms have "task_inv ?L"
    by (simp add: layer_inv_def task_inv_set_state task_inv_start_handshake_deadline)
  ultimately show ?thesis by (simp add: on_flash_def Let_def layer_inv_def quiet_inv_busy)
qed

text \<open>Storing the first key moves the layer to the partial handshake.\<close>

lemma store_key_inv:
  assumes "layer_inv P L" "sl_state L = S_Handshake"
    "\<not> sp_is_host (props L) \<Longrightarrow> hash_public_key P k = sp_h (props L)"
  shows "layer_inv P (set_state S_HandshakePartial (L\<lparr>relying_key := Some k\<rparr>))"
proof -
  have "task_inv (L\<lparr>relying_key := Some k\<rparr>)" using assms(1) by (simp add: layer_inv_def task_inv_def)
  with assms show ?thesis
    by (auto simp: layer_inv_def key_inv_def task_inv_set_state quiet_inv_busy)
qed

lemma layer_inv_no_key:
  "layer_inv P L \<Longrightarrow> sl_state L \<notin> {S_HandshakePartial, S_Encrypted, S_Error} \<Longrightarrow> relying_key L = None"
  by (auto simp: layer_inv_def key_inv_def)

lemma on_host_pubkey_ok:
  assumes "layer_inv P L" "sl_state L = S_Handshake"
  shows "action_ok P (on_host_pubkey P now L payload)"
proof (cases "parse_encryption_key P (public_key_text payload)")
  case (Inr k)
  have "relying_key L = None" using assms by (simp add: layer_inv_no_key)
  with Inr show ?thesis
    using assms(1) store_key_inv [OF assms, of k] layer_inv_Error [OF assms(1)]
    by (auto simp: on_host_pubkey_def validate_public_key_hash_def store_relying_key_def Let_def
             split: bool.splits)
qed (use assms in \<open>simp add: on_host_pubkey_def\<close>)

lemma on_client_pubkey_ok:
  assumes "layer_inv P L" "sl_state L = S_Handshake" "sp_is_host (props L)"
  shows "action_ok P (on_client_pubkey P now L frame payload)"
proof (cases "parse_encryption_key P (public_key_text payload)")
  case (Inr k)
  have "relying_key L = None" using assms by (simp add: layer_inv_no_key)
  with Inr show ?thesis
    using assms store_key_inv [OF assms(1,2), of k]
    by (auto simp: on_client_pubkey_def store_relying_key_def Let_def split: sum.splits)
qed (use assms in \<open>simp add: on_client_pubkey_def\<close>)

lemma on_capabilities_ok:
  assumes "layer_inv P L" "sl_state L = S_HandshakePartial" "validate_capabilities c = Inr ()"
  shows "action_ok P (on_capabilities now L c)"
proof -
  let ?L = "store_peer_capabilities c L"
  have "task_inv ?L"
    using assms(1) by (simp add: layer_inv_def task_inv_def store_peer_capabilities_def)
  then have "layer_inv P (set_state S_Encrypted ?L)"
    using assms by (auto simp: layer_inv_def key_inv_def task_inv_set_state quiet_inv_set_state split: if_splits)
  then show ?thesis by (simp add: on_capabilities_def Let_def)
qed

lemma dispatch_ok:
  assumes "layer_inv P L" "validate_message message = Inr ()"
  shows "action_ok P (dispatch P now L frame message)"
proof (cases rule: dispatch_cases [of frame L P now message])
  case (data payload t)
  then show ?thesis
    using assms(1) by (simp add: layer_inv_def task_inv_def quiet_inv_def key_inv_def)
qed (use assms in \<open>simp_all add: on_flash_ok on_host_pubkey_ok on_client_pubkey_ok on_capabilities_ok\<close>)

lemma handle_receive_inv:
  assumes "layer_inv P L"
  shows "layer_inv P (snd (handle_receive P now rnd pub L payload))"
proof -
  have "action_ok P (handle_receive_sync P now L payload)"
    by (cases rule: handle_receive_sync_cases [of P now L payload])
       (simp_all add: assms dispatch_ok)
  then show ?thesis by (simp add: handle_receive_def run_action_inv)
qed

lemma layer_inv_early:
  assumes "layer_inv P L" "relying_key L = None" "s \<in> {S_Connecting, S_Ready, S_Handshake}"
  shows "layer_inv P (set_state s L)"
  using assms by (auto simp: layer_inv_def key_inv_def task_inv_set_state quiet_inv_busy)

lemma setup_tail_ok:
  assumes "layer_inv P L" "relying_key L = None"
  shows "action_ok P (setup_tail now L)"
proof -
  let ?L = "set_state S_Handshake (set_state S_Ready L)"
  have inv: "layer_inv P ?L" using assms by (simp add: layer_inv_early)
  then have "layer_inv P (start_handshake_deadline ?L)"
    by (simp add: layer_inv_def task_inv_start_handshake_deadline quiet_inv_busy
        key_inv_cong [of "start_handshake_deadline ?L" ?L])
  with assms show ?thesis by (simp add: setup_tail_def can_encrypt_def Let_def layer_inv_early)
qed

lemma layer_setup_inv:
  assumes "layer_inv P L" "sl_state L = S_Standby"
  shows "layer_inv P (snd (layer_setup P now rnd pub ch_setup ch_subscribe L))"
proof -
  have "relying_key L = None" using assms by (simp add: layer_inv_no_key)
  with assms have "layer_inv P (set_state S_Connecting L)" "relying_key (set_state S_Connecting L) = None"
    by (simp_all add: layer_inv_early)
  then show ?thesis
    using run_action_inv [OF setup_tail_ok]
    by (simp add: layer_setup_def Let_def split: sum.splits)
qed

lemma abort_task_inv: "layer_inv P L \<Longrightarrow> layer_inv P (abort_task i L)"
  by (auto simp: layer_inv_def task_inv_def quiet_inv_def key_inv_def abort_task_def split: if_splits)

lemma layer_inv_step:
  assumes "layer_inv P L" "layer_step P L L'"
  shows "layer_inv P L'"
  using assms(2)
proof cases
  case (step_resend rnd pub i)
  with assms(1) show ?thesis
    by (auto simp: resend_def layer_inv_send_message split: option.splits task.splits)
next
  case (step_deadline i)
  with assms(1) show ?thesis by (simp add: deadline_expired_def abort_task_inv layer_inv_Error)
next
  case (step_send now rnd pub message)
  with assms(1) show ?thesis by (simp add: layer_send_def layer_inv_send_message)
next
  case (step_teardown ch_teardown)
  with assms(1) show ?thesis
    using task_inv_stop_handshake_tasks [of L] key_inv_cong [of "stop_handshake_tasks L" L P]
    by (simp add: layer_teardown_def layer_inv_def quiet_inv_def)
qed (use assms(1) in \<open>simp_all add: layer_setup_inv handle_receive_inv\<close>)

interpretation layer_sys: inv_system fresh_layer "layer_step P" "layer_inv P" for P
proof
  fix L :: layer
  assume "fresh_layer L"
  then show "layer_inv P L"
    by (auto simp: new_layer_def layer_inv_def task_inv_def quiet_inv_def key_inv_def)
qed (rule layer_inv_step)

section \<open>What holds in every reachable state\<close>

lemmas layer_reachable_inv = layer_sys.reachable_inv [unfolded layer_inv_def key_inv_def quiet_inv_def]

lemma reachable_quiet:
  "reachable fresh_layer (layer_step P) L \<Longrightarrow> sl_state L = S_Encrypted \<or> sl_state L = S_Error \<Longrightarrow>
   live_tasks L = Map.empty"
  using layer_reachable_inv [of P L] by simp

text \<open>
  A client can only ever talk to the host it was invited by: whatever frames arrive, in
  whatever order, a peer key that a client holds has the hash its connection URL names.
\<close>

theorem client_key_pinned:
  assumes "reachable fresh_layer (layer_step P) L" "\<not> sp_is_host (props L)" "relying_key L = Some k"
  shows "hash_public_key P k = sp_h (props L)"
  using layer_reachable_inv [OF assms(1)] assms(2,3) by simp

text \<open>
  A layer that reports \<open>Encrypted\<close> has everything the session relies on: the peer's key,
  and capabilities of the peer that are within their bounds (1 to 8 transports of 1 to 32
  bytes each).
\<close>

theorem encrypted_complete:
  assumes "reachable fresh_layer (layer_step P) L" "sl_state L = S_Encrypted"
  shows "\<exists>k c. relying_key L = Some k \<and> peer_caps L = Some c \<and>
    1 \<le> length (transports c) \<and> length (transports c) \<le> 8 \<and>
    list_all (\<lambda>t. 1 \<le> length t \<and> length t \<le> 32) (transports c)"
proof -
  from layer_reachable_inv [OF assms(1)] assms(2)
  obtain k c where kc: "relying_key L = Some k" "peer_caps L = Some c" "validate_capabilities c = Inr ()"
    by auto
  from kc(3) have "transports c \<noteq> []" "length (transports c) \<le> 8"
      "list_all (\<lambda>t. is_bounded_string t 32) (transports c)"
    by (auto simp: validate_capabilities_def split: if_splits)
  with kc show ?thesis by (auto simp: list_all_iff is_bounded_string_def Suc_le_eq)
qed

text \<open>
  When the handshake is over, well or badly, none of its background tasks is left, as long
  as operations run one after the other: nothing is sent again and no deadline can fire.
\<close>

lemma terminal_no_tasks:
  assumes "reachable fresh_layer (layer_step P) L" "sl_state L = S_Encrypted \<or> sl_state L = S_Error"
  shows "live_tasks L = Map.empty \<and> resend P' rnd pub i L = L"
  using reachable_quiet [OF assms] by (simp add: resend_def)

section \<open>What no step undoes\<close>

definition signal_rank :: "signal_state \<Rightarrow> nat" where
  "signal_rank s = (case s of S_Standby \<Rightarrow> 0 | S_Connecting \<Rightarrow> 1 | S_Ready \<Rightarrow> 2 | S_Handshake \<Rightarrow> 3
     | S_HandshakePartial \<Rightarrow> 4 | S_Encrypted \<Rightarrow> 5 | S_Error \<Rightarrow> 5)"

definition grows :: "layer \<Rightarrow> layer \<Rightarrow> bool" where
  "grows L L' \<longleftrightarrow>
     props L' = props L \<and>
     (relying_key L \<noteq> None \<longrightarrow> relying_key L' = relying_key L) \<and>
     (peer_caps L \<noteq> None \<longrightarrow> peer_caps L' = peer_caps L) \<and>
     (\<exists>ms. message_tx L' = message_tx L @ ms) \<and>
     (sl_state L' = sl_state L \<or>
      signal_rank (sl_state L) < signal_rank (sl_state L'))"

lemma grows_refl [simp]: "grows L L"
  by (simp add: grows_def)

lemma grows_trans: "grows L L' \<Longrightarrow> grows L' L'' \<Longrightarrow> grows L L''"
  by (auto simp: grows_def)

lemma grows_cong:
  assumes "props L' = props L" "sl_state L' = sl_state L" "relying_key L' = relying_key L"
    "peer_caps L' = peer_caps L" "message_tx L' = message_tx L"
  shows "grows L L'"
  using assms by (simp add: grows_def)

lemma grows_dispatch: "grows L (fst (dispatch P now L frame message))"
proof (cases rule: dispatch_cases [of frame L P now message])
  case (host_pubkey payload t)
  then show ?thesis
    by (auto simp: on_host_pubkey_def store_relying_key_def grows_def signal_rank_def Let_def
             split: sum.splits bool.splits)
next
  case (client_pubkey payload t)
  then show ?thesis
    by (auto simp: on_client_pubkey_def store_relying_key_def grows_def signal_rank_def Let_def
             split: sum.splits)
qed (auto simp: grows_def on_flash_def on_capabilities_def signal_rank_def Let_def)

lemma grows_handle_receive: "grows L (snd (handle_receive P now rnd pub L payload))"
proof -
  have "grows L (fst (handle_receive_sync P now L payload))"
    by (cases rule: handle_receive_sync_cases [of P now L payload]) (simp_all add: grows_dispatch)
  moreover have "grows (fst (handle_receive_sync P now L payload)) (snd (handle_receive P now rnd pub L payload))"
    by (rule grows_cong) (simp_all add: handle_receive_def)
  ultimately show ?thesis by (rule grows_trans)
qed

lemma grows_step:
  assumes "layer_inv P L" "layer_step P L L'"
  shows "grows L L'"
  using assms(2)
proof cases
  case (step_setup now rnd pub ch_setup ch_subscribe)
  have "relying_key L = None" using assms(1) step_setup by (simp add: layer_inv_no_key)
  with step_setup show ?thesis
    by (simp add: layer_setup_def setup_tail_def Let_def grows_def signal_rank_def can_encrypt_def split: sum.splits)
next
  case (step_receive now rnd pub payload)
  then show ?thesis by (simp add: grows_handle_receive)
next
  case (step_resend rnd pub i)
  then show ?thesis by (auto simp: resend_def grows_def split: option.splits task.splits)
next
  case (step_deadline i)
  then have "sl_state L \<noteq> S_Encrypted" "sl_state L \<noteq> S_Error"
    using assms(1) by (auto simp: layer_inv_def quiet_inv_def)
  with step_deadline show ?thesis
    by (auto simp: deadline_expired_def abort_task_def grows_def signal_rank_def split: signal_state.splits)
qed (auto simp: layer_send_def layer_teardown_def grows_def)

lemma grows_steps:
  assumes "(layer_step P)\<^sup>*\<^sup>* L L'" "layer_inv P L"
  shows "grows L L' \<and> layer_inv P L'"
  using assms
proof (induction rule: rtranclp_induct)
  case (step M N)
  then show ?case using grows_step [of P M N] layer_inv_step [of P M N] grows_trans [of L M N] by blast
qed simp

text \<open>
  A handshake goes forward only: once recorded, the peer's key and capabilities never
  change, messages handed to the session are never taken back, the state only advances, and
  \<open>Encrypted\<close> and \<open>Error\<close> are final; neither a late deadline nor a replayed frame leaves them.
\<close>

lemma handshake_monotone:
  assumes "reachable fresh_layer (layer_step P) L" "(layer_step P)\<^sup>*\<^sup>* L L'"
  shows "(relying_key L \<noteq> None \<longrightarrow> relying_key L' = relying_key L) \<and>
    (peer_caps L \<noteq> None \<longrightarrow> peer_caps L' = peer_caps L) \<and>
    (\<exists>ms. message_tx L' = message_tx L @ ms) \<and>
    signal_rank (sl_state L) \<le> signal_rank (sl_state L') \<and>
    (sl_state L = S_Encrypted \<or> sl_state L = S_Error \<longrightarrow> sl_state L' = sl_state L)"
proof -
  have "grows L L'" using grows_steps [OF assms(2)] layer_sys.reachable_inv [OF assms(1)] by blast
  then show ?thesis
    by (auto simp: grows_def signal_rank_def split: signal_state.splits)
qed

section \<open>What a received frame can do\<close>

text \<open>The only messages handed to the session.\<close>

lemma dispatch_message_tx:
  assumes "message_tx (fst (dispatch P now L frame message)) \<noteq> message_tx L"
  obtains v t where "prefix frame = Encrypted" "message = Data v t" "sl_state L = S_Encrypted"
    "fst (dispatch P now L frame message) = L\<lparr>message_tx := message_tx L @ [v]\<rparr>"
  using assms
proof (cases rule: dispatch_cases [of frame L P now message])
  case (host_pubkey payload t)
  with assms show ?thesis
    by (auto simp: on_host_pubkey_def store_relying_key_def Let_def split: sum.splits bool.splits if_splits)
next
  case (client_pubkey payload t)
  with assms show ?thesis
    by (auto simp: on_client_pubkey_def store_relying_key_def Let_def split: sum.splits if_splits)
next
  case (data payload t)
  then show ?thesis by (intro that) simp_all
qed (auto simp: on_flash_def on_capabilities_def Let_def split: if_splits)

text \<open>
  C11. A payload reaches the session only from the peer of the handshake: it was a frame for
  this side, the state was \<open>Encrypted\<close>, its ciphertext names the recorded peer key as its
  sender and decrypted under it, and what was handed on is the one JSON object the
  plaintext holds.
\<close>

theorem delivered_authenticated:
  assumes "reachable fresh_layer (layer_step P) L"
    "message_tx (snd (handle_receive P now rnd pub L payload)) \<noteq> message_tx L"
  shows "\<exists>c k b plain v t.
    payload = compose_frame Encrypted (for_role (sp_is_host (props L))) c \<and>
    sl_state L = S_Encrypted \<and> relying_key L = Some k \<and>
    from_base64 P c = Ok b \<and> take PUBLIC_KEY_BYTES b = public_key k \<and>
    peer_decrypt P (sp_decryption_key (props L)) c (Some k) = Ok plain \<and>
    message_from_str P plain = Ok (Data v t) \<and> is_object v \<and>
    message_tx (snd (handle_receive P now rnd pub L payload)) = message_tx L @ [v]"
proof (cases rule: handle_receive_sync_cases [of P now L payload])
  case (dropped r)
  with assms(2) show ?thesis by (simp add: handle_receive_def)
next
  case (accepted frame plain message)
  then have tx: "message_tx (snd (handle_receive P now rnd pub L payload)) =
      message_tx (fst (dispatch P now L frame message))"
    by (simp add: handle_receive_def)
  with assms(2) obtain v t where d: "prefix frame = Encrypted" "message = Data v t"
      "sl_state L = S_Encrypted"
      "fst (dispatch P now L frame message) = L\<lparr>message_tx := message_tx L @ [v]\<rparr>"
    by (metis dispatch_message_tx)
  from layer_reachable_inv [OF assms(1)] d(3) obtain k where k: "relying_key L = Some k" by auto
  with accepted(3) d(1) have dec: "peer_decrypt P (sp_decryption_key (props L)) (ciphertext frame) (Some k) = Ok plain"
    by (simp add: decrypt_frame_def)
  then obtain b where b: "from_base64 P (ciphertext frame) = Ok b" "take PUBLIC_KEY_BYTES b = public_key k"
    by (rule peer_decrypt_sender)
  have "payload = compose_frame Encrypted (for_role (sp_is_host (props L))) (ciphertext frame)"
    using accepted(1,2) d(1) frame_parsed [of payload frame] by (simp add: is_recipient_def frame_string_def)
  moreover have "is_object v" using accepted(5) d(2) by (simp split: if_splits)
  ultimately show ?thesis
    using b d k dec accepted(4) tx by (intro exI conjI; assumption?) simp_all
qed

text \<open>
  C12. A host records only the key of whoever sent the frame: when its peer key appears, the
  frame was encrypted with the key it announces, so that nobody can announce the key of
  somebody else.
\<close>

theorem host_binds_sender:
  assumes "sp_is_host (props L)" "relying_key L = None"
    "relying_key (snd (handle_receive P now rnd pub L payload)) = Some k"
  shows "\<exists>c plain t sender.
    payload = compose_frame Encrypted Host c \<and> sl_state L = S_Handshake \<and>
    peer_decrypt P (sp_decryption_key (props L)) c None = Ok plain \<and>
    message_from_str P plain = Ok (Pubkey \<lparr>public_key_text = ek_serialized k\<rparr> t) \<and>
    ek_from_ciphertext P c = Ok sender \<and> public_key sender = public_key k"
proof (cases rule: handle_receive_sync_cases [of P now L payload])
  case (dropped r)
  with assms show ?thesis by (simp add: handle_receive_def)
next
  case (accepted frame plain message)
  with assms(3) have rk: "relying_key (fst (dispatch P now L frame message)) = Some k"
    by (simp add: handle_receive_def)
  show ?thesis
  proof (cases rule: dispatch_cases [of frame L P now message])
    case (client_pubkey p t)
    with rk assms(2) obtain sender where s: "parse_encryption_key P (public_key_text p) = Ok k"
        "ek_from_ciphertext P (ciphertext frame) = Ok sender" "public_key sender = public_key k"
      by (auto simp: on_client_pubkey_def store_relying_key_def Let_def split: sum.splits if_splits)
    from s(1) have "ek_serialized k = public_key_text p"
      by (auto simp: parse_encryption_key_def ek_from_base64_def split: if_splits)
    moreover have "payload = compose_frame Encrypted Host (ciphertext frame)"
      using accepted(1,2) client_pubkey(1) assms(1) frame_parsed [of payload frame]
      by (auto simp: is_recipient_def frame_string_def for_role_def)
    ultimately show ?thesis
      using accepted client_pubkey s assms(2)
      by (intro exI [of _ "ciphertext frame"] exI [of _ plain] exI [of _ t] exI [of _ sender])
         (simp add: decrypt_frame_def)
  qed (use rk assms in \<open>auto simp: on_flash_def on_capabilities_def Let_def\<close>)
qed

lemma no_panic_send_message:
  assumes "\<And>f. no_panic (pub f)"
  shows "no_panic (fst (send_message P rnd pub L p r m))"
proof -
  have "no_panic (message_frame P rnd L p r m)"
    by (cases p) (auto simp: message_frame_def Let_def intro!: no_panic_rbind)
  then show ?thesis using assms by (auto simp: send_message_def no_panic_def split: sum.splits)
qed

lemma no_panic_run_action:
  assumes "\<And>f. no_panic (pub f)" "case snd La of Return r \<Rightarrow> no_panic r | _ \<Rightarrow> True"
  shows "no_panic (fst (run_action P rnd pub La))"
proof (cases "snd La")
  case (Send_repeating p r m)
  then show ?thesis
    using no_panic_send_message [of pub P rnd "stop_repeating (fst La)" p r m, OF assms(1)]
    by (auto simp: run_action_def send_repeating_def no_panic_def split: sum.splits prod.splits)
qed (use assms in \<open>simp_all add: run_action_def no_panic_send_message\<close>)

lemma dispatch_return_no_panic:
  assumes "dispatch P now L frame message = (L', Return r)"
  shows "no_panic r"
proof (cases rule: dispatch_cases [of frame L P now message])
  case (host_pubkey payload t)
  with assms no_panic_ek(2) [of P "public_key_text payload"] show ?thesis
    by (auto simp: on_host_pubkey_def validate_public_key_hash_def no_panic_def Let_def
             split: sum.splits bool.splits if_splits prod.splits)
next
  case (client_pubkey payload t)
  with assms no_panic_ek(2) [of P "public_key_text payload"] no_panic_ek(3) [of P "ciphertext frame"]
  show ?thesis
    by (auto simp: on_client_pubkey_def no_panic_def Let_def split: sum.splits if_splits prod.splits)
qed (use assms in \<open>auto simp: on_flash_def on_capabilities_def Let_def split: if_splits\<close>)

lemma no_panic_decode: "no_panic (rbind (decrypt_frame P L frame) (message_from_str P))"
  by (cases "prefix frame")
     (auto simp: decrypt_frame_def message_from_str_def intro!: no_panic_rbind)


end
