(* ===== verification/Uri.thy ===== *)
theory Uri
  imports Crypto
begin

text \<open>
  Connection URLs (crates/openlv/src/url, crates/openlv/src/utils) and the signaling
  protocol they name (crates/openlv/src/signaling/mod.rs). The record \<open>uri_env\<close> holds what
  comes from outside: the parser and serializer of form-urlencoded pairs, and the parts of
  the Unicode tables that concern characters beyond ASCII. The three regular expressions of
  the source are the functions \<open>uri_captures\<close>, \<open>hash_regex\<close> and \<open>shared_key_regex\<close>.
\<close>

section \<open>The environment\<close>

record uri_env =
  form_parse :: "string \<Rightarrow> (string \<times> string) list"
  form_serialize :: "(string \<times> string) list \<Rightarrow> string"
  uni_lowercase :: "string \<Rightarrow> string"
  uni_digit :: "string \<Rightarrow> bool"

text \<open>
  Form-urlencoding reads back the pairs of texts it wrote, and writes them in printable ASCII, at
  least one character for a list that is not empty.
\<close>

definition form_ok :: "uri_env \<Rightarrow> bool" where
  "form_ok E \<longleftrightarrow>
     (\<forall>ps. (\<forall>(k, v) \<in> set ps. utf8_valid k \<and> utf8_valid v) \<longrightarrow>
        form_parse E (form_serialize E ps) = ps) \<and>
     (\<forall>ps. list_all (\<lambda>c. 32 \<le> byte_val c \<and> byte_val c < 127) (form_serialize E ps)) \<and>
     (\<forall>ps. ps \<noteq> [] \<longrightarrow> form_serialize E ps \<noteq> [])"

section \<open>Standard library functions\<close>

text \<open>The characters with the Unicode property \<open>White_Space\<close>, which \<open>str::trim\<close> removes.\<close>

definition whitespace :: "string list" where
  "whitespace =
     [[CHR 0x09], [CHR 0x0A], [CHR 0x0B], [CHR 0x0C], [CHR 0x0D], [CHR 0x20],
      [CHR 0xC2, CHR 0x85], [CHR 0xC2, CHR 0xA0], [CHR 0xE1, CHR 0x9A, CHR 0x80]]
     @ map (\<lambda>n. [CHR 0xE2, CHR 0x80, char_of (128 + n)]) [0..<11]
     @ [[CHR 0xE2, CHR 0x80, CHR 0xA8], [CHR 0xE2, CHR 0x80, CHR 0xA9],
        [CHR 0xE2, CHR 0x80, CHR 0xAF], [CHR 0xE2, CHR 0x81, CHR 0x9F],
        [CHR 0xE3, CHR 0x80, CHR 0x80]]"

definition trim_is_empty :: "string \<Rightarrow> bool" where
  "trim_is_empty s \<longleftrightarrow> list_all (\<lambda>c. c \<in> set whitespace) (chars s)"

definition to_lowercase :: "uri_env \<Rightarrow> string \<Rightarrow> string" where
  "to_lowercase E s = (if list_all is_ascii s then map ascii_lower s else uni_lowercase E s)"

fun dec_value :: "nat \<Rightarrow> string \<Rightarrow> nat" where
  "dec_value acc [] = acc"
| "dec_value acc (c # cs) = dec_value (10 * acc + (byte_val c - 48)) cs"

text \<open>\<open>str::parse::<u8>\<close> on a text without a sign: ASCII digits, at most 255.\<close>

definition parse_u8 :: "string \<Rightarrow> nat option" where
  "parse_u8 s =
     (if s \<noteq> [] \<and> list_all is_digit s \<and> dec_value 0 s < 256 then Some (dec_value 0 s) else None)"

fun show_nat :: "nat \<Rightarrow> string" where
  "show_nat n = (if n < 10 then [char_of (48 + n)] else show_nat (n div 10) @ [char_of (48 + n mod 10)])"

declare show_nat.simps [simp del]

section \<open>utils/mod.rs\<close>

definition redact_url :: "string \<Rightarrow> string" where
  "redact_url url =
     (if CHR ''?'' \<in> set url then takeWhile (\<lambda>c. c \<noteq> CHR ''?'') url @ ''?[redacted]'' else url)"

section \<open>The signaling protocol (signaling/mod.rs)\<close>

datatype signaling_protocol = Mqtt | Ntfy | Unsupported string

definition protocol_from :: "uri_env \<Rightarrow> string \<Rightarrow> signaling_protocol" where
  "protocol_from E value =
     (let l = to_lowercase E value in
      if l = ''mqtt'' then Mqtt else if l = ''ntfy'' then Ntfy else Unsupported l)"

fun protocol_to_string :: "signaling_protocol \<Rightarrow> string" where
  "protocol_to_string Mqtt = ''mqtt''"
| "protocol_to_string Ntfy = ''ntfy''"
| "protocol_to_string (Unsupported value) = value"

section \<open>Version 1 URLs (url/v1.rs)\<close>

definition OPENLV_PROTOCOL_VERSION :: nat where "OPENLV_PROTOCOL_VERSION = 1"

record v1_uri =
  session_id :: string
  key_hash :: string
  shared_key :: handshake_key
  signaling_protocol :: signaling_protocol
  signaling_server :: string

definition is_id_char :: "char \<Rightarrow> bool" where
  "is_id_char c \<longleftrightarrow>
     65 \<le> byte_val c \<and> byte_val c \<le> 90 \<or> 97 \<le> byte_val c \<and> byte_val c \<le> 122 \<or>
     is_digit c \<or> c = CHR ''_'' \<or> c = CHR ''-''"

text \<open>
  \<open>^openlv://([A-Za-z0-9_-]{16})@(\\d+)\\?(.+)$\<close>, matched character by character. The class
  \<open>\\d\<close> holds every Unicode decimal digit and never \<open>?\<close>, and the dot matches everything but
  a line feed, so each group has one possible extent.
\<close>

definition is_d :: "uri_env \<Rightarrow> string \<Rightarrow> bool" where
  "is_d E c = (case c of [b] \<Rightarrow> is_digit b | _ \<Rightarrow> uni_digit E c)"

definition uri_captures :: "uri_env \<Rightarrow> string \<Rightarrow> (string \<times> string \<times> string) option" where
  "uri_captures E url =
     (let body = drop 9 url; sid = take 16 body; rest = drop 16 body in
      if take 9 url = ''openlv://'' \<and> length sid = 16 \<and> list_all is_id_char sid \<and>
         take 1 rest = ''@''
      then
        let cs = chars (drop 1 rest);
            digits = takeWhile (is_d E) cs;
            query = drop 1 (dropWhile (is_d E) cs)
        in if digits \<noteq> [] \<and> take 1 (dropWhile (is_d E) cs) = [''?''] \<and>
              query \<noteq> [] \<and> list_all (\<lambda>c. c \<noteq> [CHR 0x0A]) query
           then Some (sid, concat digits, concat query)
           else None
      else None)"

definition hash_regex :: "string \<Rightarrow> bool" where
  "hash_regex h \<longleftrightarrow> length h = 16 \<and> list_all is_hex_lower h"

definition shared_key_regex :: "string \<Rightarrow> bool" where
  "shared_key_regex k \<longleftrightarrow> length k = 32 \<and> list_all is_hex_lower k"

text \<open>The pairs collected into a hash map: the last value of a repeated key stays.\<close>

definition query_params :: "uri_env \<Rightarrow> string \<Rightarrow> string \<Rightarrow> string option" where
  "query_params E q = map_of (rev (form_parse E q))"

definition check_version :: "string \<Rightarrow> unit res" where
  "check_version digits =
     rbind (ok_or (Err (InvalidUri ''invalid version'')) (parse_u8 digits)) (\<lambda>version.
       if version \<noteq> OPENLV_PROTOCOL_VERSION
       then Fail (InvalidUri (''invalid protocol version: expected '' @ show_nat OPENLV_PROTOCOL_VERSION
              @ '', got '' @ show_nat version))
       else Ok ())"

definition v1_from_query :: "uri_env \<Rightarrow> string \<Rightarrow> (string \<Rightarrow> string option) \<Rightarrow> v1_uri res" where
  "v1_from_query E sid params =
     rbind (ok_or (Err (InvalidUri ''h parameter is required'')) (params ''h'')) (\<lambda>h.
     if \<not> hash_regex h
       then Fail (InvalidUri ''invalid public key hash format: must be 16 hex characters'')
     else rbind (ok_or (Err (InvalidUri ''k parameter is required'')) (params ''k'')) (\<lambda>k.
     if \<not> shared_key_regex k
       then Fail (InvalidUri ''invalid shared key format: must be 32 lowercase hex characters'')
     else rbind (from_hex k) (\<lambda>hk.
     Ok \<lparr>session_id = sid, key_hash = h, shared_key = hk,
         signaling_protocol = (case params ''p'' of Some p \<Rightarrow> protocol_from E p | None \<Rightarrow> Mqtt),
         signaling_server = (case params ''s'' of Some s \<Rightarrow> s | None \<Rightarrow> [])\<rparr>)))"

definition v1_from_url :: "uri_env \<Rightarrow> string \<Rightarrow> v1_uri res" where
  "v1_from_url E url =
     (if trim_is_empty url then Fail (InvalidUri ''URL cannot be empty'')
      else if take 9 url \<noteq> ''openlv://''
        then Fail (InvalidUri (''invalid URL format: must start with 'openlv://', got: '' @ redact_url url))
      else rbind (ok_or (Err (InvalidUri (''invalid URL format: '' @ redact_url url)))
                    (uri_captures E url)) (\<lambda>(sid, digits, query).
           rbind (check_version digits) (\<lambda>_.
           v1_from_query E sid (query_params E query))))"

definition v1_to_url :: "uri_env \<Rightarrow> v1_uri \<Rightarrow> string" where
  "v1_to_url E u =
     (let query = form_serialize E
            [(''h'', key_hash u), (''k'', hk_hex (shared_key u)),
             (''p'', protocol_to_string (signaling_protocol u)), (''s'', signaling_server u)]
      in ''openlv://'' @ session_id u @ ''@'' @ show_nat OPENLV_PROTOCOL_VERSION @ ''?'' @ query)"

section \<open>Session URIs (url/mod.rs)\<close>

definition URL_SAFE_ALPHABET :: string where
  "URL_SAFE_ALPHABET = ''ABCDEFGHIJKLMNOPQRSTUVWXYZabcdefghijklmnopqrstuvwxyz0123456789-_''"

datatype session_uri = Version1 v1_uri

definition generate_session_id :: "bytes \<Rightarrow> string" where
  "generate_session_id rnd =
     map (\<lambda>b. URL_SAFE_ALPHABET ! (byte_val b mod length URL_SAFE_ALPHABET)) rnd"

definition session_uri_new ::
  "string \<Rightarrow> string \<Rightarrow> handshake_key \<Rightarrow> signaling_protocol \<Rightarrow> string \<Rightarrow> session_uri" where
  "session_uri_new sid kh sk sp server =
     Version1 \<lparr>session_id = sid, key_hash = kh, shared_key = sk,
       signaling_protocol = sp, signaling_server = server\<rparr>"

fun to_connection_url :: "uri_env \<Rightarrow> session_uri \<Rightarrow> string" where
  "to_connection_url E (Version1 u) = v1_to_url E u"

definition session_uri_from_url :: "uri_env \<Rightarrow> string \<Rightarrow> session_uri res" where
  "session_uri_from_url E url = rbind (v1_from_url E url) (\<lambda>u. Ok (Version1 u))"

text \<open>The conversions from texts and the \<open>Display\<close> implementation.\<close>

definition session_uri_try_from :: "uri_env \<Rightarrow> string \<Rightarrow> session_uri res" where
  "session_uri_try_from E value = session_uri_from_url E value"

definition v1_to_connection_url :: "uri_env \<Rightarrow> v1_uri \<Rightarrow> string" where
  "v1_to_connection_url E u = to_connection_url E (Version1 u)"

definition session_uri_to_string :: "uri_env \<Rightarrow> session_uri \<Rightarrow> string" where
  "session_uri_to_string E uri = (case uri of Version1 u \<Rightarrow> v1_to_connection_url E u)"

section \<open>Round trip\<close>

text \<open>
  The URIs a session can have: what the regular expressions of the parser ask for, texts
  that are UTF-8, and a protocol name in its lowercase form.
\<close>

definition valid_v1 :: "uri_env \<Rightarrow> v1_uri \<Rightarrow> bool" where
  "valid_v1 E u \<longleftrightarrow>
     length (session_id u) = 16 \<and> list_all is_id_char (session_id u) \<and>
     hash_regex (key_hash u) \<and> from_hex (hk_hex (shared_key u)) = Ok (shared_key u) \<and>
     utf8_valid (protocol_to_string (signaling_protocol u)) \<and> utf8_valid (signaling_server u) \<and>
     protocol_from E (protocol_to_string (signaling_protocol u)) = signaling_protocol u"

lemma from_hex_hex_lower:
  assumes "from_hex (hk_hex k) = Ok k"
  shows "shared_key_regex (hk_hex k)"
proof -
  from assms have h: "length (hk_hex k) = 32" "list_all is_ascii_hexdigit (hk_hex k)"
    and k: "k = \<lparr>hk_hex = map ascii_lower (hk_hex k), hk_cipher = hex_decode (hk_hex k)\<rparr>"
    by (simp_all add: from_hex_Ok_iff)
  from arg_cong [OF k, of hk_hex] have "hk_hex k = map ascii_lower (hk_hex k)" by simp
  moreover from h have "list_all is_hex_lower (map ascii_lower (hk_hex k))"
    by (auto simp: list_all_iff ascii_lower_hexdigit)
  ultimately show ?thesis using h by (simp add: shared_key_regex_def)
qed

lemma show_version [simp]: "show_nat OPENLV_PROTOCOL_VERSION = ''1''"
  by code_simp

lemma check_version_own [simp]: "check_version ''1'' = Ok ()"
  by (simp add: check_version_def parse_u8_def is_digit_def OPENLV_PROTOCOL_VERSION_def)

lemma chars_printable:
  "list_all (\<lambda>c. 32 \<le> byte_val c \<and> byte_val c < 127) s \<Longrightarrow> chars s = map (\<lambda>c. [c]) s"
  by (rule chars_no_cont) (cases s; auto simp: list_all_iff is_cont_def)

lemma not_trim_empty_openlv: "\<not> trim_is_empty (''openlv://'' @ s)"
  by (auto simp: trim_is_empty_def whitespace_def is_cont_def)

lemma map_of_rev_form:
  assumes "form_ok E" "\<forall>(k, v) \<in> set ps. utf8_valid k \<and> utf8_valid v"
  shows "query_params E (form_serialize E ps) = map_of (rev ps)"
  using assms by (simp add: form_ok_def query_params_def)

lemma uri_captures_to_url:
  assumes "form_ok E" "length sid = 16" "list_all is_id_char sid" "ps \<noteq> []"
  shows "uri_captures E (''openlv://'' @ sid @ ''@1?'' @ form_serialize E ps) =
         Some (sid, ''1'', form_serialize E ps)"
proof -
  let ?q = "form_serialize E ps"
  have q: "list_all (\<lambda>c. 32 \<le> byte_val c \<and> byte_val c < 127) ?q" "?q \<noteq> []"
    using assms(1,4) by (auto simp: form_ok_def)
  then have "list_all (\<lambda>c. 32 \<le> byte_val c \<and> byte_val c < 127) (''1?'' @ ?q)" by simp
  then have "chars (''1?'' @ ?q) = ''1'' # ''?'' # map (\<lambda>c. [c]) ?q"
    by (subst chars_printable) simp_all
  moreover have "list_all (\<lambda>c. c \<noteq> [CHR 0x0A]) (map (\<lambda>c. [c]) ?q)"
    using q(1) by (auto simp: list_all_iff)
  moreover have "concat (map (\<lambda>c. [c]) ?q) = ?q" by simp
  ultimately show ?thesis
    using assms(2,3) q(2) by (simp add: uri_captures_def Let_def is_d_def is_digit_def)
qed

lemma v1_roundtrip:
  assumes "form_ok E" "valid_v1 E u"
  shows "v1_from_url E (v1_to_url E u) = Ok u"
proof -
  let ?ps = "[(''h'', key_hash u), (''k'', hk_hex (shared_key u)),
             (''p'', protocol_to_string (signaling_protocol u)), (''s'', signaling_server u)]"
  let ?url = "''openlv://'' @ session_id u @ ''@1?'' @ form_serialize E ?ps"
  have cap: "uri_captures E ?url = Some (session_id u, ''1'', form_serialize E ?ps)"
    using assms by (intro uri_captures_to_url) (auto simp: valid_v1_def)
  have "utf8_valid s" if "list_all is_hex_lower s" for s
    using that hexdigit_ascii hex_lower_hexdigit by (intro utf8_valid_ascii) (auto simp: list_all_iff)
  then have utf: "\<forall>(k, v) \<in> set ?ps. utf8_valid k \<and> utf8_valid v"
    using assms(2) from_hex_hex_lower [of "shared_key u"]
    by (auto simp: valid_v1_def hash_regex_def shared_key_regex_def is_ascii_def)
  have "v1_from_query E (session_id u) (map_of (rev ?ps)) = Ok u"
    using assms(2) from_hex_hex_lower [of "shared_key u"]
    by (auto simp: v1_from_query_def valid_v1_def)
  then have "v1_from_url E ?url = Ok u"
    using cap not_trim_empty_openlv [of "drop 9 ?url"]
    by (simp add: v1_from_url_def map_of_rev_form [OF assms(1) utf])
  then show ?thesis
    by (simp add: v1_to_url_def)
qed

text \<open>
  C29. A connection URL carries the whole session URI: parsing the URL written for a valid URI
  gives the same session id, key hash, handshake key, protocol and server, and so does
  converting the text it is displayed as.
\<close>

theorem connection_url_roundtrip:
  assumes "form_ok E" "valid_v1 E u"
  shows "session_uri_from_url E (to_connection_url E (Version1 u)) = Ok (Version1 u) \<and>
    session_uri_try_from E (session_uri_to_string E (Version1 u)) = Ok (Version1 u)"
  using v1_roundtrip [OF assms]
  by (simp add: session_uri_from_url_def session_uri_try_from_def session_uri_to_string_def v1_to_connection_url_def)

section \<open>What the parser accepts\<close>

lemma uri_captures_id:
  assumes "uri_captures E url = Some (sid, d, q)"
  shows "length sid = 16" "list_all is_id_char sid"
  using assms by (auto simp: uri_captures_def Let_def split: if_splits)

text \<open>
  C30. Whatever text it is given, the parser accepts only valid URIs: the session id is 16
  URL-safe characters, the hash 16 and the key 32 lowercase hexadecimal digits, and the key
  is the one its text stands for.
\<close>

theorem from_url_valid:
  assumes "v1_from_url E url = Ok u"
  shows "length (session_id u) = 16 \<and> list_all is_id_char (session_id u) \<and>
    hash_regex (key_hash u) \<and> from_hex (hk_hex (shared_key u)) = Ok (shared_key u) \<and>
    length (hk_cipher (shared_key u)) = 16"
proof -
  from assms obtain sid d q where cap: "uri_captures E url = Some (sid, d, q)"
    and u: "v1_from_query E sid (query_params E q) = Ok u"
    by (auto simp: v1_from_url_def split: if_splits)
  from u obtain k where "session_id u = sid" "hash_regex (key_hash u)" "shared_key_regex k"
      "from_hex k = Ok (shared_key u)"
    by (auto simp: v1_from_query_def split: if_splits)
  moreover from this have "map ascii_lower k = k"
    by (intro map_idI) (auto simp: shared_key_regex_def list_all_iff)
  ultimately show ?thesis
    using uri_captures_id [OF cap] from_hex_length [of k "shared_key u"]
    by (auto simp: from_hex_Ok_iff)
qed

section \<open>Session ids\<close>

lemma alphabet_id_chars: "list_all is_id_char URL_SAFE_ALPHABET"
  by (simp add: URL_SAFE_ALPHABET_def is_id_char_def is_digit_def)

lemma length_alphabet [simp]: "length URL_SAFE_ALPHABET = 64"
  by (simp add: URL_SAFE_ALPHABET_def)

lemma distinct_alphabet: "distinct URL_SAFE_ALPHABET"
  by (simp add: URL_SAFE_ALPHABET_def)

lemma generate_session_id_form:
  "length (generate_session_id rnd) = length rnd" "list_all is_id_char (generate_session_id rnd)"
proof -
  show "list_all is_id_char (generate_session_id rnd)"
    using alphabet_id_chars by (auto simp: generate_session_id_def list_all_length)
qed (simp add: generate_session_id_def)

lemma bytes_mod_64:
  fixes n :: nat
  assumes "n < 256" "n mod 64 = i"
  shows "n \<in> {i, i + 64, i + 128, i + 192}"
proof -
  have "n = 64 * (n div 64) + i" using mult_div_mod_eq [of 64 n] assms(2) by simp
  moreover have "n div 64 = 0 \<or> n div 64 = 1 \<or> n div 64 = 2 \<or> n div 64 = 3"
    using assms(1) by linarith
  ultimately show ?thesis by auto
qed

text \<open>
  Session ids are drawn without bias: each of the 64 characters of the alphabet stands
  for exactly four of the 256 values of a random byte, and every id of 16 random bytes is
  one the parser accepts.
\<close>

theorem generate_session_id_unbiased:
  "(\<forall>i < 64. card {b. generate_session_id [b] = [URL_SAFE_ALPHABET ! i]} = 4) \<and>
   list_all is_id_char (generate_session_id rnd) \<and>
   length (generate_session_id rnd) = length rnd"
proof -
  have "card {b. generate_session_id [b] = [URL_SAFE_ALPHABET ! i]} = 4" if i: "i < 64" for i
  proof -
    have "{b. generate_session_id [b] = [URL_SAFE_ALPHABET ! i]} = {b. byte_val b mod 64 = i}"
      using i distinct_alphabet by (auto simp: generate_session_id_def nth_eq_iff_index_eq)
    also have "\<dots> = char_of ` {n. n < 256 \<and> n mod 64 = i}"
    proof (intro set_eqI iffI)
      fix b assume "b \<in> {b. byte_val b mod 64 = i}"
      then show "b \<in> char_of ` {n. n < 256 \<and> n mod 64 = i}"
        by (intro image_eqI [of _ _ "byte_val b"]) auto
    qed auto
    also have "card \<dots> = card {n. n < 256 \<and> n mod 64 = i}"
      by (rule card_image, rule inj_on_inverseI [where g = byte_val]) simp
    also have "{n. n < 256 \<and> n mod 64 = i} = {i, i + 64, i + 128, i + 192}"
    proof (intro set_eqI iffI)
      fix n assume "n \<in> {n. n < 256 \<and> n mod 64 = i}"
      then show "n \<in> {i, i + 64, i + 128, i + 192}" using bytes_mod_64 by blast
    qed (use i mod_mult_self2 [of i 64 2] mod_mult_self2 [of i 64 3] in auto)
    also have "card \<dots> = 4" by simp
    finally show ?thesis .
  qed
  then show ?thesis using generate_session_id_form by blast
qed

section \<open>Error texts\<close>

text \<open>Every text a failing parse can report, given the part of the URL that is shown.\<close>

definition uri_error_texts :: "string \<Rightarrow> string set" where
  "uri_error_texts shown =
     {''URL cannot be empty'',
      ''invalid URL format: must start with 'openlv://', got: '' @ shown,
      ''invalid URL format: '' @ shown,
      ''invalid version'', ''h parameter is required'',
      ''invalid public key hash format: must be 16 hex characters'',
      ''k parameter is required'',
      ''invalid shared key format: must be 32 lowercase hex characters''}
     \<union> {''invalid protocol version: expected 1, got '' @ show_nat v | v. v < 256}"

definition uri_error :: "string \<Rightarrow> fault \<Rightarrow> bool" where
  "uri_error shown f \<longleftrightarrow> (\<exists>msg \<in> uri_error_texts shown. f = Err (InvalidUri msg))"

lemma uri_error_simps [simp]:
  "uri_error shown (Err (InvalidUri ''URL cannot be empty''))"
  "uri_error shown (Err (InvalidUri (''invalid URL format: must start with 'openlv://', got: '' @ shown)))"
  "uri_error shown (Err (InvalidUri (''invalid URL format: '' @ shown)))"
  "uri_error shown (Err (InvalidUri ''invalid version''))"
  "uri_error shown (Err (InvalidUri ''h parameter is required''))"
  "uri_error shown (Err (InvalidUri ''invalid public key hash format: must be 16 hex characters''))"
  "uri_error shown (Err (InvalidUri ''k parameter is required''))"
  "uri_error shown (Err (InvalidUri ''invalid shared key format: must be 32 lowercase hex characters''))"
  unfolding uri_error_def uri_error_texts_def
  by (rule bexI, rule refl, rule UnI1, (rule insertI1 | rule insertI2)+)+

lemma uri_error_version:
  "v < 256 \<Longrightarrow>
   uri_error shown (Err (InvalidUri (''invalid protocol version: expected '' @ ''1'' @ '', got '' @ show_nat v)))"
  unfolding uri_error_def uri_error_texts_def by auto

lemma redact_url_query: "CHR ''?'' \<notin> set a \<Longrightarrow> redact_url (a @ ''?'' @ q) = a @ ''?[redacted]''"
  by (auto simp: redact_url_def takeWhile_append)

lemma shared_key_regex_from_hex: "shared_key_regex k \<Longrightarrow> \<exists>hk. from_hex k = Ok hk"
  by (auto simp: shared_key_regex_def from_hex_def list_all_iff)

lemma v1_from_query_errors:
  assumes "v1_from_query E sid params = Inl f"
  shows "uri_error shown f"
proof -
  consider "params ''h'' = None" | h where "params ''h'' = Some h" "\<not> hash_regex h"
    | h where "params ''h'' = Some h" "hash_regex h" "params ''k'' = None"
    | h k where "params ''h'' = Some h" "hash_regex h" "params ''k'' = Some k" "\<not> shared_key_regex k"
    | h k hk where "params ''h'' = Some h" "hash_regex h" "params ''k'' = Some k" "shared_key_regex k"
        "from_hex k = Ok hk"
    using shared_key_regex_from_hex by (metis not_None_eq)
  then show ?thesis
    by cases (use assms uri_error_simps in \<open>simp add: v1_from_query_def; blast\<close>)+
qed

lemma check_version_errors:
  assumes "check_version d = Inl f"
  shows "uri_error shown f"
proof (cases "parse_u8 d")
  case None
  with assms show ?thesis by (auto simp: check_version_def)
next
  case (Some v)
  then have "v < 256" by (auto simp: parse_u8_def split: if_splits)
  with uri_error_version Some assms show ?thesis
    by (auto simp: check_version_def simp del: append.simps split: if_splits)
qed

text \<open>
  C31. Errors never show the query of a URL, which carries the shared key: whatever follows the
  first question mark, a failing parse is an ordinary error whose text is made of the part
  in front of it.
\<close>

theorem from_url_errors_redacted:
  assumes "CHR ''?'' \<notin> set a" "v1_from_url E (a @ ''?'' @ q) = Inl f"
  shows "\<exists>msg \<in> uri_error_texts (a @ ''?[redacted]''). f = Err (InvalidUri msg)"
proof -
  let ?url = "a @ ''?'' @ q" and ?shown = "a @ ''?[redacted]''"
  note red = redact_url_query [OF assms(1), of q]
  consider (early) "trim_is_empty ?url \<or> take 9 ?url \<noteq> ''openlv://'' \<or> uri_captures E ?url = None"
    | (late) sid d r where "\<not> trim_is_empty ?url" "take 9 ?url = ''openlv://''"
        "uri_captures E ?url = Some (sid, d, r)"
    by (cases "uri_captures E ?url") auto
  then have "uri_error ?shown f"
  proof cases
    case early
    then show ?thesis
      using assms(2) unfolding v1_from_url_def red
      by (auto simp del: append.simps append_assoc split: if_splits)
  next
    case late
    with assms(2) consider "check_version d = Inl f"
      | "v1_from_query E sid (query_params E r) = Inl f"
      by (cases "check_version d") (auto simp: v1_from_url_def)
    then show ?thesis by cases (blast intro: check_version_errors v1_from_query_errors)+
  qed
  then show ?thesis by (simp only: uri_error_def)
qed

end
