(* ===== verification/Instances.thy ===== *)
theory Instances
  imports Uri
begin

text \<open>
  Concrete primitives. The components take encryption, JSON texts and form-urlencoding as
  parameters; this theory gives simple functions that satisfy everything the components
  rely on of them, so that the hypotheses of the development hold together. The record
  \<open>sample_platform\<close> takes the texts of the JSON values at hand as a table.
\<close>

section \<open>Primitives\<close>

definition hex_text :: "bytes \<Rightarrow> string" where
  "hex_text b = concat (map hex_byte b)"

definition gcm_tag :: "bytes \<Rightarrow> bytes" where
  "gcm_tag k = take 16 (k @ replicate 16 (char_of (0 :: nat)))"

definition sample_aead_encrypt :: "bytes \<Rightarrow> bytes \<Rightarrow> bytes \<Rightarrow> string + bytes" where
  "sample_aead_encrypt k n m = Inr (m @ gcm_tag k)"

definition sample_aead_decrypt :: "bytes \<Rightarrow> bytes \<Rightarrow> bytes \<Rightarrow> string + bytes" where
  "sample_aead_decrypt k n c =
     (let m = take (length c - 16) c in
      if drop (length c - 16) c = gcm_tag k \<and> 16 \<le> length c then Inr m else Inl ''aead::Error'')"

definition add_bytes :: "bytes \<Rightarrow> bytes \<Rightarrow> bytes" where
  "add_bytes a b = map2 (\<lambda>x y. char_of (byte_val x + byte_val y)) a b"

definition sample_platform :: "(json \<times> string) list \<Rightarrow> platform" where
  "sample_platform tbl =
     \<lparr>b64_encode = hex_text, b64_decode = (\<lambda>s. Inr (hex_decode s)),
      x25519_base = (\<lambda>a. a), x25519 = add_bytes,
      contributory = list_ex (\<lambda>c. c \<noteq> char_of (0 :: nat)),
      hkdf_expand = (\<lambda>secret key_info. secret),
      aes256_encrypt = sample_aead_encrypt, aes256_decrypt = sample_aead_decrypt,
      aes128_encrypt = sample_aead_encrypt, aes128_decrypt = sample_aead_decrypt,
      sha256 = (\<lambda>b. take 32 (b @ replicate 32 (char_of (0 :: nat)))),
      utf8_error = (\<lambda>b. ''invalid utf-8''),
      json_print = (\<lambda>v. case map_of tbl v of Some s \<Rightarrow> s | None \<Rightarrow> []),
      json_parse = (\<lambda>s. case map_of (map prod.swap tbl) s of Some v \<Rightarrow> Inr v | None \<Rightarrow> Inl ''expected value''),
      json_error = (\<lambda>v. ''invalid type'')\<rparr>"

lemma length_gcm_tag [simp]: "length (gcm_tag k) = 16"
  by (simp add: gcm_tag_def)

lemma sample_aead_ok: "aead_ok sample_aead_encrypt sample_aead_decrypt"
  by (simp add: aead_ok_def sample_aead_encrypt_def sample_aead_decrypt_def Let_def)

lemma sample_base64_ok: "base64_ok (sample_platform tbl)"
proof -
  have "list_all is_ascii (hex_text b)" for b
    using hex_bytes_lower [of _ b] hexdigit_ascii hex_lower_hexdigit
    by (auto simp: list_all_iff hex_text_def)
  then show ?thesis
    by (simp add: base64_ok_def sample_platform_def hex_text_def)
qed

lemma add_bytes_commute: "add_bytes a b = add_bytes b a"
  unfolding add_bytes_def zip_commute [of a b] by (simp add: comp_def prod.swap_def split_def add.commute)

lemma sample_x25519_ok: "x25519_ok (sample_platform tbl)"
  by (simp add: x25519_ok_def sample_platform_def add_bytes_commute)

section \<open>Form-urlencoding\<close>

definition sample_serialize :: "(string \<times> string) list \<Rightarrow> string" where
  "sample_serialize ps = concat (map (\<lambda>(k, v). hex_text k @ ''='' @ hex_text v @ ''&'') ps)"

function sample_parse :: "string \<Rightarrow> (string \<times> string) list" where
  "sample_parse s =
     (if s = [] then []
      else let k = takeWhile (\<lambda>c. c \<noteq> CHR ''='') s;
               r = drop 1 (dropWhile (\<lambda>c. c \<noteq> CHR ''='') s);
               v = takeWhile (\<lambda>c. c \<noteq> CHR ''&'') r
           in (hex_decode k, hex_decode v) # sample_parse (drop 1 (dropWhile (\<lambda>c. c \<noteq> CHR ''&'') r)))"
  by pat_completeness auto
termination
proof (relation "measure length")
  fix s r :: string
  assume "s \<noteq> []" and r: "r = drop 1 (dropWhile (\<lambda>c. c \<noteq> CHR ''='') s)"
  have "length (dropWhile (\<lambda>c. c \<noteq> CHR ''&'') r) \<le> length r" by (rule length_dropWhile_le)
  moreover have "length (dropWhile (\<lambda>c. c \<noteq> CHR ''='') s) \<le> length s" by (rule length_dropWhile_le)
  moreover have "0 < length s" using \<open>s \<noteq> []\<close> by simp
  moreover have "length r = length (dropWhile (\<lambda>c. c \<noteq> CHR ''='') s) - 1" using r by simp
  ultimately show "(drop 1 (dropWhile (\<lambda>c. c \<noteq> CHR ''&'') r), s) \<in> measure length"
    unfolding in_measure length_drop by linarith
qed simp

declare sample_parse.simps [simp del]

definition sample_env :: uri_env where
  "sample_env = \<lparr>form_parse = sample_parse, form_serialize = sample_serialize,
     uni_lowercase = (\<lambda>s. s), uni_digit = (\<lambda>c. False)\<rparr>"

lemma hex_text_chars: "c \<in> set (hex_text b) \<Longrightarrow> is_hex_lower c"
  unfolding hex_text_def by (rule hex_bytes_lower)

lemma hex_text_no_sep: "CHR ''='' \<notin> set (hex_text b)" "CHR ''&'' \<notin> set (hex_text b)"
  using hex_text_chars by (auto simp: is_hex_lower_def is_digit_def dest!: hex_text_chars)

lemma sample_parse_pair:
  "sample_parse (hex_text k @ ''='' @ hex_text v @ ''&'' @ s) = (k, v) # sample_parse s"
  using hex_text_no_sep [of k] hex_text_no_sep [of v]
  by (subst sample_parse.simps)
     (simp add: takeWhile_append dropWhile_append Let_def takeWhile_eq_all_conv dropWhile_eq_Nil_conv,
      simp add: hex_text_def)

lemma sample_form_ok: "form_ok sample_env"
proof -
  have parse: "sample_parse (sample_serialize ps) = ps" for ps
  proof (induction ps)
    case Nil
    show ?case by (simp add: sample_serialize_def sample_parse.simps)
  next
    case (Cons p ps)
    then show ?case
      using sample_parse_pair [of "fst p" "snd p" "sample_serialize ps"]
      by (simp add: sample_serialize_def split_def)
  qed
  have "list_all (\<lambda>c. 32 \<le> byte_val c \<and> byte_val c < 127) (sample_serialize ps)" for ps
    by (auto simp: sample_serialize_def list_all_iff is_hex_lower_def is_digit_def dest!: hex_text_chars)
  moreover have "ps \<noteq> [] \<Longrightarrow> sample_serialize ps \<noteq> []" for ps
    by (cases ps) (auto simp: sample_serialize_def)
  ultimately show ?thesis
    using parse by (simp add: form_ok_def sample_env_def)
qed

section \<open>The properties of connection URLs at a concrete URI\<close>

definition sample_uri :: v1_uri where
  "sample_uri = \<lparr>session_id = replicate 16 CHR ''A'', key_hash = replicate 16 CHR ''0'',
     shared_key = \<lparr>hk_hex = replicate 32 CHR ''f'', hk_cipher = hex_decode (replicate 32 CHR ''f'')\<rparr>,
     signaling_protocol = Ntfy, signaling_server = ''https://ntfy.sh/''\<rparr>"

lemma sample_uri_valid: "valid_v1 sample_env sample_uri"
proof -
  have "is_hex_lower CHR ''f''" "is_hex_lower CHR ''0''" "is_id_char CHR ''A''"
    by (simp_all add: is_hex_lower_def is_digit_def is_id_char_def)
  moreover have "protocol_from sample_env ''ntfy'' = Ntfy"
    by (simp add: protocol_from_def to_lowercase_def is_ascii_def ascii_lower_def Let_def)
  moreover have "utf8_valid ''https://ntfy.sh/''" "utf8_valid ''ntfy''"
    by (simp_all add: is_ascii_def)
  ultimately show ?thesis
    by (simp add: valid_v1_def sample_uri_def hash_regex_def from_hex_Ok_iff list_all_iff)
qed

theorem connection_url_roundtrip_witness:
  "session_uri_from_url sample_env (to_connection_url sample_env (Version1 sample_uri)) =
     Ok (Version1 sample_uri)"
  using connection_url_roundtrip [OF sample_form_ok sample_uri_valid] by blast

text \<open>The parser accepts the URL of the sample URI.\<close>

theorem from_url_valid_witness:
  "v1_from_url sample_env (v1_to_url sample_env sample_uri) = Ok sample_uri \<and>
   length (session_id sample_uri) = 16 \<and> list_all is_id_char (session_id sample_uri) \<and>
   hash_regex (key_hash sample_uri) \<and>
   from_hex (hk_hex (shared_key sample_uri)) = Ok (shared_key sample_uri) \<and>
   length (hk_cipher (shared_key sample_uri)) = 16"
  using from_url_valid [OF v1_roundtrip [OF sample_form_ok sample_uri_valid]]
    v1_roundtrip [OF sample_form_ok sample_uri_valid] by simp

text \<open>The character \<open>F\<close> of the alphabet stands for exactly four bytes.\<close>

theorem generate_session_id_unbiased_witness:
  "card {b. generate_session_id [b] = [URL_SAFE_ALPHABET ! 5]} = 4"
  using generate_session_id_unbiased [of "[]"] by simp

text \<open>A URL with a session id that is too short is refused without its query.\<close>

theorem from_url_errors_redacted_witness:
  "\<exists>msg \<in> uri_error_texts ''openlv://short@1?[redacted]''.
     v1_from_url sample_env ''openlv://short@1?k=secret'' = Fail (InvalidUri msg)"
proof -
  have "uri_captures sample_env ''openlv://short@1?k=secret'' = None"
    by (simp add: uri_captures_def is_id_char_def is_digit_def Let_def)
  moreover have "\<not> trim_is_empty ''openlv://short@1?k=secret''"
    using not_trim_empty_openlv [of "''short@1?k=secret''"] by simp
  ultimately obtain f where f: "v1_from_url sample_env (''openlv://short@1'' @ ''?'' @ ''k=secret'') = Inl f"
    by (simp add: v1_from_url_def)
  from from_url_errors_redacted [OF _ f] f show ?thesis by simp
qed

end
