(* ===== verification/Handshake.thy ===== *)
theory Handshake
  imports Signaling Instances
begin

text \<open>
  Two signaling layers that talk to each other. An honest host and the client it invited
  exchange the five messages of the handshake and both end encrypted, each with the key and
  the capabilities of the other; a lost final message is sent again; and what one side then
  sends as data the other side hands to its session. The hypotheses are the laws of the
  primitives and that the JSON text of each message reads back.
\<close>

section \<open>Honest parties\<close>

definition platform_ok :: "platform \<Rightarrow> bool" where
  "platform_ok P \<longleftrightarrow> base64_ok P \<and> x25519_ok P \<and>
     aead_ok (aes128_encrypt P) (aes128_decrypt P) \<and> aead_ok (aes256_encrypt P) (aes256_decrypt P)"

text \<open>The JSON text of a message is UTF-8, fits the cipher, and parses to what was printed.\<close>

definition text_ok :: "platform \<Rightarrow> signaling_message \<Rightarrow> bool" where
  "text_ok P m \<longleftrightarrow>
     (let v = signaling_message_to_value m in
      json_parse P (json_print P v) = Inr v \<and> utf8_valid (json_print P v) \<and>
      length (json_print P v) \<le> gcm_limit)"

definition party_props ::
  "platform \<Rightarrow> bool \<Rightarrow> encryption_key \<Rightarrow> handshake_key \<Rightarrow> key_pair \<Rightarrow> peer_capabilities \<Rightarrow> signaling_properties" where
  "party_props P host invited hk kp caps =
     \<lparr>sp_is_host = host, sp_h = hash_public_key P invited, sp_handshake_key = Some hk,
      sp_encryption_key = kp_encryption_key kp, sp_decryption_key = kp_decryption_key kp,
      sp_capabilities = caps\<rparr>"

lemma party_props_simps [simp]:
  "sp_is_host (party_props P host invited hk kp caps) = host"
  "sp_h (party_props P host invited hk kp caps) = hash_public_key P invited"
  "sp_handshake_key (party_props P host invited hk kp caps) = Some hk"
  "sp_encryption_key (party_props P host invited hk kp caps) = kp_encryption_key kp"
  "sp_decryption_key (party_props P host invited hk kp caps) = kp_decryption_key kp"
  "sp_capabilities (party_props P host invited hk kp caps) = caps"
  by (simp_all add: party_props_def)

section \<open>Delivery of one message\<close>

lemma starts_char_base64: "base64_ok P \<Longrightarrow> starts_char (to_base64 P b)"
proof -
  assume "base64_ok P"
  then have "list_all is_ascii (to_base64 P b)" by (simp add: base64_ok_def to_base64_def)
  then show ?thesis by (cases "to_base64 P b") (simp_all add: starts_char_def ascii_not_cont)
qed

lemma message_from_str_text:
  "text_ok P m \<Longrightarrow> message_from_str P (json_print P (signaling_message_to_value m)) = Ok m"
  by (simp add: text_ok_def message_from_str_def Let_def)

lemma received_dispatched:
  assumes "starts_char c" "r = for_role (sp_is_host (props M))"
    "decrypt_frame P M \<lparr>prefix = p, recipient = r, ciphertext = c\<rparr> = Ok plain"
    "message_from_str P plain = Ok m" "validate_message m = Inr ()"
  shows "handle_receive_sync P now M (compose_frame p r c) =
    dispatch P now M \<lparr>prefix = p, recipient = r, ciphertext = c\<rparr> m"
  using assms by (simp add: handle_receive_sync_def parse_compose is_recipient_def)

text \<open>A frame under the shared handshake key reaches the handler of the other side.\<close>

lemma deliver_handshake:
  assumes "platform_ok P" "text_ok P m" "validate_message m = Inr ()" "length rnd = 12"
    "sp_handshake_key (props L) = Some hk" "sp_handshake_key (props M) = Some hk"
    "r = for_role (sp_is_host (props M))"
  obtains c where "message_frame P rnd L Handshake r m = Ok (compose_frame Handshake r c)"
    "\<And>now. handle_receive_sync P now M (compose_frame Handshake r c) =
       dispatch P now M \<lparr>prefix = Handshake, recipient = r, ciphertext = c\<rparr> m"
proof -
  let ?plain = "json_print P (signaling_message_to_value m)"
  from assms have "base64_ok P" "aead_ok (aes128_encrypt P) (aes128_decrypt P)"
      "length rnd = IV_LENGTH" "utf8_valid ?plain" "length ?plain \<le> gcm_limit"
    by (simp_all add: platform_ok_def text_ok_def IV_LENGTH_def Let_def)
  from handshake_roundtrip_gen [OF this, of hk]
  obtain b where b: "handshake_encrypt P rnd hk ?plain = Ok (to_base64 P b)"
      "handshake_decrypt P hk (to_base64 P b) = Ok ?plain" by metis
  show ?thesis
  proof (rule that)
    show "message_frame P rnd L Handshake r m = Ok (compose_frame Handshake r (to_base64 P b))"
      using b assms by (simp add: message_frame_def Let_def)
    show "handle_receive_sync P now M (compose_frame Handshake r (to_base64 P b)) =
       dispatch P now M \<lparr>prefix = Handshake, recipient = r, ciphertext = to_base64 P b\<rparr> m" for now
      using assms b starts_char_base64 message_from_str_text
      by (intro received_dispatched) (auto simp: platform_ok_def decrypt_frame_def)
  qed
qed

text \<open>
  So does a frame under peer encryption, where the receiver knows the sender's key or none
  yet; the ciphertext then names the sender.
\<close>

definition honest_pair :: "platform \<Rightarrow> key_pair \<Rightarrow> key_pair \<Rightarrow> bool" where
  "honest_pair P a b \<longleftrightarrow> is_key_pair P a \<and> is_key_pair P b \<and> contributory_pair P a b"

lemma honest_pair_sym: "x25519_ok P \<Longrightarrow> honest_pair P a b \<Longrightarrow> honest_pair P b a"
  using is_key_pairD [of P a] is_key_pairD [of P b]
  by (simp add: honest_pair_def contributory_pair_def x25519_ok_def)

lemma deliver_encrypted:
  assumes "platform_ok P" "text_ok P m" "validate_message m = Inr ()" "length rnd = 12"
    "honest_pair P a b"
    "sp_decryption_key (props L) = kp_decryption_key a" "relying_key L = Some (kp_encryption_key b)"
    "sp_decryption_key (props M) = kp_decryption_key b"
    "relying_key M = None \<or> relying_key M = Some (kp_encryption_key a)"
    "r = for_role (sp_is_host (props M))"
  obtains c where "message_frame P rnd L Encrypted r m = Ok (compose_frame Encrypted r c)"
    "\<And>now. handle_receive_sync P now M (compose_frame Encrypted r c) =
       dispatch P now M \<lparr>prefix = Encrypted, recipient = r, ciphertext = c\<rparr> m"
    "ek_from_ciphertext P c = Ok (kp_encryption_key a)"
proof -
  let ?plain = "json_print P (signaling_message_to_value m)"
  from assms have P: "base64_ok P" "aead_ok (aes256_encrypt P) (aes256_decrypt P)" "x25519_ok P"
    and kp: "is_key_pair P a" "is_key_pair P b" "contributory_pair P a b"
    and plain: "length rnd = NONCE_BYTES" "utf8_valid ?plain" "length ?plain \<le> gcm_limit"
    by (simp_all add: platform_ok_def text_ok_def honest_pair_def NONCE_BYTES_def Let_def)
  let ?pa = "public_key (kp_encryption_key a)"
  from peer_roundtrip_gen [OF P kp plain assms(9)] obtain ct where
    ct: "peer_encrypt P rnd (kp_decryption_key a) ?plain (kp_encryption_key b) = Ok (to_base64 P (?pa @ rnd @ ct))"
      "peer_decrypt P (kp_decryption_key b) (to_base64 P (?pa @ rnd @ ct)) (relying_key M) = Ok ?plain"
    by metis
  let ?c = "to_base64 P (?pa @ rnd @ ct)"
  show ?thesis
  proof (rule that)
    show "message_frame P rnd L Encrypted r m = Ok (compose_frame Encrypted r ?c)"
      using ct assms by (simp add: message_frame_def Let_def)
    show "handle_receive_sync P now M (compose_frame Encrypted r ?c) =
       dispatch P now M \<lparr>prefix = Encrypted, recipient = r, ciphertext = ?c\<rparr> m" for now
      using assms ct starts_char_base64 [OF P(1)] message_from_str_text
      by (intro received_dispatched) (auto simp: decrypt_frame_def)
    have "length ?pa = 32" by (rule key_pair_public_length [OF P(3) kp(1)])
    then show "ek_from_ciphertext P ?c = Ok (kp_encryption_key a)"
      using parse_own_key [OF P(1,3) kp(1)] is_key_pairD(4) [OF kp(1)] P(1)
      by (simp add: ek_from_ciphertext_def from_base64_to_base64 parse_encryption_key_def PUBLIC_KEY_BYTES_def)
  qed
qed

section \<open>The steps of the handshake\<close>

abbreviation online :: "string \<Rightarrow> unit res" where
  "online \<equiv> (\<lambda>_. Ok ())"

text \<open>What the receive step of a layer does with a payload on a channel that works.\<close>

abbreviation receive :: "platform \<Rightarrow> u64 \<Rightarrow> bytes \<Rightarrow> layer \<Rightarrow> string \<Rightarrow> layer" where
  "receive P now rnd L payload \<equiv> snd (handle_receive P now rnd online L payload)"

text \<open>The fields the handshake is about.\<close>

definition phase ::
  "layer \<Rightarrow> signaling_properties \<Rightarrow> signal_state \<Rightarrow> encryption_key option \<Rightarrow> peer_capabilities option \<Rightarrow> bool" where
  "phase L p st rk pc \<longleftrightarrow> props L = p \<and> sl_state L = st \<and> relying_key L = rk \<and> peer_caps L = pc"

text \<open>A frame that a layer has sent last, and the message in it.\<close>

definition sent_last :: "platform \<Rightarrow> bytes \<Rightarrow> layer \<Rightarrow> wire_prefix \<Rightarrow> wire_recipient \<Rightarrow> signaling_message \<Rightarrow> bool" where
  "sent_last P rnd L p r m \<longleftrightarrow> outbox L \<noteq> [] \<and> message_frame P rnd L p r m = Ok (last (outbox L))"

lemma message_frame_cong:
  "props L' = props L \<Longrightarrow> relying_key L' = relying_key L \<Longrightarrow>
   message_frame P rnd L' p r m = message_frame P rnd L p r m"
  by (simp add: message_frame_def cong: wire_prefix.case_cong)

lemma send_repeating_sent:
  assumes "message_frame P rnd L p r m = Ok f"
  shows "send_repeating P rnd online L p r m =
      (Ok (), start_repeating p r m ((stop_repeating L)\<lparr>outbox := outbox L @ [f]\<rparr>))"
    "sent_last P rnd (snd (send_repeating P rnd online L p r m)) p r m"
proof -
  have "message_frame P rnd (stop_repeating L) p r m = Ok f"
    using assms by (simp add: message_frame_cong [of "stop_repeating L" L])
  then show *: "send_repeating P rnd online L p r m =
      (Ok (), start_repeating p r m ((stop_repeating L)\<lparr>outbox := outbox L @ [f]\<rparr>))"
    by (simp add: send_repeating_def send_message_def)
  show "sent_last P rnd (snd (send_repeating P rnd online L p r m)) p r m"
    using assms unfolding * sent_last_def
    by (simp add: message_frame_cong [of "start_repeating p r m ((stop_repeating L)\<lparr>outbox := outbox L @ [f]\<rparr>)" L])
qed

lemma send_message_sent:
  assumes "message_frame P rnd L p r m = Ok f"
  shows "send_message P rnd online L p r m = (Ok (), L\<lparr>outbox := outbox L @ [f]\<rparr>)"
    "sent_last P rnd (snd (send_message P rnd online L p r m)) p r m"
  using assms message_frame_cong [of "L\<lparr>outbox := outbox L @ [f]\<rparr>" L]
  by (simp_all add: send_message_def sent_last_def)

lemma receive_repeating:
  assumes "handle_receive_sync P now L f = (L1, Send_repeating p r m)"
    "message_frame P rnd L1 p r m = Ok g"
  shows "fst (handle_receive P now rnd online L f) = Ok ()"
    "phase (receive P now rnd L f) (props L1) (sl_state L1) (relying_key L1) (peer_caps L1)"
    "sent_last P rnd (receive P now rnd L f) p r m"
    "\<exists>i. live_tasks (receive P now rnd L f) i = Some (Resend p r m)"
  using assms send_repeating_sent [OF assms(2)]
  by (simp_all add: handle_receive_def run_action_def phase_def)
     (auto simp: start_repeating_def spawn_task_def)

lemma receive_sending:
  assumes "handle_receive_sync P now L f = (L1, Send_message p r m)"
    "message_frame P rnd L1 p r m = Ok g"
  shows "fst (handle_receive P now rnd online L f) = Ok ()"
    "phase (receive P now rnd L f) (props L1) (sl_state L1) (relying_key L1) (peer_caps L1)"
    "sent_last P rnd (receive P now rnd L f) p r m"
  using assms send_message_sent [OF assms(2)]
  by (simp_all add: handle_receive_def run_action_def phase_def)

definition session_ok ::
  "platform \<Rightarrow> key_pair \<Rightarrow> key_pair \<Rightarrow> peer_capabilities \<Rightarrow> peer_capabilities \<Rightarrow> bool" where
  "session_ok P kh kc hcaps ccaps \<longleftrightarrow> platform_ok P \<and> honest_pair P kh kc \<and>
     validate_capabilities hcaps = Inr () \<and> validate_capabilities ccaps = Inr ()"

abbreviation host_props where
  "host_props P hk kh hcaps \<equiv> party_props P True (kp_encryption_key kh) hk kh hcaps"

abbreviation client_props where
  "client_props P hk kh kc ccaps \<equiv> party_props P False (kp_encryption_key kh) hk kc ccaps"

abbreviation key_message where
  "key_message kp now \<equiv> Pubkey \<lparr>public_key_text = ek_serialized (kp_encryption_key kp)\<rparr> now"

lemma session_okD:
  assumes "session_ok P kh kc hcaps ccaps"
  shows "platform_ok P" "honest_pair P kh kc" "honest_pair P kc kh"
    "validate_capabilities hcaps = Inr ()" "validate_capabilities ccaps = Inr ()"
  using assms honest_pair_sym [of P kh kc] by (simp_all add: session_ok_def platform_ok_def)

lemma key_message_valid:
  assumes "platform_ok P" "is_key_pair P kp"
  shows "validate_message (key_message kp now) = Inr ()"
    "parse_encryption_key P (ek_serialized (kp_encryption_key kp)) = Ok (kp_encryption_key kp)"
proof -
  have b: "base64_ok P" "x25519_ok P" using assms(1) by (simp_all add: platform_ok_def)
  have "ek_serialized (kp_encryption_key kp) \<noteq> []"
    unfolding is_key_pairD(4) [OF assms(2)] to_base64_Nil_iff [OF b(1)]
    using key_pair_public_length [OF b(2) assms(2)] by force
  then show "validate_message (key_message kp now) = Inr ()" by simp
  show "parse_encryption_key P (ek_serialized (kp_encryption_key kp)) = Ok (kp_encryption_key kp)"
    by (rule parse_own_key [OF b assms(2)])
qed

text \<open>The client's setup sends its flash.\<close>

lemma client_setup:
  assumes "session_ok P kh kc hcaps ccaps" "text_ok P (flash_message now)" "length rnd = 12"
    and "C = new_layer ct (client_props P hk kh kc ccaps)"
    and "C' = snd (layer_setup P now rnd online (Ok ()) (Ok ()) C)"
  shows "phase C' (client_props P hk kh kc ccaps) S_Handshake None None \<and>
    sent_last P rnd C' Handshake Host (flash_message now)"
proof -
  let ?M = "new_layer ct (host_props P hk kh hcaps)"
  let ?L = "start_handshake_deadline (set_state S_Handshake (set_state S_Ready (set_state S_Connecting C)))"
  have p: "props C = client_props P hk kh kc ccaps" "relying_key C = None" "peer_caps C = None"
    using assms(4) by (simp_all add: new_layer_def)
  obtain c where "message_frame P rnd ?L Handshake Host (flash_message now) = Ok (compose_frame Handshake Host c)"
    by (rule deliver_handshake [OF session_okD(1) [OF assms(1)] assms(2) _ assms(3), of ?L hk ?M])
       (use p in \<open>simp_all add: flash_message_def new_layer_def for_role_def\<close>)
  from send_repeating_sent [OF this] show ?thesis
    using assms(5) p by (simp add: layer_setup_def setup_tail_def run_action_def can_encrypt_def phase_def Let_def)
qed

lemma host_setup:
  assumes "H = new_layer ct (host_props P hk kh hcaps)"
  shows "phase (snd (layer_setup P now rnd online (Ok ()) (Ok ()) H)) (host_props P hk kh hcaps) S_Ready None None"
  using assms by (simp add: layer_setup_def setup_tail_def run_action_def can_encrypt_def phase_def new_layer_def Let_def)

text \<open>The host answers the flash with its key.\<close>

lemma host_answers_flash:
  assumes ok: "session_ok P kh kc hcaps ccaps" "text_ok P (flash_message t0)" "text_ok P (key_message kh t1)"
      "length n0 = 12" "length n1 = 12"
    and H: "phase H (host_props P hk kh hcaps) S_Ready None None"
    and C: "props C = client_props P hk kh kc ccaps" "sent_last P n0 C Handshake Host (flash_message t0)"
    and H': "H' = receive P t1 n1 H (last (outbox C))"
  shows "phase H' (host_props P hk kh hcaps) S_Handshake None None \<and>
    sent_last P n1 H' Handshake Client (key_message kh t1)"
proof -
  note P = session_okD(1) [OF ok(1)]
  let ?L = "start_handshake_deadline (set_state S_Handshake H)"
  obtain c where c: "message_frame P n0 C Handshake Host (flash_message t0) = Ok (compose_frame Handshake Host c)"
      "\<And>now. handle_receive_sync P now H (compose_frame Handshake Host c) =
         dispatch P now H \<lparr>prefix = Handshake, recipient = Host, ciphertext = c\<rparr> (flash_message t0)"
    by (rule deliver_handshake [OF P ok(2) _ ok(4), of C hk H])
       (use H C in \<open>auto simp: flash_message_def phase_def for_role_def\<close>)
  then have f: "last (outbox C) = compose_frame Handshake Host c" using C(2) by (simp add: sent_last_def)
  have sync: "handle_receive_sync P t1 H (last (outbox C)) =
      (?L, Send_repeating Handshake Client (key_message kh t1))"
    using H unfolding f c(2)
    by (simp add: dispatch_def flash_message_def phase_def on_flash_def pubkey_message_def Let_def)
  have "is_key_pair P kh" using session_okD(2) [OF ok(1)] by (simp add: honest_pair_def)
  note valid = key_message_valid(1) [OF P this]
  obtain d where "message_frame P n1 ?L Handshake Client (key_message kh t1) = Ok (compose_frame Handshake Client d)"
    by (rule deliver_handshake [OF P ok(3) valid ok(5), of ?L hk C])
       (use H C in \<open>auto simp: phase_def for_role_def\<close>)
  from receive_repeating(2,3) [OF sync this] show ?thesis
    using H H' by (simp add: phase_def)
qed

text \<open>The client checks the host's key and answers with its own.\<close>

lemma client_answers_key:
  assumes ok: "session_ok P kh kc hcaps ccaps" "text_ok P (key_message kh t1)" "text_ok P (key_message kc t2)"
      "length n1 = 12" "length n2 = 12"
    and C: "phase C (client_props P hk kh kc ccaps) S_Handshake None None"
    and H: "props H = host_props P hk kh hcaps" "relying_key H = None"
      "sent_last P n1 H Handshake Client (key_message kh t1)"
    and C': "C' = receive P t2 n2 C (last (outbox H))"
  shows "phase C' (client_props P hk kh kc ccaps) S_HandshakePartial (Some (kp_encryption_key kh)) None \<and>
    sent_last P n2 C' Encrypted Host (key_message kc t2)"
proof -
  note P = session_okD(1) [OF ok(1)] and pair = session_okD(3) [OF ok(1)]
  from pair have kp: "is_key_pair P kh" "is_key_pair P kc" by (simp_all add: honest_pair_def)
  let ?L = "set_state S_HandshakePartial (C\<lparr>relying_key := Some (kp_encryption_key kh)\<rparr>)"
  obtain c where c: "message_frame P n1 H Handshake Client (key_message kh t1) = Ok (compose_frame Handshake Client c)"
      "\<And>now. handle_receive_sync P now C (compose_frame Handshake Client c) =
         dispatch P now C \<lparr>prefix = Handshake, recipient = Client, ciphertext = c\<rparr> (key_message kh t1)"
    by (rule deliver_handshake [OF P ok(2) key_message_valid(1) [OF P kp(1)] ok(4), of H hk C])
       (use H C in \<open>auto simp: phase_def for_role_def\<close>)
  then have f: "last (outbox H) = compose_frame Handshake Client c" using H(3) by (simp add: sent_last_def)
  have sync: "handle_receive_sync P t2 C (last (outbox H)) =
      (?L, Send_repeating Encrypted Host (key_message kc t2))"
    using C key_message_valid(2) [OF P kp(1)] unfolding f c(2)
    by (simp add: dispatch_def phase_def on_host_pubkey_def validate_public_key_hash_def
        store_relying_key_def pubkey_message_def Let_def)
  obtain d where "message_frame P n2 ?L Encrypted Host (key_message kc t2) = Ok (compose_frame Encrypted Host d)"
    by (rule deliver_encrypted [OF P ok(3) key_message_valid(1) [OF P kp(2)] ok(5) pair, of ?L H])
       (use H C in \<open>auto simp: phase_def for_role_def\<close>)
  from receive_repeating(2,3) [OF sync this] show ?thesis
    using C C' by (simp add: phase_def)
qed

text \<open>The host records the client's key and answers with its capabilities.\<close>

lemma host_answers_key:
  assumes ok: "session_ok P kh kc hcaps ccaps" "text_ok P (key_message kc t2)" "text_ok P (Capabilities hcaps t3)"
      "length n2 = 12" "length n3 = 12"
    and H: "phase H (host_props P hk kh hcaps) S_Handshake None None"
    and C: "props C = client_props P hk kh kc ccaps" "relying_key C = Some (kp_encryption_key kh)"
      "sent_last P n2 C Encrypted Host (key_message kc t2)"
    and H': "H' = receive P t3 n3 H (last (outbox C))"
  shows "phase H' (host_props P hk kh hcaps) S_HandshakePartial (Some (kp_encryption_key kc)) None \<and>
    sent_last P n3 H' Encrypted Client (Capabilities hcaps t3)"
proof -
  note P = session_okD(1) [OF ok(1)] and pair = session_okD(2,3) [OF ok(1)]
  from pair have kp: "is_key_pair P kh" "is_key_pair P kc" by (simp_all add: honest_pair_def)
  let ?L = "set_state S_HandshakePartial (H\<lparr>relying_key := Some (kp_encryption_key kc)\<rparr>)"
  obtain c where c: "message_frame P n2 C Encrypted Host (key_message kc t2) = Ok (compose_frame Encrypted Host c)"
      "\<And>now. handle_receive_sync P now H (compose_frame Encrypted Host c) =
         dispatch P now H \<lparr>prefix = Encrypted, recipient = Host, ciphertext = c\<rparr> (key_message kc t2)"
      "ek_from_ciphertext P c = Ok (kp_encryption_key kc)"
    by (rule deliver_encrypted [OF P ok(2) key_message_valid(1) [OF P kp(2)] ok(4) pair(2), of C H])
       (use H C in \<open>auto simp: phase_def for_role_def\<close>)
  then have f: "last (outbox C) = compose_frame Encrypted Host c" using C(3) by (simp add: sent_last_def)
  have sync: "handle_receive_sync P t3 H (last (outbox C)) =
      (?L, Send_repeating Encrypted Client (Capabilities hcaps t3))"
    using H key_message_valid(2) [OF P kp(2)] c(3) unfolding f c(2)
    by (simp add: dispatch_def phase_def on_client_pubkey_def store_relying_key_def
        capabilities_message_def Let_def)
  obtain d where "message_frame P n3 ?L Encrypted Client (Capabilities hcaps t3) = Ok (compose_frame Encrypted Client d)"
    by (rule deliver_encrypted [OF P ok(3) _ ok(5) pair(1), of ?L C])
       (use H C session_okD [OF ok(1)] in \<open>auto simp: phase_def for_role_def\<close>)
  from receive_repeating(2,3) [OF sync this] show ?thesis
    using H H' by (simp add: phase_def)
qed

text \<open>The client is done at the host's capabilities and echoes its own, however often asked.\<close>

lemma client_answers_capabilities:
  assumes ok: "session_ok P kh kc hcaps ccaps" "text_ok P (Capabilities hcaps t3)" "text_ok P (Capabilities ccaps t4)"
      "length n3 = 12" "length n4 = 12"
    and C: "phase C (client_props P hk kh kc ccaps) S_HandshakePartial (Some (kp_encryption_key kh)) None \<or>
      phase C (client_props P hk kh kc ccaps) S_Encrypted (Some (kp_encryption_key kh)) (Some hcaps)"
    and H: "props H = host_props P hk kh hcaps" "relying_key H = Some (kp_encryption_key kc)"
      "sent_last P n3 H Encrypted Client (Capabilities hcaps t3)"
    and C': "C' = receive P t4 n4 C (last (outbox H))"
  shows "phase C' (client_props P hk kh kc ccaps) S_Encrypted (Some (kp_encryption_key kh)) (Some hcaps) \<and>
    sent_last P n4 C' Encrypted Host (Capabilities ccaps t4)"
proof -
  note P = session_okD(1) [OF ok(1)] and pair = session_okD(2,3) [OF ok(1)]
  let ?L = "if sl_state C = S_Encrypted then C else set_state S_Encrypted (store_peer_capabilities hcaps C)"
  have L: "phase ?L (client_props P hk kh kc ccaps) S_Encrypted (Some (kp_encryption_key kh)) (Some hcaps)"
    using C by (auto simp: phase_def)
  obtain c where c: "message_frame P n3 H Encrypted Client (Capabilities hcaps t3) = Ok (compose_frame Encrypted Client c)"
      "\<And>now. handle_receive_sync P now C (compose_frame Encrypted Client c) =
         dispatch P now C \<lparr>prefix = Encrypted, recipient = Client, ciphertext = c\<rparr> (Capabilities hcaps t3)"
    by (rule deliver_encrypted [OF P ok(2) _ ok(4) pair(1), of H C])
       (use H C session_okD [OF ok(1)] in \<open>auto simp: phase_def for_role_def\<close>)
  then have f: "last (outbox H) = compose_frame Encrypted Client c" using H(3) by (simp add: sent_last_def)
  have sync: "handle_receive_sync P t4 C (last (outbox H)) =
      (?L, Send_message Encrypted Host (Capabilities ccaps t4))"
    using C unfolding f c(2)
    by (auto simp: dispatch_def phase_def on_capabilities_def capabilities_message_def Let_def)
  obtain d where "message_frame P n4 ?L Encrypted Host (Capabilities ccaps t4) = Ok (compose_frame Encrypted Host d)"
    by (rule deliver_encrypted [OF P ok(3) _ ok(5) pair(2), of ?L H])
       (use H C session_okD [OF ok(1)] in \<open>auto simp: phase_def for_role_def\<close>)
  from receive_sending(2,3) [OF sync this] show ?thesis
    using L C' by (simp add: phase_def)
qed

text \<open>The host is done at the client's capabilities.\<close>

lemma host_finishes:
  assumes ok: "session_ok P kh kc hcaps ccaps" "text_ok P (Capabilities ccaps t4)" "length n4 = 12"
    and H: "phase H (host_props P hk kh hcaps) S_HandshakePartial (Some (kp_encryption_key kc)) None"
    and C: "props C = client_props P hk kh kc ccaps" "relying_key C = Some (kp_encryption_key kh)"
      "sent_last P n4 C Encrypted Host (Capabilities ccaps t4)"
    and H': "H' = receive P t5 n5 H (last (outbox C))"
  shows "phase H' (host_props P hk kh hcaps) S_Encrypted (Some (kp_encryption_key kc)) (Some ccaps)"
proof -
  note P = session_okD(1) [OF ok(1)] and pair = session_okD(3) [OF ok(1)]
  obtain c where c: "message_frame P n4 C Encrypted Host (Capabilities ccaps t4) = Ok (compose_frame Encrypted Host c)"
      "\<And>now. handle_receive_sync P now H (compose_frame Encrypted Host c) =
         dispatch P now H \<lparr>prefix = Encrypted, recipient = Host, ciphertext = c\<rparr> (Capabilities ccaps t4)"
    by (rule deliver_encrypted [OF P ok(2) _ ok(3) pair, of C H])
       (use H C session_okD [OF ok(1)] in \<open>auto simp: phase_def for_role_def\<close>)
  then have f: "last (outbox C) = compose_frame Encrypted Host c" using C(3) by (simp add: sent_last_def)
  show ?thesis
    using H H' unfolding f
    by (simp add: handle_receive_def c(2) run_action_def dispatch_def phase_def on_capabilities_def Let_def)
qed

section \<open>The whole handshake\<close>

text \<open>
  Both sides set up, then every frame reaches the other side once. Message \<open>i\<close> is sent at
  time \<open>t i\<close> with the random bytes \<open>n i\<close>.
\<close>

definition handshake_run ::
  "platform \<Rightarrow> (nat \<Rightarrow> u64) \<Rightarrow> (nat \<Rightarrow> bytes) \<Rightarrow> layer \<Rightarrow> layer \<Rightarrow> layer \<times> layer" where
  "handshake_run P t n H C =
     (let H1 = snd (layer_setup P (t 0) (n 0) online (Ok ()) (Ok ()) H);
          C1 = snd (layer_setup P (t 0) (n 0) online (Ok ()) (Ok ()) C);
          H2 = receive P (t 1) (n 1) H1 (last (outbox C1));
          C2 = receive P (t 2) (n 2) C1 (last (outbox H2));
          H3 = receive P (t 3) (n 3) H2 (last (outbox C2));
          C3 = receive P (t 4) (n 4) C2 (last (outbox H3));
          H4 = receive P (t 5) (n 5) H3 (last (outbox C3))
      in (H4, C3))"

definition handshake_messages ::
  "key_pair \<Rightarrow> key_pair \<Rightarrow> peer_capabilities \<Rightarrow> peer_capabilities \<Rightarrow> (nat \<Rightarrow> u64) \<Rightarrow> signaling_message list" where
  "handshake_messages kh kc hcaps ccaps t =
     [flash_message (t 0), key_message kh (t 1), key_message kc (t 2),
      Capabilities hcaps (t 3), Capabilities ccaps (t 4)]"

text \<open>The stages of the run, and the frame each side has sent last.\<close>

lemma handshake_stages:
  fixes hk :: handshake_key and ct ct' :: string
  assumes ok: "session_ok P kh kc hcaps ccaps"
    and texts: "list_all (text_ok P) (handshake_messages kh kc hcaps ccaps t)"
    and n: "\<And>i. length (n i) = 12"
  defines "hp \<equiv> host_props P hk kh hcaps" and "cp \<equiv> client_props P hk kh kc ccaps"
  defines "H1 \<equiv> snd (layer_setup P (t 0) (n 0) online (Ok ()) (Ok ()) (new_layer ct hp))"
  defines "C1 \<equiv> snd (layer_setup P (t 0) (n 0) online (Ok ()) (Ok ()) (new_layer ct' cp))"
  defines "H2 \<equiv> receive P (t 1) (n 1) H1 (last (outbox C1))"
  defines "C2 \<equiv> receive P (t 2) (n 2) C1 (last (outbox H2))"
  defines "H3 \<equiv> receive P (t 3) (n 3) H2 (last (outbox C2))"
  defines "C3 \<equiv> receive P (t 4) (n 4) C2 (last (outbox H3))"
  defines "H4 \<equiv> receive P (t 5) (n 5) H3 (last (outbox C3))"
  shows "phase H4 hp S_Encrypted (Some (kp_encryption_key kc)) (Some ccaps)"
    "phase C3 cp S_Encrypted (Some (kp_encryption_key kh)) (Some hcaps)"
    "outbox C1 \<noteq> []" "outbox H2 \<noteq> []" "outbox C2 \<noteq> []" "outbox H3 \<noteq> []" "outbox C3 \<noteq> []"
proof -
  have tx: "text_ok P (flash_message (t 0))" "text_ok P (key_message kh (t 1))"
      "text_ok P (key_message kc (t 2))" "text_ok P (Capabilities hcaps (t 3))"
      "text_ok P (Capabilities ccaps (t 4))"
    using texts by (simp_all add: handshake_messages_def)
  have h1: "phase H1 hp S_Ready None None"
    unfolding H1_def hp_def by (rule host_setup [OF refl])
  note c1 = client_setup [OF ok tx(1) n refl C1_def [THEN meta_eq_to_obj_eq, unfolded cp_def], folded cp_def]
  have h2: "phase H2 hp S_Handshake None None" "sent_last P (n 1) H2 Handshake Client (key_message kh (t 1))"
    using host_answers_flash [OF ok tx(1,2) n n h1 [unfolded hp_def] _ c1 [THEN conjunct2] H2_def [THEN meta_eq_to_obj_eq]] c1
    by (simp_all add: phase_def hp_def cp_def)
  have c2: "phase C2 cp S_HandshakePartial (Some (kp_encryption_key kh)) None"
      "sent_last P (n 2) C2 Encrypted Host (key_message kc (t 2))"
    using client_answers_key [OF ok tx(2,3) n n c1 [THEN conjunct1, unfolded cp_def] _ _ h2(2) C2_def [THEN meta_eq_to_obj_eq]] h2(1)
    by (simp_all add: phase_def hp_def cp_def)
  have h3: "phase H3 hp S_HandshakePartial (Some (kp_encryption_key kc)) None"
      "sent_last P (n 3) H3 Encrypted Client (Capabilities hcaps (t 3))"
    using host_answers_key [OF ok tx(3,4) n n h2(1) [unfolded hp_def] _ _ c2(2) H3_def [THEN meta_eq_to_obj_eq]] c2(1)
    by (simp_all add: phase_def hp_def cp_def)
  have c3: "phase C3 cp S_Encrypted (Some (kp_encryption_key kh)) (Some hcaps)"
      "sent_last P (n 4) C3 Encrypted Host (Capabilities ccaps (t 4))"
    using client_answers_capabilities [OF ok tx(4,5) n n disjI1 [OF c2(1) [unfolded cp_def]] _ _ h3(2) C3_def [THEN meta_eq_to_obj_eq]] h3(1)
    by (simp_all add: phase_def hp_def cp_def)
  show "phase H4 hp S_Encrypted (Some (kp_encryption_key kc)) (Some ccaps)"
    using host_finishes [OF ok tx(5) n h3(1) [unfolded hp_def] _ _ c3(2) H4_def [THEN meta_eq_to_obj_eq]] c3(1)
    by (simp add: phase_def hp_def cp_def)
  show "phase C3 cp S_Encrypted (Some (kp_encryption_key kh)) (Some hcaps)" by (rule c3)
  show "outbox C1 \<noteq> []" "outbox H2 \<noteq> []" "outbox C2 \<noteq> []" "outbox H3 \<noteq> []" "outbox C3 \<noteq> []"
    using c1 h2 c2 h3 c3 by (simp_all add: sent_last_def)
qed

lemma handshake_run_ends:
  assumes "session_ok P kh kc hcaps ccaps" "list_all (text_ok P) (handshake_messages kh kc hcaps ccaps t)"
    "\<And>i. length (n i) = 12"
    and run: "handshake_run P t n (new_layer ct (host_props P hk kh hcaps))
        (new_layer ct' (client_props P hk kh kc ccaps)) = (H, C)"
  shows "phase H (host_props P hk kh hcaps) S_Encrypted (Some (kp_encryption_key kc)) (Some ccaps) \<and>
    phase C (client_props P hk kh kc ccaps) S_Encrypted (Some (kp_encryption_key kh)) (Some hcaps)"
  using handshake_stages(1,2) [where hk = hk and ct = ct and ct' = ct', OF assms(1-3)] run
  by (auto simp: handshake_run_def Let_def simp del: One_nat_def)

lemma new_layer_fresh [simp]: "reachable fresh_layer (layer_step P) (new_layer ct p)"
  by (rule reach_init) blast

lemma reachable_receive:
  "reachable fresh_layer (layer_step P) L \<Longrightarrow>
   reachable fresh_layer (layer_step P) (snd (handle_receive P now rnd pub L f))"
  by (erule reach_step) (rule step_receive)

lemma reachable_setup:
  "reachable fresh_layer (layer_step P) (snd (layer_setup P now rnd pub a b (new_layer ct p)))"
  by (rule reach_step [OF new_layer_fresh], rule step_setup) (simp add: new_layer_def)

lemma handshake_run_reachable:
  assumes "handshake_run P t n (new_layer ct p) (new_layer ct' p') = (H, C)"
  shows "reachable fresh_layer (layer_step P) H" "reachable fresh_layer (layer_step P) C"
  using assms by (auto simp: handshake_run_def Let_def intro!: reachable_receive reachable_setup)

text \<open>
  The handshake works: when an honest host and a client with its URL exchange their
  frames, both end encrypted, each holding the other's public key and capabilities, and
  neither keeps a background task.
\<close>

theorem handshake_completes:
  assumes "session_ok P kh kc hcaps ccaps"
    and "list_all (text_ok P) (handshake_messages kh kc hcaps ccaps t)" "\<And>i. length (n i) = 12"
    and "handshake_run P t n (new_layer ct (host_props P hk kh hcaps))
        (new_layer ct' (client_props P hk kh kc ccaps)) = (H, C)"
  shows "sl_state H = S_Encrypted \<and> sl_state C = S_Encrypted \<and>
    relying_key H = Some (kp_encryption_key kc) \<and> relying_key C = Some (kp_encryption_key kh) \<and>
    peer_caps H = Some ccaps \<and> peer_caps C = Some hcaps \<and>
    live_tasks H = Map.empty \<and> live_tasks C = Map.empty"
proof -
  note ends = handshake_run_ends [OF assms, unfolded phase_def]
  have "live_tasks H = Map.empty" "live_tasks C = Map.empty"
    using ends by (simp_all add: reachable_quiet [OF handshake_run_reachable(1) [OF assms(4)]]
        reachable_quiet [OF handshake_run_reachable(2) [OF assms(4)]])
  with ends show ?thesis by blast
qed

section \<open>Lost messages\<close>

lemma resend_sent:
  assumes "live_tasks L i = Some (Resend p r m)" "message_frame P rnd L p r m = Ok f"
  shows "sent_last P rnd (resend P rnd online i L) p r m"
    "phase (resend P rnd online i L) (props L) (sl_state L) (relying_key L) (peer_caps L)"
  using assms send_message_sent [OF assms(2)] by (simp_all add: resend_def phase_def)

text \<open>
  C15. The loss of the client's last frame is repaired: while the host waits for the client's
  capabilities its task sends its own again, the client, already encrypted, answers again,
  and that answer completes the host.
\<close>

theorem lost_final_frame_recovered:
  assumes ok: "session_ok P kh kc hcaps ccaps" "text_ok P (Capabilities hcaps t3)" "text_ok P (Capabilities ccaps t4)"
      "length n3 = 12" "length n4 = 12"
    and H: "props H = host_props P hk kh hcaps" "sl_state H = S_HandshakePartial"
      "relying_key H = Some (kp_encryption_key kc)" "peer_caps H = None"
      "live_tasks H i = Some (Resend Encrypted Client (Capabilities hcaps t3))"
    and C: "props C = client_props P hk kh kc ccaps" "sl_state C = S_Encrypted"
      "relying_key C = Some (kp_encryption_key kh)" "peer_caps C = Some hcaps"
    and H1: "H1 = resend P n3 online i H"
    and C1: "C1 = snd (handle_receive P t4 n4 online C (last (outbox H1)))"
    and H2: "H2 = snd (handle_receive P t5 n5 online H1 (last (outbox C1)))"
  shows "sl_state H2 = S_Encrypted \<and> peer_caps H2 = Some ccaps \<and> sl_state C1 = S_Encrypted"
proof -
  note P = session_okD(1) [OF ok(1)] and pair = session_okD(2,3) [OF ok(1)]
  obtain c where "message_frame P n3 H Encrypted Client (Capabilities hcaps t3) = Ok (compose_frame Encrypted Client c)"
    by (rule deliver_encrypted [OF P ok(2) _ ok(4) pair(1), of H C])
       (use H C session_okD [OF ok(1)] in \<open>auto simp: for_role_def\<close>)
  note h1 = resend_sent [OF H(5) this, folded H1]
  have "phase C (client_props P hk kh kc ccaps) S_Encrypted (Some (kp_encryption_key kh)) (Some hcaps)"
    using C by (simp add: phase_def)
  from client_answers_capabilities [OF ok disjI2 [OF this] _ _ h1(1) C1] h1(2) H
  have c1: "phase C1 (client_props P hk kh kc ccaps) S_Encrypted (Some (kp_encryption_key kh)) (Some hcaps)"
      "sent_last P n4 C1 Encrypted Host (Capabilities ccaps t4)"
    by (simp_all add: phase_def)
  have "phase H1 (host_props P hk kh hcaps) S_HandshakePartial (Some (kp_encryption_key kc)) None"
    using h1(2) H by (simp add: phase_def)
  from host_finishes [OF ok(1,3,5) this _ _ c1(2) H2] c1(1) show ?thesis by (simp add: phase_def)
qed

section \<open>Data\<close>

lemma data_delivered:
  assumes "platform_ok P" "honest_pair P a b" "text_ok P (Data v now)" "is_object v" "length n = 12"
    and "sp_decryption_key (props L) = kp_decryption_key a" "relying_key L = Some (kp_encryption_key b)"
    and "sp_decryption_key (props M) = kp_decryption_key b" "relying_key M = Some (kp_encryption_key a)"
      "sl_state M = S_Encrypted" "sp_is_host (props M) \<noteq> sp_is_host (props L)"
    and "L' = snd (layer_send P now n online L v)"
  shows "fst (layer_send P now n online L v) = Ok () \<and>
    handle_receive P now' n' online M (last (outbox L')) =
      (Ok (), M\<lparr>message_tx := message_tx M @ [v]\<rparr>)"
proof -
  have r: "remote_recipient L = for_role (sp_is_host (props M))"
    using assms(11) by (auto simp: remote_recipient_def for_role_def)
  obtain c where c: "message_frame P n L Encrypted (remote_recipient L) (Data v now) =
        Ok (compose_frame Encrypted (remote_recipient L) c)"
      "\<And>now'. handle_receive_sync P now' M (compose_frame Encrypted (remote_recipient L) c) =
         dispatch P now' M \<lparr>prefix = Encrypted, recipient = remote_recipient L, ciphertext = c\<rparr> (Data v now)"
    by (rule deliver_encrypted [OF assms(1,3) _ assms(5,2), of L M "remote_recipient L"])
       (use assms r in auto)
  then have "layer_send P now n online L v = (Ok (), L\<lparr>outbox := outbox L @ [compose_frame Encrypted (remote_recipient L) c]\<rparr>)"
    using assms(7) send_message_sent(1) [OF c(1)] by (simp add: layer_send_def can_encrypt_def)
  then show ?thesis
    using assms(10,12) by (simp add: handle_receive_def c(2) dispatch_def run_action_def)
qed

text \<open>
  C16. After the handshake an application payload arrives as it was sent: the frame that
  \<open>send\<close> publishes makes the other side hand exactly that JSON object to its session, and
  changes nothing else there.
\<close>

theorem data_roundtrip:
  assumes "platform_ok P" "honest_pair P a b" "text_ok P (Data v now)" "is_object v" "length n = 12"
    and "sp_decryption_key (props L) = kp_decryption_key a" "relying_key L = Some (kp_encryption_key b)"
    and "sp_decryption_key (props M) = kp_decryption_key b" "relying_key M = Some (kp_encryption_key a)"
      "sl_state M = S_Encrypted" "sp_is_host (props M) \<noteq> sp_is_host (props L)"
    and "L' = snd (layer_send P now n online L v)"
  shows "fst (layer_send P now n online L v) = Ok () \<and>
    handle_receive P now' n' online M (last (outbox L')) =
      (Ok (), M\<lparr>message_tx := message_tx M @ [v]\<rparr>)"
  using assms by (rule data_delivered)

end
