(* ===== verification/Scenario.thy ===== *)
theory Scenario
  imports Handshake
begin

text \<open>
  A concrete session over the sample primitives: a host, the client it invites, and the
  texts of their messages. It shows that the hypotheses of the signaling theorems hold
  together, and what the theorems say there.
\<close>

section \<open>Two parties\<close>

definition sample_pair :: "char \<Rightarrow> key_pair" where
  "sample_pair c =
     \<lparr>kp_encryption_key = \<lparr>public_key = replicate 32 c, ek_serialized = hex_text (replicate 32 c)\<rparr>,
      kp_decryption_key = \<lparr>secret_key = replicate 32 c, own_public_key = replicate 32 c,
        dk_serialized = hex_text (replicate 32 c)\<rparr>\<rparr>"

abbreviation KH :: key_pair where "KH \<equiv> sample_pair CHR ''h''"
abbreviation KC :: key_pair where "KC \<equiv> sample_pair CHR ''c''"

definition sample_caps :: peer_capabilities where
  "sample_caps = \<lparr>transports = [''wrtc''], info = None\<rparr>"

definition sample_key :: handshake_key where
  "sample_key = \<lparr>hk_hex = replicate 32 CHR ''f'', hk_cipher = hex_decode (replicate 32 CHR ''f'')\<rparr>"

abbreviation sample_time :: "nat \<Rightarrow> u64" where "sample_time i \<equiv> of_nat i"

abbreviation sample_nonce :: "nat \<Rightarrow> bytes" where "sample_nonce i \<equiv> replicate 12 CHR ''n''"

definition sample_messages :: "signaling_message list" where
  "sample_messages = handshake_messages KH KC sample_caps sample_caps sample_time @ [Data (obj []) 9]"

definition sample_table :: "(json \<times> string) list" where
  "sample_table = zip (map signaling_message_to_value sample_messages)
     [''0'', ''1'', ''2'', ''3'', ''4'', ''5'']"

abbreviation SP :: platform where "SP \<equiv> sample_platform sample_table"

lemma sample_platform_ok: "platform_ok (sample_platform tbl)"
  using sample_base64_ok [of tbl] sample_x25519_ok [of tbl] sample_aead_ok
  by (simp add: platform_ok_def) (simp add: sample_platform_def)

lemma sample_pair_ok: "is_key_pair (sample_platform tbl) (sample_pair c)"
proof -
  have "generate_key_pair (sample_platform tbl) (replicate 32 c) = Ok (sample_pair c)"
    by (simp add: generate_key_pair_def sample_platform_def sample_pair_def to_base64_def Let_def)
  then show ?thesis by (auto simp: is_key_pair_def intro!: exI [of _ "replicate 32 c"])
qed

lemma sample_session_ok: "session_ok (sample_platform tbl) KH KC sample_caps sample_caps"
proof -
  have "contributory_pair (sample_platform tbl) KH KC"
    by (simp add: contributory_pair_def sample_platform_def sample_pair_def add_bytes_def zip_replicate
        list_ex_iff)
  moreover have "validate_capabilities sample_caps = Inr ()"
    by (simp add: validate_capabilities_def sample_caps_def is_bounded_string_def)
  ultimately show ?thesis
    by (simp add: session_ok_def honest_pair_def sample_platform_ok sample_pair_ok)
qed

lemma table_value_ok:
  assumes "tbl = zip vs ss" "length ss = length vs" "distinct vs" "distinct ss"
    "\<And>s. s \<in> set ss \<Longrightarrow> utf8_valid s \<and> length s \<le> gcm_limit" "v \<in> set vs"
  shows "json_parse (sample_platform tbl) (json_print (sample_platform tbl) v) = Inr v \<and>
    utf8_valid (json_print (sample_platform tbl) v) \<and> length (json_print (sample_platform tbl) v) \<le> gcm_limit"
proof -
  obtain i where i: "i < length vs" "vs ! i = v" using assms(6) by (auto simp: in_set_conv_nth)
  have "map_of tbl (vs ! i) = Some (ss ! i)"
    unfolding assms(1) using i assms(2,3) by (intro map_of_zip_nth) simp_all
  moreover have "map prod.swap tbl = zip ss vs"
    unfolding assms(1) by (subst zip_commute) (simp add: comp_def split_def prod.swap_def)
  moreover have "map_of (zip ss vs) (ss ! i) = Some (vs ! i)"
    using i assms(2,4) by (intro map_of_zip_nth) simp_all
  ultimately show ?thesis
    using i assms(2,5) by (simp add: sample_platform_def)
qed

lemma table_text_ok:
  assumes "tbl = zip (map signaling_message_to_value ms) ss" "length ss = length ms"
    "distinct ms" "distinct ss" "\<And>s. s \<in> set ss \<Longrightarrow> utf8_valid s \<and> length s \<le> gcm_limit" "m \<in> set ms"
  shows "text_ok (sample_platform tbl) m"
proof -
  have "inj signaling_message_to_value"
    by (rule injI) (metis option.inject signaling_message_roundtrip)
  then have "distinct (map signaling_message_to_value ms)"
    using assms(3) by (auto simp: distinct_map intro: inj_on_subset)
  with assms show ?thesis
    using table_value_ok [of tbl "map signaling_message_to_value ms" ss "signaling_message_to_value m"]
    by (simp add: text_ok_def Let_def)
qed

lemma sample_texts: "m \<in> set sample_messages \<Longrightarrow> text_ok SP m"
proof (rule table_text_ok [OF sample_table_def])
  show "distinct sample_messages"
    by (simp add: sample_messages_def handshake_messages_def flash_message_def)
  show "utf8_valid s \<and> length s \<le> gcm_limit" if "s \<in> set [''0'', ''1'', ''2'', ''3'', ''4'', ''5'']" for s
    using that by (auto simp: is_ascii_def gcm_limit_def)
qed (simp_all add: sample_messages_def handshake_messages_def)

section \<open>The run\<close>

definition sample_run :: "layer \<times> layer" where
  "sample_run = handshake_run SP sample_time sample_nonce
     (new_layer ''mqtt'' (host_props SP sample_key KH sample_caps))
     (new_layer ''mqtt'' (client_props SP sample_key KH KC sample_caps))"

abbreviation sample_host :: layer where "sample_host \<equiv> fst sample_run"
abbreviation sample_client :: layer where "sample_client \<equiv> snd sample_run"

lemma sample_run_eq:
  "handshake_run SP sample_time sample_nonce
     (new_layer ''mqtt'' (host_props SP sample_key KH sample_caps))
     (new_layer ''mqtt'' (client_props SP sample_key KH KC sample_caps)) = (sample_host, sample_client)"
  by (simp add: sample_run_def)

lemma sample_handshake_texts:
  "list_all (text_ok SP) (handshake_messages KH KC sample_caps sample_caps sample_time)"
  using sample_texts by (simp add: list_all_iff sample_messages_def)

lemma sample_ends:
  "phase sample_host (host_props SP sample_key KH sample_caps) S_Encrypted
     (Some (kp_encryption_key KC)) (Some sample_caps)"
  "phase sample_client (client_props SP sample_key KH KC sample_caps) S_Encrypted
     (Some (kp_encryption_key KH)) (Some sample_caps)"
  using handshake_run_ends [OF sample_session_ok sample_handshake_texts _ sample_run_eq] by simp_all

lemmas sample_reachable = handshake_run_reachable [OF sample_run_eq]

theorem handshake_completes_witness:
  "sl_state sample_host = S_Encrypted \<and> sl_state sample_client = S_Encrypted \<and>
   relying_key sample_host = Some (kp_encryption_key KC) \<and>
   relying_key sample_client = Some (kp_encryption_key KH)"
  using handshake_completes [OF sample_session_ok sample_handshake_texts _ sample_run_eq] by simp

theorem client_key_pinned_witness:
  "hash_public_key SP (kp_encryption_key KH) = sp_h (props sample_client)"
  by (rule client_key_pinned [OF sample_reachable(2)])
     (use sample_ends(2) in \<open>simp_all add: phase_def\<close>)

theorem encrypted_complete_witness:
  "\<exists>k c. relying_key sample_host = Some k \<and> peer_caps sample_host = Some c \<and>
    1 \<le> length (transports c) \<and> length (transports c) \<le> 8 \<and>
    list_all (\<lambda>t. 1 \<le> length t \<and> length t \<le> 32) (transports c)"
  by (rule encrypted_complete [OF sample_reachable(1)])
     (use sample_ends(1) in \<open>simp add: phase_def\<close>)

section \<open>Data after the handshake\<close>

definition sent_data :: string where
  "sent_data = last (outbox (snd (layer_send SP 9 (sample_nonce 0) online sample_host (obj []))))"

lemma sample_data_text: "text_ok SP (Data (obj []) 9)"
  by (rule sample_texts) (simp add: sample_messages_def)

lemma sample_honest: "honest_pair SP KH KC" "platform_ok SP"
  using sample_session_ok [of sample_table] by (simp_all add: session_ok_def)

theorem data_roundtrip_witness:
  "fst (layer_send SP 9 (sample_nonce 0) online sample_host (obj [])) = Ok () \<and>
   handle_receive SP 0 [] online sample_client sent_data =
     (Ok (), sample_client\<lparr>message_tx := message_tx sample_client @ [obj []]\<rparr>)"
  unfolding sent_data_def
  by (rule data_roundtrip [OF sample_honest(2,1) sample_data_text])
     (use sample_ends in \<open>simp_all add: phase_def\<close>)

theorem delivered_authenticated_witness:
  "\<exists>c k b plain v t.
    sent_data = compose_frame Encrypted (for_role (sp_is_host (props sample_client))) c \<and>
    sl_state sample_client = S_Encrypted \<and> relying_key sample_client = Some k \<and>
    from_base64 SP c = Ok b \<and> take PUBLIC_KEY_BYTES b = public_key k \<and>
    peer_decrypt SP (sp_decryption_key (props sample_client)) c (Some k) = Ok plain \<and>
    message_from_str SP plain = Ok (Data v t) \<and> is_object v \<and>
    message_tx (snd (handle_receive SP 0 [] online sample_client sent_data)) =
      message_tx sample_client @ [v]"
proof (rule delivered_authenticated [OF sample_reachable(2)])
  have "handle_receive SP 0 [] online sample_client sent_data =
      (Ok (), sample_client\<lparr>message_tx := message_tx sample_client @ [obj []]\<rparr>)"
    unfolding sent_data_def
    by (rule data_delivered [OF sample_honest(2,1) sample_data_text, THEN conjunct2])
       (use sample_ends in \<open>simp_all add: phase_def\<close>)
  then show "message_tx (snd (handle_receive SP 0 [] online sample_client sent_data)) \<noteq> message_tx sample_client"
    by simp
qed

section \<open>Single steps\<close>

definition waiting_host :: layer where
  "waiting_host = (new_layer ''mqtt'' (host_props SP sample_key KH sample_caps))\<lparr>sl_state := S_Handshake\<rparr>"

definition keyed_client :: layer where
  "keyed_client = (new_layer ''mqtt'' (client_props SP sample_key KH KC sample_caps))
     \<lparr>sl_state := S_HandshakePartial, relying_key := Some (kp_encryption_key KH)\<rparr>"

definition client_key_frame :: string where
  "client_key_frame =
     (case message_frame SP (sample_nonce 0) keyed_client Encrypted Host (key_message KC 2) of
        Inr f \<Rightarrow> f | Inl _ \<Rightarrow> [])"

lemma client_key_recorded:
  "relying_key (receive SP 3 (sample_nonce 3) waiting_host client_key_frame) = Some (kp_encryption_key KC)"
proof -
  have kp: "is_key_pair SP KC" by (rule sample_pair_ok)
  have texts: "text_ok SP (key_message KC 2)" "text_ok SP (Capabilities sample_caps 3)"
    by (rule sample_texts, simp add: sample_messages_def handshake_messages_def)+
  obtain c where c: "message_frame SP (sample_nonce 0) keyed_client Encrypted Host (key_message KC 2) =
        Ok (compose_frame Encrypted Host c)"
    by (rule deliver_encrypted [OF sample_honest(2) texts(1) key_message_valid(1) [OF sample_honest(2) kp],
          of "sample_nonce 0" KC KH keyed_client waiting_host])
       (use session_okD(3) [OF sample_session_ok, of sample_table] in
         \<open>simp_all add: keyed_client_def waiting_host_def new_layer_def for_role_def\<close>)
  let ?C = "keyed_client\<lparr>outbox := [client_key_frame]\<rparr>"
  have "sent_last SP (sample_nonce 0) ?C Encrypted Host (key_message KC 2)"
    using c message_frame_cong [of ?C keyed_client] by (simp add: sent_last_def client_key_frame_def)
  from host_answers_key [OF sample_session_ok texts _ _ _ _ _ this refl, of "sample_nonce 3" waiting_host sample_key]
  show ?thesis
    by (simp add: keyed_client_def waiting_host_def new_layer_def phase_def)
qed

theorem host_binds_sender_witness:
  "\<exists>c plain t sender.
    client_key_frame = compose_frame Encrypted Host c \<and> sl_state waiting_host = S_Handshake \<and>
    peer_decrypt SP (sp_decryption_key (props waiting_host)) c None = Ok plain \<and>
    message_from_str SP plain = Ok (Pubkey \<lparr>public_key_text = ek_serialized (kp_encryption_key KC)\<rparr> t) \<and>
    ek_from_ciphertext SP c = Ok sender \<and> public_key sender = public_key (kp_encryption_key KC)"
  by (rule host_binds_sender [OF _ _ client_key_recorded])
     (simp_all add: waiting_host_def new_layer_def)


definition partial_host :: layer where
  "partial_host = (new_layer ''mqtt'' (host_props SP sample_key KH sample_caps))
     \<lparr>sl_state := S_HandshakePartial, relying_key := Some (kp_encryption_key KC),
      handshake_task := Some 0, next_task := 1,
      live_tasks := [0 \<mapsto> Resend Encrypted Client (Capabilities sample_caps 3)]\<rparr>"

theorem lost_final_frame_recovered_witness:
  "let H1 = resend SP (sample_nonce 3) online 0 partial_host;
       C1 = receive SP 4 (sample_nonce 4) sample_client (last (outbox H1));
       H2 = receive SP 5 (sample_nonce 5) H1 (last (outbox C1))
   in sl_state H2 = S_Encrypted \<and> peer_caps H2 = Some sample_caps \<and> sl_state C1 = S_Encrypted"
proof -
  have texts: "text_ok SP (Capabilities sample_caps 3)" "text_ok SP (Capabilities sample_caps 4)"
    by (rule sample_texts, simp add: sample_messages_def handshake_messages_def)+
  show ?thesis
    unfolding Let_def
    by (rule lost_final_frame_recovered [OF sample_session_ok texts, where hk = sample_key])
       (use sample_ends in \<open>simp_all add: partial_host_def new_layer_def phase_def\<close>)
qed

end
