(* ===== verification/Interleaving.thy ===== *)
theory Interleaving
  imports Scenario
begin

text \<open>
  The signaling layer with its awaits: the same parts as in \<open>handle_receive\<close> and \<open>setup\<close>, but
  other work may run while a frame is being published. A send that will repeat is split at
  its await: first it stops the old task and hands the frame to the channel, later, when the
  channel has answered, it spawns the new task. The state pairs the layer with the sends
  that are in flight. What holds of the peer's key holds here too; that no task outlives the
  handshake does not.
\<close>

section \<open>Steps\<close>

type_synonym in_flight = "wire_prefix \<times> wire_recipient \<times> signaling_message"

text \<open>Everything up to the await of a publish that will be repeated.\<close>

definition begin_action :: "platform \<Rightarrow> bytes \<Rightarrow> layer \<times> action \<Rightarrow> layer \<times> in_flight list" where
  "begin_action P rnd La =
     (case snd La of
        Return _ \<Rightarrow> (fst La, [])
      | Send_message p r m \<Rightarrow> (snd (send_message P rnd online (fst La) p r m), [])
      | Send_repeating p r m \<Rightarrow>
          let L = stop_repeating (fst La) in
          (case message_frame P rnd L p r m of
             Inl _ \<Rightarrow> (L, [])
           | Inr f \<Rightarrow> (L\<lparr>outbox := outbox L @ [f]\<rparr>, [(p, r, m)])))"

text \<open>The rest of a repeated send, once the channel has accepted the frame.\<close>

definition finish_send :: "in_flight \<Rightarrow> layer \<Rightarrow> layer" where
  "finish_send q L = (case q of (p, r, m) \<Rightarrow> start_repeating p r m L)"

text \<open>With nothing in between, the two halves are \<open>send_repeating\<close>.\<close>

lemma begin_finish_send:
  assumes "message_frame P rnd (stop_repeating L) p r m = Ok f"
  shows "snd (send_repeating P rnd online L p r m) =
    (case begin_action P rnd (L, Send_repeating p r m) of (L1, qs) \<Rightarrow> foldr finish_send qs L1)"
  using assms by (simp add: begin_action_def finish_send_def send_repeating_def send_message_def Let_def)

inductive async_step :: "platform \<Rightarrow> layer \<times> in_flight list \<Rightarrow> layer \<times> in_flight list \<Rightarrow> bool"
  for P :: platform where
  async_setup: "sl_state L = S_Standby \<Longrightarrow> async_step P (L, qs) (set_state S_Connecting L, qs)"
| async_subscribed: "sl_state L = S_Connecting \<Longrightarrow>
    begin_action P rnd (setup_tail now L) = (L', new) \<Longrightarrow> async_step P (L, qs) (L', new @ qs)"
| async_receive: "begin_action P rnd (handle_receive_sync P now L payload) = (L', new) \<Longrightarrow>
    async_step P (L, qs) (L', new @ qs)"
| async_published: "async_step P (L, as @ q # bs) (finish_send q L, as @ bs)"
| async_refused: "async_step P (L, as @ q # bs) (L, as @ bs)"
| async_resend: "async_step P (L, qs) (resend P rnd online i L, qs)"
| async_deadline: "live_tasks L i = Some Deadline \<Longrightarrow> async_step P (L, qs) (deadline_expired i L, qs)"
| async_send: "async_step P (L, qs) (snd (layer_send P now rnd pub L message), qs)"
| async_teardown: "async_step P (L, qs) (snd (layer_teardown ch_teardown L), qs)"

abbreviation fresh_async :: "layer \<times> in_flight list \<Rightarrow> bool" where
  "fresh_async s \<equiv> fresh_layer (fst s) \<and> snd s = []"

section \<open>What survives interleaving\<close>

definition async_inv :: "platform \<Rightarrow> layer \<times> in_flight list \<Rightarrow> bool" where
  "async_inv P s \<longleftrightarrow> key_inv P (fst s)"

lemma key_inv_set_state_Error: "key_inv P L \<Longrightarrow> key_inv P (abort_task i (set_state S_Error L))"
  using key_inv_cong [of "abort_task i (set_state S_Error L)" "set_state S_Error L" P] key_inv_Error [of P L]
  by (simp add: abort_task_def)

lemma key_inv_no_key:
  "key_inv P L \<Longrightarrow> sl_state L \<notin> {S_HandshakePartial, S_Encrypted, S_Error} \<Longrightarrow> relying_key L = None"
  by (auto simp: key_inv_def)

lemma key_inv_dispatch:
  assumes "key_inv P L" "validate_message message = Inr ()"
  shows "key_inv P (fst (dispatch P now L frame message))"
proof (cases rule: dispatch_cases [of frame L P now message])
  case (host_pubkey payload t)
  then have "relying_key L = None" using assms(1) by (simp add: key_inv_no_key)
  with host_pubkey assms(1) show ?thesis
    by (auto simp: on_host_pubkey_def validate_public_key_hash_def store_relying_key_def Let_def key_inv_def
             split: sum.splits bool.splits)
next
  case (client_pubkey payload t)
  then have "relying_key L = None" using assms(1) by (simp add: key_inv_no_key)
  with client_pubkey assms(1) show ?thesis
    by (auto simp: on_client_pubkey_def store_relying_key_def Let_def key_inv_def split: sum.splits)
next
  case (capabilities payload t)
  with assms show ?thesis
    by (auto simp: on_capabilities_def Let_def key_inv_def split: if_splits)
qed (use assms(1) in \<open>auto simp: on_flash_def Let_def key_inv_def\<close>)

lemma begin_action_frame:
  assumes "begin_action P rnd La = (L', new)"
  shows "key_inv P' L' = key_inv P' (fst La)"
  using assms by (intro key_inv_cong) (auto simp: begin_action_def Let_def split: action.splits sum.splits)

lemma async_inv_step:
  assumes "async_inv P s" "async_step P s s'"
  shows "async_inv P s'"
  using assms(2)
proof cases
  case (async_setup L qs)
  then show ?thesis using assms(1) by (auto simp: async_inv_def key_inv_def)
next
  case (async_subscribed L rnd now L' new qs)
  have "relying_key L = None" using assms(1) async_subscribed by (simp add: async_inv_def key_inv_no_key)
  with async_subscribed assms(1) begin_action_frame [OF async_subscribed(4)] show ?thesis
    by (simp add: async_inv_def setup_tail_def can_encrypt_def Let_def key_inv_def)
next
  case (async_receive rnd now L payload L' new qs)
  have "key_inv P (fst (handle_receive_sync P now L payload))"
    by (cases rule: handle_receive_sync_cases [of P now L payload])
       (use assms(1) async_receive in \<open>simp_all add: async_inv_def key_inv_dispatch\<close>)
  with async_receive begin_action_frame [OF async_receive(3)] show ?thesis by (simp add: async_inv_def)
next
  case (async_published L as q bs)
  then show ?thesis
    using assms(1) key_inv_cong [of "finish_send q L" L P]
    by (cases q) (simp add: async_inv_def finish_send_def)
next
  case (async_resend L qs rnd i)
  then show ?thesis
    using assms(1) key_inv_cong [of "resend P rnd online i L" L P]
    by (simp add: async_inv_def resend_def split: option.splits task.splits)
next
  case (async_deadline L i qs)
  moreover have "key_inv P (abort_task i L) = key_inv P L"
    by (rule key_inv_cong) (simp_all add: abort_task_def)
  ultimately show ?thesis
    using assms(1) by (simp add: async_inv_def deadline_expired_def key_inv_set_state_Error)
next
  case (async_send L qs now rnd pub message)
  then show ?thesis
    using assms(1) key_inv_cong [of "snd (layer_send P now rnd pub L message)" L P]
    by (simp add: async_inv_def layer_send_def)
next
  case (async_teardown L qs ch_teardown)
  then show ?thesis
    using assms(1) key_inv_cong [of "stop_handshake_tasks L" L P]
    by (simp add: async_inv_def layer_teardown_def)
qed (use assms(1) in \<open>simp_all add: async_inv_def\<close>)

interpretation async_sys: inv_system fresh_async "async_step P" "async_inv P" for P
proof
  fix s :: "layer \<times> in_flight list"
  assume "fresh_async s"
  then show "async_inv P s" by (auto simp: async_inv_def new_layer_def key_inv_def)
qed (rule async_inv_step)

text \<open>
  The guarantees of the handshake do not depend on how its awaits interleave: whatever
  is in flight, a client's peer key has the hash of its URL, and a layer that reports
  \<open>Encrypted\<close> has a peer key and valid capabilities of the peer.
\<close>

lemma interleaved_key_safe:
  assumes "reachable fresh_async (async_step P) (L, qs)"
  shows "(\<not> sp_is_host (props L) \<longrightarrow> (\<forall>k. relying_key L = Some k \<longrightarrow> hash_public_key P k = sp_h (props L))) \<and>
    (sl_state L = S_Encrypted \<longrightarrow>
       (\<exists>k c. relying_key L = Some k \<and> peer_caps L = Some c \<and> validate_capabilities c = Inr ()))"
  using async_sys.reachable_inv [OF assms] by (auto simp: async_inv_def key_inv_def)

section \<open>A task that outlives the handshake\<close>

text \<open>
  The host's first answer is still being published when the client's key arrives, so that
  both repeated sends are in flight at once. The second task to be spawned overwrites the
  handle of the first.
\<close>

definition busy_host :: layer where
  "busy_host = (new_layer ''mqtt'' (host_props SP sample_key KH sample_caps))
     \<lparr>sl_state := S_Ready, state_tx := [S_Connecting, S_Ready]\<rparr>"

lemma busy_host_reachable: "reachable fresh_async (async_step SP) (busy_host, [])"
proof -
  let ?L = "new_layer ''mqtt'' (host_props SP sample_key KH sample_caps)"
  let ?C = "set_state S_Connecting ?L"
  have "reachable fresh_async (async_step SP) (?L, [])" by (rule reach_init) auto
  then have "reachable fresh_async (async_step SP) (?C, [])"
    by (rule reach_step) (rule async_setup, simp add: new_layer_def)
  then show ?thesis
  proof (rule reach_step)
    have "begin_action SP [] (setup_tail 0 ?C) = (busy_host, [])"
      by (simp add: begin_action_def setup_tail_def can_encrypt_def set_state_def busy_host_def
          new_layer_def Let_def)
    from async_subscribed [OF _ this, of "[]"] show "async_step SP (?C, []) (busy_host, [])" by simp
  qed
qed

definition sample_frame :: "layer \<Rightarrow> wire_prefix \<Rightarrow> wire_recipient \<Rightarrow> signaling_message \<Rightarrow> string" where
  "sample_frame L p r m = (case message_frame SP (sample_nonce 0) L p r m of Inr f \<Rightarrow> f | Inl _ \<Rightarrow> [])"

abbreviation host_key_message :: signaling_message where
  "host_key_message \<equiv> key_message KH 1"

definition flashed_host :: layer where
  "flashed_host = (let L = start_handshake_deadline (set_state S_Handshake busy_host) in
     L\<lparr>outbox := outbox L @ [sample_frame L Handshake Client host_key_message]\<rparr>)"

definition keyed_host :: layer where
  "keyed_host =
     (let L = set_state S_HandshakePartial (flashed_host\<lparr>relying_key := Some (kp_encryption_key KC)\<rparr>) in
     L\<lparr>outbox := outbox L @ [sample_frame L Encrypted Client (Capabilities sample_caps 3)]\<rparr>)"

definition twice_started :: layer where
  "twice_started = start_repeating Encrypted Client (Capabilities sample_caps 3)
     (start_repeating Handshake Client host_key_message keyed_host)"

lemmas leak_defs = busy_host_def flashed_host_def keyed_host_def twice_started_def new_layer_def

lemma leak_fields [simp]:
  "props busy_host = host_props SP sample_key KH sample_caps" "sl_state busy_host = S_Ready"
  "relying_key busy_host = None" "peer_caps busy_host = None"
  "props flashed_host = host_props SP sample_key KH sample_caps" "sl_state flashed_host = S_Handshake"
  "relying_key flashed_host = None" "peer_caps flashed_host = None"
  "props keyed_host = host_props SP sample_key KH sample_caps" "sl_state keyed_host = S_HandshakePartial"
  "relying_key keyed_host = Some (kp_encryption_key KC)" "peer_caps keyed_host = None"
  "props twice_started = host_props SP sample_key KH sample_caps" "sl_state twice_started = S_HandshakePartial"
  "relying_key twice_started = Some (kp_encryption_key KC)" "peer_caps twice_started = None"
  by (simp_all add: leak_defs Let_def)

lemma leak_tasks [simp]:
  "handshake_task flashed_host = None" "handshake_task keyed_host = None"
  "live_tasks keyed_host = [0 \<mapsto> Deadline]" "next_task keyed_host = 1" "deadline_task keyed_host = Some 0"
  by (simp_all add: leak_defs start_handshake_deadline_def spawn_task_def set_state_def Let_def)

lemma twice_started_tasks [simp]:
  "live_tasks twice_started =
     [0 \<mapsto> Deadline, 1 \<mapsto> Resend Handshake Client host_key_message,
      2 \<mapsto> Resend Encrypted Client (Capabilities sample_caps 3)]"
  "handshake_task twice_started = Some 2" "deadline_task twice_started = Some 0"
  by (simp_all add: twice_started_def start_repeating_def spawn_task_def fun_upd_twist numeral_2_eq_2)

lemma sample_frame_sent:
  assumes "message_frame SP (sample_nonce 0) L p r m = Ok f"
  shows "sample_frame L p r m = f"
  using assms by (simp add: sample_frame_def)

lemma leak_texts:
  "text_ok SP (flash_message 0)" "text_ok SP host_key_message" "text_ok SP (key_message KC 2)"
  "text_ok SP (Capabilities sample_caps 3)" "text_ok SP (Capabilities sample_caps 4)"
  by (rule sample_texts, simp add: sample_messages_def handshake_messages_def)+

text \<open>The host takes the flash and starts to publish its key.\<close>

lemma flashed_step: "async_step SP (busy_host, []) (flashed_host, [(Handshake, Client, host_key_message)])"
proof -
  let ?C = "new_layer ''mqtt'' (client_props SP sample_key KH KC sample_caps)"
  let ?L = "start_handshake_deadline (set_state S_Handshake busy_host)"
  have C: "sp_handshake_key (props ?C) = Some sample_key" "Client = for_role (sp_is_host (props ?C))"
    by (simp_all add: new_layer_def for_role_def)
  obtain c where "message_frame SP (sample_nonce 0) ?C Handshake Host (flash_message 0) = Ok (compose_frame Handshake Host c)"
    and c: "\<And>now. handle_receive_sync SP now busy_host (compose_frame Handshake Host c) =
      dispatch SP now busy_host \<lparr>prefix = Handshake, recipient = Host, ciphertext = c\<rparr> (flash_message 0)"
    by (rule deliver_handshake [OF sample_honest(2) leak_texts(1) _ _ C(1), of "sample_nonce 0" busy_host Host])
       (simp_all add: flash_message_def for_role_def)
  obtain d where d: "message_frame SP (sample_nonce 0) ?L Handshake Client host_key_message =
      Ok (compose_frame Handshake Client d)"
    by (rule deliver_handshake [OF sample_honest(2) leak_texts(2)
          key_message_valid(1) [OF sample_honest(2) sample_pair_ok] _ _ C(1) C(2), of "sample_nonce 0" ?L])
       simp_all
  have sync: "handle_receive_sync SP 1 busy_host (compose_frame Handshake Host c) =
      (?L, Send_repeating Handshake Client host_key_message)"
    by (simp add: c dispatch_def flash_message_def on_flash_def pubkey_message_def Let_def)
  have stop: "stop_repeating ?L = ?L"
    by (simp add: stop_repeating_def start_handshake_deadline_def spawn_task_def set_state_def leak_defs Let_def)
  have "begin_action SP (sample_nonce 0) (handle_receive_sync SP 1 busy_host (compose_frame Handshake Host c)) =
      (flashed_host, [(Handshake, Client, host_key_message)])"
    using d by (simp add: begin_action_def sync stop flashed_host_def sample_frame_sent [OF d] Let_def)
  from async_receive [OF this, of "[]"] show ?thesis by simp
qed

text \<open>The client's key arrives; a second repeated send begins.\<close>

lemma keyed_step:
  "async_step SP (flashed_host, qs) (keyed_host, (Encrypted, Client, Capabilities sample_caps 3) # qs)"
proof -
  let ?C = "keyed_client"
  let ?L = "set_state S_HandshakePartial (flashed_host\<lparr>relying_key := Some (kp_encryption_key KC)\<rparr>)"
  note pairs = session_okD(2,3) [OF sample_session_ok, of sample_table]
  obtain c where "message_frame SP (sample_nonce 0) ?C Encrypted Host (key_message KC 2) = Ok (compose_frame Encrypted Host c)"
    and c: "\<And>now. handle_receive_sync SP now flashed_host (compose_frame Encrypted Host c) =
        dispatch SP now flashed_host \<lparr>prefix = Encrypted, recipient = Host, ciphertext = c\<rparr> (key_message KC 2)"
      "ek_from_ciphertext SP c = Ok (kp_encryption_key KC)"
    by (rule deliver_encrypted [OF sample_honest(2) leak_texts(3)
          key_message_valid(1) [OF sample_honest(2) sample_pair_ok] _ pairs(2),
          of "sample_nonce 0" ?C flashed_host Host])
       (simp_all add: keyed_client_def new_layer_def for_role_def)
  obtain d where d: "message_frame SP (sample_nonce 0) ?L Encrypted Client (Capabilities sample_caps 3) =
      Ok (compose_frame Encrypted Client d)"
    by (rule deliver_encrypted [OF sample_honest(2) leak_texts(4) _ _ pairs(1),
          of "sample_nonce 0" ?L ?C Client])
       (use session_okD(4) [OF sample_session_ok] in \<open>simp_all add: keyed_client_def new_layer_def for_role_def\<close>)
  have sync: "handle_receive_sync SP 3 flashed_host (compose_frame Encrypted Host c) =
      (?L, Send_repeating Encrypted Client (Capabilities sample_caps 3))"
    using c(2) key_message_valid(2) [OF sample_honest(2) sample_pair_ok]
    by (simp add: c(1) dispatch_def on_client_pubkey_def store_relying_key_def capabilities_message_def Let_def)
  have stop: "stop_repeating ?L = ?L"
    by (simp add: stop_repeating_def set_state_def Let_def)
  have "begin_action SP (sample_nonce 0) (handle_receive_sync SP 3 flashed_host (compose_frame Encrypted Host c)) =
      (keyed_host, [(Encrypted, Client, Capabilities sample_caps 3)])"
    using d by (simp add: begin_action_def sync stop keyed_host_def sample_frame_sent [OF d] Let_def)
  from async_receive [OF this, of qs] show ?thesis by simp
qed

text \<open>The client's capabilities end the handshake.\<close>

lemma encrypted_step:
  "async_step SP (twice_started, qs)
     (set_state S_Encrypted (store_peer_capabilities sample_caps twice_started), qs)"
proof -
  note pairs = session_okD(3) [OF sample_session_ok, of sample_table]
  obtain c where "message_frame SP (sample_nonce 0) keyed_client Encrypted Host (Capabilities sample_caps 4) =
        Ok (compose_frame Encrypted Host c)"
    and c: "\<And>now. handle_receive_sync SP now twice_started (compose_frame Encrypted Host c) =
      dispatch SP now twice_started \<lparr>prefix = Encrypted, recipient = Host, ciphertext = c\<rparr> (Capabilities sample_caps 4)"
    by (rule deliver_encrypted [OF sample_honest(2) leak_texts(5) _ _ pairs,
          of "sample_nonce 0" keyed_client twice_started Host])
       (use session_okD(5) [OF sample_session_ok] in \<open>simp_all add: keyed_client_def new_layer_def for_role_def\<close>)
  have "begin_action SP [] (handle_receive_sync SP 5 twice_started (compose_frame Encrypted Host c)) =
      (set_state S_Encrypted (store_peer_capabilities sample_caps twice_started), [])"
    by (simp add: c dispatch_def on_capabilities_def begin_action_def Let_def)
  from async_receive [OF this, of qs] show ?thesis by simp
qed

definition leaky_host :: layer where
  "leaky_host = set_state S_Encrypted (store_peer_capabilities sample_caps twice_started)"

lemma leaky_host_reachable: "reachable fresh_async (async_step SP) (leaky_host, [])"
proof -
  let ?k = "(Handshake, Client, host_key_message)" and ?c = "(Encrypted, Client, Capabilities sample_caps 3)"
  have "reachable fresh_async (async_step SP) (keyed_host, [?c, ?k])"
    using flashed_step keyed_step by (blast intro: reach_step busy_host_reachable)
  then have "reachable fresh_async (async_step SP) (finish_send ?k keyed_host, [?c])"
    by (rule reach_step) (use async_published [of SP keyed_host "[?c]" ?k "[]"] in simp)
  then have "reachable fresh_async (async_step SP) (finish_send ?c (finish_send ?k keyed_host), [])"
    by (rule reach_step) (use async_published [of SP "finish_send ?k keyed_host" "[]" ?c "[]"] in simp)
  then have "reachable fresh_async (async_step SP) (twice_started, [])"
    by (simp add: finish_send_def twice_started_def)
  then show ?thesis
    using encrypted_step unfolding leaky_host_def by (blast intro: reach_step)
qed

lemma leaky_host_fields:
  "sl_state leaky_host = S_Encrypted" "relying_key leaky_host = Some (kp_encryption_key KC)"
  "handshake_task leaky_host = None" "deadline_task leaky_host = None"
  "live_tasks leaky_host = [1 \<mapsto> Resend Handshake Client host_key_message]"
proof -
  show "live_tasks leaky_host = [1 \<mapsto> Resend Handshake Client host_key_message]"
    by (simp add: leaky_host_def set_state_def stop_handshake_tasks_def stop_repeating_def abort_task_def
        store_peer_capabilities_def Let_def fun_eq_iff)
qed (simp_all add: leaky_host_def set_state_def stop_handshake_tasks_def stop_repeating_def abort_task_def
        store_peer_capabilities_def Let_def)

text \<open>
  C36. Nothing keeps a repeating task inside the handshake once its sends overlap: there is a
  run to a state that is \<open>Encrypted\<close>, with nothing in flight, in which a task still sends the
  host's key again and again; its handle is lost, so that not even \<open>teardown\<close> ends it.
\<close>

theorem repeating_task_leaks:
  "\<exists>L i m. reachable fresh_async (async_step SP) (L, []) \<and> sl_state L = S_Encrypted \<and>
     live_tasks (snd (layer_teardown (Ok ()) L)) i = Some (Resend Handshake Client m)"
proof (intro exI conjI)
  show "reachable fresh_async (async_step SP) (leaky_host, [])" by (rule leaky_host_reachable)
  show "live_tasks (snd (layer_teardown (Ok ()) leaky_host)) 1 = Some (Resend Handshake Client host_key_message)"
    by (simp add: layer_teardown_def stop_handshake_tasks_def stop_repeating_def leaky_host_fields Let_def)
qed (rule leaky_host_fields)

end
