(* ===== verification/Agreement.thy ===== *)
theory Agreement
  imports Interleaving
begin

text \<open>
  What the handshake promises, without frames, ciphers, timers and tasks: two sides agree on
  one key, the client only on the key it was invited to, then on capabilities, and only then
  application messages are handed over. The signaling layer, with its handlers interleaved
  at their awaits, refines this protocol, so that what holds for the few steps of the
  protocol holds for the layer.
\<close>

section \<open>The abstract protocol\<close>

datatype stage = Open | Agreed | Secured | Failed_to_agree

record agreement =
  ag_pinned :: "string option"
  ag_peer :: "encryption_key option"
  ag_caps :: "peer_capabilities option"
  ag_stage :: stage
  ag_delivered :: "json list"

definition fresh_agreement :: "agreement \<Rightarrow> bool" where
  "fresh_agreement A \<longleftrightarrow>
     ag_peer A = None \<and> ag_caps A = None \<and> ag_stage A = Open \<and> ag_delivered A = []"

inductive agreement_step :: "platform \<Rightarrow> agreement \<Rightarrow> agreement \<Rightarrow> bool" for P :: platform where
  agree: "ag_stage A = Open \<Longrightarrow> (\<And>h. ag_pinned A = Some h \<Longrightarrow> hash_public_key P k = h) \<Longrightarrow>
    agreement_step P A (A\<lparr>ag_peer := Some k, ag_stage := Agreed\<rparr>)"
| secure: "ag_stage A = Agreed \<Longrightarrow> validate_capabilities c = Inr () \<Longrightarrow>
    agreement_step P A (A\<lparr>ag_caps := Some c, ag_stage := Secured\<rparr>)"
| give_up: "ag_stage A \<noteq> Secured \<Longrightarrow> agreement_step P A (A\<lparr>ag_stage := Failed_to_agree\<rparr>)"
| deliver: "ag_stage A = Secured \<Longrightarrow> is_object v \<Longrightarrow>
    agreement_step P A (A\<lparr>ag_delivered := ag_delivered A @ [v]\<rparr>)"

section \<open>What the protocol guarantees\<close>

definition agreement_inv :: "platform \<Rightarrow> agreement \<Rightarrow> bool" where
  "agreement_inv P A \<longleftrightarrow>
     (ag_stage A = Open \<longrightarrow> ag_peer A = None) \<and>
     (ag_stage A \<in> {Agreed, Secured} \<longrightarrow> ag_peer A \<noteq> None) \<and>
     (ag_caps A \<noteq> None \<longleftrightarrow> ag_stage A = Secured) \<and>
     (\<forall>h k. ag_pinned A = Some h \<longrightarrow> ag_peer A = Some k \<longrightarrow> hash_public_key P k = h) \<and>
     (\<forall>v \<in> set (ag_delivered A). is_object v) \<and>
     (ag_delivered A \<noteq> [] \<longrightarrow> ag_stage A = Secured)"

interpretation agreement_sys: inv_system fresh_agreement "agreement_step P" "agreement_inv P" for P
proof
  fix A B
  assume "agreement_inv P A" "agreement_step P A B"
  then show "agreement_inv P B"
    by (cases rule: agreement_step.cases [consumes 1, OF \<open>agreement_step P A B\<close>])
       (auto simp: agreement_inv_def)
qed (auto simp: agreement_inv_def fresh_agreement_def)

definition settled :: "agreement \<Rightarrow> agreement \<Rightarrow> bool" where
  "settled A B \<longleftrightarrow> ag_pinned B = ag_pinned A \<and>
     (ag_peer A \<noteq> None \<longrightarrow> ag_peer B = ag_peer A) \<and> (ag_caps A \<noteq> None \<longrightarrow> ag_caps B = ag_caps A) \<and>
     (\<exists>vs. ag_delivered B = ag_delivered A @ vs) \<and>
     (ag_stage A = Secured \<longrightarrow> ag_stage B = Secured) \<and>
     (ag_stage A = Failed_to_agree \<longrightarrow> ag_stage B = Failed_to_agree)"

lemma settled_step:
  assumes "agreement_inv P A" "agreement_step P A B"
  shows "settled A B"
  using assms(2)
proof cases
  case (agree k)
  then show ?thesis using assms(1) by (simp add: settled_def agreement_inv_def)
next
  case (secure c)
  then show ?thesis using assms(1) by (auto simp: settled_def agreement_inv_def)
qed (auto simp: settled_def)

lemma settled_refl [simp]: "settled A A"
  by (simp add: settled_def)

lemma settled_trans: "settled A B \<Longrightarrow> settled B C \<Longrightarrow> settled A C"
  by (fastforce simp: settled_def)

lemma settled_steps:
  assumes "agreement_inv P A" "(agreement_step P)\<^sup>*\<^sup>* A B"
  shows "settled A B"
  using assms(2,1)
proof (induction rule: rtranclp_induct)
  case (step B C)
  then have "agreement_inv P B" by (blast intro: agreement_sys.steps_inv)
  with step show ?case by (blast intro: settled_trans settled_step)
qed simp

section \<open>The signaling layer refines the protocol\<close>

definition stage_of :: "signal_state \<Rightarrow> stage" where
  "stage_of s =
     (case s of
        S_HandshakePartial \<Rightarrow> Agreed
      | S_Encrypted \<Rightarrow> Secured
      | S_Error \<Rightarrow> Failed_to_agree
      | _ \<Rightarrow> Open)"

definition agreement_of :: "layer \<Rightarrow> agreement" where
  "agreement_of L =
     \<lparr>ag_pinned = (if sp_is_host (props L) then None else Some (sp_h (props L))),
      ag_peer = relying_key L, ag_caps = peer_caps L, ag_stage = stage_of (sl_state L),
      ag_delivered = message_tx L\<rparr>"

text \<open>Tasks, frames and the log of states are not part of the agreement.\<close>

lemma agreement_of_cong:
  assumes "props L' = props L" "stage_of (sl_state L') = stage_of (sl_state L)" "relying_key L' = relying_key L"
    "peer_caps L' = peer_caps L" "message_tx L' = message_tx L"
  shows "agreement_of L' = agreement_of L"
  using assms by (simp add: agreement_of_def)

lemma begin_action_agreement:
  assumes "begin_action P rnd La = (L', new)"
  shows "agreement_of L' = agreement_of (fst La)"
  using assms
  by (intro agreement_of_cong) (auto simp: begin_action_def Let_def split: action.splits sum.splits)

definition refined :: "platform \<Rightarrow> layer \<times> in_flight list \<Rightarrow> bool" where
  "refined P s \<longleftrightarrow> async_inv P s \<and> agreement_inv P (agreement_of (fst s))"

lemma refined_no_key: "refined P (L, qs) \<Longrightarrow> sl_state L \<in> {S_Connecting, S_Handshake} \<Longrightarrow> relying_key L = None"
  by (auto simp: refined_def agreement_inv_def agreement_of_def stage_of_def)

lemma agreement_refl:
  "agreement_of L' = agreement_of L \<Longrightarrow> (agreement_step P)\<^sup>*\<^sup>* (agreement_of L) (agreement_of L')"
  by simp

lemma agreement_Error:
  assumes "sl_state L \<noteq> S_Encrypted" "props L' = props L" "sl_state L' = S_Error" "relying_key L' = relying_key L"
    "peer_caps L' = peer_caps L" "message_tx L' = message_tx L"
  shows "(agreement_step P)\<^sup>*\<^sup>* (agreement_of L) (agreement_of L')"
proof -
  have "agreement_of L' = (agreement_of L)\<lparr>ag_stage := Failed_to_agree\<rparr>"
    using assms by (simp add: agreement_of_def stage_of_def)
  moreover have "ag_stage (agreement_of L) \<noteq> Secured"
    using assms(1) by (simp add: agreement_of_def stage_of_def split: signal_state.splits)
  ultimately show ?thesis by (metis give_up r_into_rtranclp)
qed

lemma agreement_key:
  assumes "sl_state L = S_Handshake" "\<not> sp_is_host (props L) \<Longrightarrow> hash_public_key P k = sp_h (props L)"
  shows "(agreement_step P)\<^sup>*\<^sup>* (agreement_of L) (agreement_of (set_state S_HandshakePartial (L\<lparr>relying_key := Some k\<rparr>)))"
proof -
  have "agreement_of (set_state S_HandshakePartial (L\<lparr>relying_key := Some k\<rparr>)) =
      (agreement_of L)\<lparr>ag_peer := Some k, ag_stage := Agreed\<rparr>"
    by (simp add: agreement_of_def stage_of_def)
  moreover have "agreement_step P (agreement_of L) ((agreement_of L)\<lparr>ag_peer := Some k, ag_stage := Agreed\<rparr>)"
    using assms by (intro agree) (auto simp: agreement_of_def stage_of_def split: if_splits)
  ultimately show ?thesis by simp
qed

lemma agreement_dispatch:
  assumes "refined P (L, qs)" "validate_message message = Inr ()"
  shows "(agreement_step P)\<^sup>*\<^sup>* (agreement_of L) (agreement_of (fst (dispatch P now L frame message)))"
proof (cases rule: dispatch_cases [of frame L P now message])
  case flash
  then have "agreement_of (fst (on_flash now L)) = agreement_of L"
    by (intro agreement_of_cong) (simp_all add: on_flash_def Let_def stage_of_def)
  with flash show ?thesis by simp
next
  case (host_pubkey payload t)
  then have none: "relying_key L = None" using refined_no_key [OF assms(1)] by simp
  have "(agreement_step P)\<^sup>*\<^sup>* (agreement_of L) (agreement_of (set_state S_Error L))"
    using host_pubkey by (intro agreement_Error) simp_all
  with host_pubkey none agreement_key [OF host_pubkey(3)] show ?thesis
    by (auto simp: on_host_pubkey_def validate_public_key_hash_def store_relying_key_def Let_def
             split: sum.splits bool.splits)
next
  case (client_pubkey payload t)
  then have none: "relying_key L = None" using refined_no_key [OF assms(1)] by simp
  with client_pubkey agreement_key [OF client_pubkey(3)] show ?thesis
    by (auto simp: on_client_pubkey_def store_relying_key_def Let_def split: sum.splits)
next
  case (capabilities c t)
  then have none: "peer_caps L = None" using assms(1) by (auto simp: refined_def agreement_inv_def agreement_of_def stage_of_def)
  then have "agreement_of (fst (on_capabilities now L c)) = (agreement_of L)\<lparr>ag_caps := Some c, ag_stage := Secured\<rparr>"
    by (simp add: agreement_of_def stage_of_def on_capabilities_def Let_def)
  moreover have "agreement_step P (agreement_of L) ((agreement_of L)\<lparr>ag_caps := Some c, ag_stage := Secured\<rparr>)"
    using capabilities assms(2) by (intro secure) (simp_all add: agreement_of_def stage_of_def)
  ultimately show ?thesis using capabilities by simp
next
  case (data v t)
  then have "agreement_of (fst (dispatch P now L frame message)) =
      (agreement_of L)\<lparr>ag_delivered := ag_delivered (agreement_of L) @ [v]\<rparr>"
    by (simp add: agreement_of_def)
  moreover have "agreement_step P (agreement_of L) ((agreement_of L)\<lparr>ag_delivered := ag_delivered (agreement_of L) @ [v]\<rparr>)"
    using data assms(2) by (intro deliver) (simp_all add: agreement_of_def stage_of_def split: if_splits)
  ultimately show ?thesis by simp
qed simp_all

lemma agreement_async:
  assumes "refined P s" "async_step P s s'"
  shows "(agreement_step P)\<^sup>*\<^sup>* (agreement_of (fst s)) (agreement_of (fst s'))"
  using assms(2)
proof cases
  case (async_subscribed L rnd now L' new qs)
  then have "relying_key L = None" using refined_no_key assms(1) by auto
  with async_subscribed have "agreement_of (fst (setup_tail now L)) = agreement_of L"
    by (intro agreement_of_cong) (simp_all add: setup_tail_def can_encrypt_def Let_def stage_of_def)
  with async_subscribed begin_action_agreement show ?thesis by fastforce
next
  case (async_receive rnd now L payload L' new qs)
  have "(agreement_step P)\<^sup>*\<^sup>* (agreement_of L) (agreement_of (fst (handle_receive_sync P now L payload)))"
    by (cases rule: handle_receive_sync_cases [of P now L payload])
       (use assms(1) async_receive agreement_dispatch in \<open>auto simp: refined_def\<close>)
  with async_receive begin_action_agreement show ?thesis by fastforce
next
  case (async_deadline L i qs)
  show ?thesis
  proof (cases "sl_state L = S_Encrypted")
    case True
    with async_deadline show ?thesis
      by (auto intro!: agreement_refl agreement_of_cong simp: deadline_expired_def abort_task_def)
  next
    case False
    with async_deadline show ?thesis
      using agreement_Error [of L "deadline_expired i L" P] by (simp add: deadline_expired_def abort_task_def)
  qed
next
  case (async_resend L qs rnd i)
  then show ?thesis
    by (auto intro!: agreement_refl agreement_of_cong simp: resend_def split: option.splits task.splits)
qed (auto intro!: agreement_refl agreement_of_cong
       simp: stage_of_def finish_send_def layer_send_def layer_teardown_def split: prod.splits)

interpretation layer_protocol: refinement fresh_async "async_step P" "refined P"
  fresh_agreement "agreement_step P" "\<lambda>s. agreement_of (fst s)" for P
proof
  fix s s' :: "layer \<times> in_flight list"
  show "fresh_async s \<Longrightarrow> fresh_agreement (agreement_of (fst s))"
    by (auto simp: fresh_agreement_def agreement_of_def new_layer_def stage_of_def)
  then show "fresh_async s \<Longrightarrow> refined P s"
    using async_sys.inv_init agreement_sys.inv_init by (auto simp: refined_def)
  show "refined P s \<Longrightarrow> async_step P s s' \<Longrightarrow> (agreement_step P)\<^sup>*\<^sup>* (agreement_of (fst s)) (agreement_of (fst s'))"
    by (rule agreement_async)
  then show "refined P s \<Longrightarrow> async_step P s s' \<Longrightarrow> refined P s'"
    using async_inv_step agreement_sys.steps_inv unfolding refined_def by blast
qed



end
