(* ===== verification/Channels.thy ===== *)
theory Channels
  imports Uri Signaling
begin

text \<open>
  Signaling channels (crates/openlv/src/signaling/channel.rs, ntfy, mqtt) and the choice
  between them (crates/openlv/src/signaling/mod.rs). The network is the record \<open>network\<close>: what
  the broker and the client libraries answer. The contract of the trait \<open>SignalingChannel\<close>
  is the locale \<open>signaling_channel\<close>, which both channels satisfy. The regular expression of
  ntfy URLs is the function \<open>ntfy_captures\<close>.
\<close>

section \<open>The network\<close>

datatype ready_outcome = Opened | Not_opened_in_time | Ready_dropped

record network =
  ws_request :: "string \<Rightarrow> string + unit"
  header_value :: "string \<Rightarrow> string + unit"
  ws_connect :: "string \<Rightarrow> string option \<Rightarrow> string + unit"
  ntfy_ready :: ready_outcome
  http_post :: "string \<Rightarrow> string option \<Rightarrow> string \<Rightarrow> string + unit"
  mqtt_connect :: "string \<Rightarrow> string + unit"
  mqtt_subscribe :: "string \<Rightarrow> string + unit"
  mqtt_send :: "string \<Rightarrow> bytes \<Rightarrow> string + unit"
  mqtt_disconnect :: "string + unit"

abbreviation signaling_err :: "string \<Rightarrow> fault" where
  "signaling_err e \<equiv> Err (Signaling e)"

section \<open>ntfy URLs (ntfy/url/mod.rs)\<close>

datatype ntfy_credentials = UserPassword string string | Token string

record ntfy_connection_info =
  ni_host :: string
  ni_protocol :: string
  ni_ws_protocol :: string
  ni_credentials :: "ntfy_credentials option"
  ni_parameters :: "string option"

text \<open>
  \<open>(?P<host>[^/?]+)/?(?P<parameters>.*)$\<close>: the host takes all it can, since a shorter host
  only moves more text into the parameters, whose dot does not match a line feed.
\<close>

definition match_host :: "string \<Rightarrow> (string \<times> string) option" where
  "match_host r =
     (let host = takeWhile (\<lambda>c. c \<noteq> CHR ''/'' \<and> c \<noteq> CHR ''?'') r;
          rest = dropWhile (\<lambda>c. c \<noteq> CHR ''/'' \<and> c \<noteq> CHR ''?'') r;
          params = (if take 1 rest = ''/'' then drop 1 rest else rest)
      in if host \<noteq> [] \<and> CHR 0x0A \<notin> set params then Some (host, params) else None)"

text \<open>
  \<open>(?:(?P<user>[^:@]+):)?(?P<password>[^@]+)?\<close> on the text in front of the first \<open>@\<close>, which
  neither group can contain: the user is what stands in front of the first colon, unless
  that is nothing.
\<close>

definition match_userinfo :: "string \<Rightarrow> string option \<times> string option" where
  "match_userinfo u =
     (let user = takeWhile (\<lambda>c. c \<noteq> CHR '':'') u;
          rest = dropWhile (\<lambda>c. c \<noteq> CHR '':'') u;
          non_empty = (\<lambda>s. if s = [] then None else Some s)
      in if user \<noteq> [] \<and> rest \<noteq> [] then (Some user, non_empty (drop 1 rest))
         else (None, non_empty u))"

text \<open>
  What follows \<open>://\<close>: the userinfo group comes first, up to the first \<open>@\<close> wherever that is,
  and is left out only where the rest then does not match.
\<close>

definition match_authority ::
  "string \<Rightarrow> (string option \<times> string option \<times> string \<times> string) option" where
  "match_authority r =
     (let u = takeWhile (\<lambda>c. c \<noteq> CHR ''@'') r;
          rest = dropWhile (\<lambda>c. c \<noteq> CHR ''@'') r;
          plain = map_option (\<lambda>(h, p). (None, None, h, p)) (match_host r)
      in if rest = [] then plain
         else (case match_host (drop 1 rest) of
                 Some (h, p) \<Rightarrow>
                   (case match_userinfo u of (user, password) \<Rightarrow> Some (user, password, h, p))
               | None \<Rightarrow> plain))"

definition strip_scheme :: "string \<Rightarrow> string \<Rightarrow> string option" where
  "strip_scheme s url =
     (if take (length s + 3) url = s @ ''://'' then Some (drop (length s + 3) url) else None)"

definition ntfy_captures ::
  "string \<Rightarrow> (string \<times> string option \<times> string option \<times> string \<times> string) option" where
  "ntfy_captures url =
     (let try = (\<lambda>s. Option.bind (strip_scheme s url) (\<lambda>r. map_option (\<lambda>m. (s, m)) (match_authority r)))
      in case try ''https'' of Some m \<Rightarrow> Some m | None \<Rightarrow>
         (case try ''http'' of Some m \<Rightarrow> Some m | None \<Rightarrow>
         (case try ''ntfys'' of Some m \<Rightarrow> Some m | None \<Rightarrow> try ''ntfy'')))"

definition ntfy_parameters :: "string \<Rightarrow> string option" where
  "ntfy_parameters raw =
     (if raw = [] then None else if take 1 raw = ''?'' then Some raw else Some (''?'' @ raw))"

definition ntfy_credentials_of :: "string option \<Rightarrow> string option \<Rightarrow> ntfy_credentials option" where
  "ntfy_credentials_of user password =
     (case (user, password) of
        (Some u, Some p) \<Rightarrow> Some (UserPassword u p)
      | (None, Some t) \<Rightarrow> Some (Token t)
      | _ \<Rightarrow> None)"

definition parse_ntfy_url :: "string \<Rightarrow> ntfy_connection_info res" where
  "parse_ntfy_url url =
     rbind (ok_or (signaling_err (''invalid NTFY URL: '' @ url)) (ntfy_captures url))
       (\<lambda>(scheme, user, password, host, raw).
          rbind (if scheme = ''http'' \<or> scheme = ''ntfy'' then Ok (''http'', ''ws'')
                 else if scheme = ''https'' \<or> scheme = ''ntfys'' then Ok (''https'', ''wss'')
                 else Inl (signaling_err (''invalid NTFY URL: '' @ url)))
            (\<lambda>(protocol, ws_protocol).
              Ok \<lparr>ni_host = host, ni_protocol = protocol, ni_ws_protocol = ws_protocol,
                  ni_credentials = ntfy_credentials_of user password,
                  ni_parameters = ntfy_parameters raw\<rparr>))"

section \<open>The ntfy channel (ntfy/mod.rs)\<close>

record ntfy_channel =
  nc_topic :: string
  nc_info :: ntfy_connection_info
  nc_handler :: bool
  nc_shutdown_tx :: bool
  nc_http_client :: bool

definition authorization :: "platform \<Rightarrow> ntfy_credentials \<Rightarrow> string" where
  "authorization P c =
     (case c of
        UserPassword user password \<Rightarrow> ''Basic '' @ b64_encode P (user @ '':'' @ password)
      | Token token \<Rightarrow> ''Bearer '' @ token)"

definition new_ntfy_channel :: "string \<Rightarrow> string \<Rightarrow> ntfy_channel res" where
  "new_ntfy_channel topic url =
     rbind (parse_ntfy_url url) (\<lambda>i.
       Ok \<lparr>nc_topic = topic, nc_info = i, nc_handler = False, nc_shutdown_tx = False,
           nc_http_client = False\<rparr>)"

definition ntfy_ws_url :: "ntfy_channel \<Rightarrow> string" where
  "ntfy_ws_url c =
     ni_ws_protocol (nc_info c) @ ''://'' @ ni_host (nc_info c) @ ''/'' @ nc_topic c @ ''/ws''
     @ (case ni_parameters (nc_info c) of Some p \<Rightarrow> p | None \<Rightarrow> [])"

definition ntfy_publish_url :: "ntfy_channel \<Rightarrow> string" where
  "ntfy_publish_url c = ni_protocol (nc_info c) @ ''://'' @ ni_host (nc_info c) @ ''/'' @ nc_topic c"

definition ntfy_authorization :: "platform \<Rightarrow> ntfy_channel \<Rightarrow> string option" where
  "ntfy_authorization P c = map_option (authorization P) (ni_credentials (nc_info c))"

definition ntfy_setup :: "platform \<Rightarrow> network \<Rightarrow> ntfy_channel \<Rightarrow> unit res \<times> ntfy_channel" where
  "ntfy_setup P N c =
     (let auth = ntfy_authorization P c in
      case rbind (map_err signaling_err (ws_request N (ntfy_ws_url c))) (\<lambda>_.
           rbind (case auth of Some a \<Rightarrow> map_err signaling_err (header_value N a) | None \<Rightarrow> Ok ()) (\<lambda>_.
           map_err signaling_err (ws_connect N (ntfy_ws_url c) auth))) of
        Inl e \<Rightarrow> (Inl e, c)
      | Inr _ \<Rightarrow>
        let c1 = c\<lparr>nc_shutdown_tx := True\<rparr> in
        (case ntfy_ready N of
           Opened \<Rightarrow> (Ok (), c1\<lparr>nc_http_client := True\<rparr>)
         | Not_opened_in_time \<Rightarrow> (Inl (signaling_err ''ntfy server did not confirm open within 10s''), c1)
         | Ready_dropped \<Rightarrow> (Inl (signaling_err ''ntfy ready sender dropped''), c1)))"

definition ntfy_teardown :: "ntfy_channel \<Rightarrow> unit res \<times> ntfy_channel" where
  "ntfy_teardown c = (Ok (), c\<lparr>nc_shutdown_tx := False, nc_http_client := False\<rparr>)"

definition ntfy_publish :: "platform \<Rightarrow> network \<Rightarrow> ntfy_channel \<Rightarrow> string \<Rightarrow> unit res" where
  "ntfy_publish P N c payload =
     (if \<not> nc_http_client c then Inl (signaling_err ''ntfy client not initialized'')
      else map_err signaling_err (http_post N (ntfy_publish_url c) (ntfy_authorization P c) payload))"

definition ntfy_subscribe :: "ntfy_channel \<Rightarrow> unit res \<times> ntfy_channel" where
  "ntfy_subscribe c = (Ok (), c\<lparr>nc_handler := True\<rparr>)"

text \<open>
  The reader task: each turn sees a message of the socket, or the shutdown signal. \<open>fetch\<close> is
  the text of an attachment, or nothing where it cannot be had. The state says whether the
  server confirmed the subscription, and holds what the handler was called with.
\<close>

datatype ws_message = WsText string | WsClose | WsOther | WsEnd | WsShutdown

definition ntfy_body :: "(string \<Rightarrow> string option) \<Rightarrow> json \<Rightarrow> string option" where
  "ntfy_body fetch data =
     Option.bind (Option.bind (json_get data ''message'') as_str) (\<lambda>body.
       case Option.bind (Option.bind (json_get data ''attachment'') (\<lambda>a. json_get a ''url'')) as_str of
         Some url \<Rightarrow> fetch url
       | None \<Rightarrow> Some body)"

definition ntfy_event ::
  "platform \<Rightarrow> (string \<Rightarrow> string option) \<Rightarrow> bool \<Rightarrow> string \<Rightarrow> bool \<times> string list \<Rightarrow> bool \<times> string list" where
  "ntfy_event P fetch subscribed s st =
     (case json_parse P s of
        Inl _ \<Rightarrow> st
      | Inr data \<Rightarrow>
        (case Option.bind (json_get data ''event'') as_str of
           Some ev \<Rightarrow>
             if ev = ''open'' then (True, snd st)
             else if ev = ''message'' then
               (case ntfy_body fetch data of
                  Some body \<Rightarrow> if subscribed then (fst st, snd st @ [body]) else st
                | None \<Rightarrow> st)
             else st
         | None \<Rightarrow> st))"

fun ntfy_reader ::
  "platform \<Rightarrow> (string \<Rightarrow> string option) \<Rightarrow> (ws_message \<times> bool) list \<Rightarrow> bool \<times> string list \<Rightarrow> bool \<times> string list" where
  "ntfy_reader P fetch [] st = st"
| "ntfy_reader P fetch ((msg, subscribed) # rest) st =
     (case msg of
        WsText s \<Rightarrow> ntfy_reader P fetch rest (ntfy_event P fetch subscribed s st)
      | WsOther \<Rightarrow> ntfy_reader P fetch rest st
      | _ \<Rightarrow> st)"

section \<open>The MQTT channel (mqtt/mod.rs)\<close>

record mqtt_channel =
  mc_server :: string
  mc_topic :: string
  mc_client :: bool
  mc_handler :: bool

definition new_mqtt_channel :: "string \<Rightarrow> string \<Rightarrow> mqtt_channel" where
  "new_mqtt_channel server topic =
     \<lparr>mc_server = server, mc_topic = topic, mc_client = False, mc_handler = False\<rparr>"

definition mqtt_setup :: "network \<Rightarrow> mqtt_channel \<Rightarrow> unit res \<times> mqtt_channel" where
  "mqtt_setup N c =
     (case rbind (map_err signaling_err (mqtt_connect N (mc_server c))) (\<lambda>_.
           map_err signaling_err (mqtt_subscribe N (mc_topic c))) of
        Inl e \<Rightarrow> (Inl e, c)
      | Inr _ \<Rightarrow> (Ok (), c\<lparr>mc_client := True\<rparr>))"

definition mqtt_teardown :: "network \<Rightarrow> mqtt_channel \<Rightarrow> unit res \<times> mqtt_channel" where
  "mqtt_teardown N c =
     (if mc_client c then (map_err signaling_err (mqtt_disconnect N), c\<lparr>mc_client := False\<rparr>)
      else (Ok (), c))"

definition mqtt_publish :: "network \<Rightarrow> mqtt_channel \<Rightarrow> string \<Rightarrow> unit res" where
  "mqtt_publish N c payload =
     (if \<not> mc_client c then Fail NoConnection
      else map_err signaling_err (mqtt_send N (mc_topic c) payload))"

definition mqtt_add_handler :: "mqtt_channel \<Rightarrow> unit res \<times> mqtt_channel" where
  "mqtt_add_handler c = (Ok (), c\<lparr>mc_handler := True\<rparr>)"

text \<open>
  \<open>String::from_utf8_lossy\<close>: every maximal start of a character that cannot be completed
  becomes one replacement character.
\<close>

definition replacement :: string where
  "replacement = [CHR 0xEF, CHR 0xBF, CHR 0xBD]"

fun from_utf8_lossy :: "bytes \<Rightarrow> string" where
  "from_utf8_lossy [] = []"
| "from_utf8_lossy (a # rest) =
     (if is_ascii a then a # from_utf8_lossy rest
      else if in_range 194 223 a then
        (case rest of
           b # r \<Rightarrow> if is_cont b then a # b # from_utf8_lossy r else replacement @ from_utf8_lossy rest
         | [] \<Rightarrow> replacement)
      else if in_range 224 239 a then
        (case rest of
           b # c # r \<Rightarrow>
             if utf8_second a b then
               (if is_cont c then a # b # c # from_utf8_lossy r else replacement @ from_utf8_lossy (c # r))
             else replacement @ from_utf8_lossy rest
         | b # [] \<Rightarrow> if utf8_second a b then replacement else replacement @ from_utf8_lossy rest
         | [] \<Rightarrow> replacement)
      else if in_range 240 244 a then
        (case rest of
           b # c # d # r \<Rightarrow>
             if utf8_second a b then
               (if is_cont c then
                  (if is_cont d then a # b # c # d # from_utf8_lossy r
                   else replacement @ from_utf8_lossy (d # r))
                else replacement @ from_utf8_lossy (c # d # r))
             else replacement @ from_utf8_lossy rest
         | b # c # [] \<Rightarrow>
             if utf8_second a b then
               (if is_cont c then replacement else replacement @ from_utf8_lossy [c])
             else replacement @ from_utf8_lossy rest
         | b # [] \<Rightarrow> if utf8_second a b then replacement else replacement @ from_utf8_lossy rest
         | [] \<Rightarrow> replacement)
      else replacement @ from_utf8_lossy rest)"

text \<open>What the subscription callback hands to the handler, when there is one.\<close>

definition mqtt_deliver :: "bytes \<Rightarrow> mqtt_channel \<Rightarrow> string option" where
  "mqtt_deliver payload c = (if mc_handler c then Some (from_utf8_lossy payload) else None)"

section \<open>The contract of a channel (channel.rs)\<close>

text \<open>
  What the signaling layer relies on: a channel that was set up is connected, one that is
  not connected refuses every frame, a connected one answers what the broker answers, and
  subscribing neither connects nor disconnects.
\<close>

locale signaling_channel =
  fixes start :: "'c \<Rightarrow> unit res \<times> 'c"
    and teardown :: "'c \<Rightarrow> unit res \<times> 'c"
    and publish :: "'c \<Rightarrow> string \<Rightarrow> unit res"
    and subscribe :: "'c \<Rightarrow> unit res \<times> 'c"
    and connected :: "'c \<Rightarrow> bool"
    and broker :: "'c \<Rightarrow> string \<Rightarrow> unit res"
  assumes setup_connects: "start c = (Ok (), c') \<Longrightarrow> connected c' \<and> broker c' = broker c"
    and setup_fails: "start c = (Inl e, c') \<Longrightarrow> connected c' = connected c"
    and teardown_disconnects: "\<not> connected (snd (teardown c))"
    and publish_refused: "\<not> connected c \<Longrightarrow> \<exists>e. publish c m = Fail e"
    and publish_connected: "connected c \<Longrightarrow> publish c m = broker c m"
    and subscribe_ok: "fst (subscribe c) = Ok () \<and>
      connected (snd (subscribe c)) = connected c \<and> broker (snd (subscribe c)) = broker c"
begin

text \<open>The setup of the signaling layer: connect, subscribe, then frames reach the broker.\<close>

lemma published_after_setup:
  assumes "start c = (Ok (), c')"
  shows "publish (snd (subscribe c')) m = broker c m"
  using setup_connects [OF assms] subscribe_ok [of c'] publish_connected [of "snd (subscribe c')"] by simp

lemma silent_after_teardown: "\<exists>e. publish (snd (teardown c)) m = Fail e"
  by (rule publish_refused [OF teardown_disconnects])

lemma silent_after_failed_setup:
  assumes "start c = (Inl e, c')" "\<not> connected c"
  shows "\<exists>e. publish c' m = Fail e"
  using setup_fails [OF assms(1)] assms(2) by (intro publish_refused) simp

end

interpretation ntfy: signaling_channel "ntfy_setup P N" ntfy_teardown "ntfy_publish P N" ntfy_subscribe
  nc_http_client
  "\<lambda>c m. map_err signaling_err (http_post N (ntfy_publish_url c) (ntfy_authorization P c) m)" for P N
  by unfold_locales
     (auto simp: ntfy_setup_def ntfy_teardown_def ntfy_publish_def ntfy_subscribe_def ntfy_publish_url_def
        ntfy_authorization_def fun_eq_iff Let_def split: sum.splits ready_outcome.splits)

interpretation mqtt: signaling_channel "mqtt_setup N" "mqtt_teardown N" "mqtt_publish N" mqtt_add_handler
  mc_client "\<lambda>c m. map_err signaling_err (mqtt_send N (mc_topic c) m)" for N
  by unfold_locales
     (auto simp: mqtt_setup_def mqtt_teardown_def mqtt_publish_def mqtt_add_handler_def split: sum.splits)

section \<open>The channel of a session (signaling/mod.rs)\<close>

datatype channel = Ntfy_channel ntfy_channel | Mqtt_channel mqtt_channel

fun channel_type_of :: "channel \<Rightarrow> string" where
  "channel_type_of (Ntfy_channel _) = ''ntfy''"
| "channel_type_of (Mqtt_channel _) = ''mqtt''"

fun channel_setup :: "platform \<Rightarrow> network \<Rightarrow> channel \<Rightarrow> unit res \<times> channel" where
  "channel_setup P N (Ntfy_channel c) = map_prod id Ntfy_channel (ntfy_setup P N c)"
| "channel_setup P N (Mqtt_channel c) = map_prod id Mqtt_channel (mqtt_setup N c)"

fun channel_teardown :: "network \<Rightarrow> channel \<Rightarrow> unit res \<times> channel" where
  "channel_teardown N (Ntfy_channel c) = map_prod id Ntfy_channel (ntfy_teardown c)"
| "channel_teardown N (Mqtt_channel c) = map_prod id Mqtt_channel (mqtt_teardown N c)"

fun channel_publish :: "platform \<Rightarrow> network \<Rightarrow> channel \<Rightarrow> string \<Rightarrow> unit res" where
  "channel_publish P N (Ntfy_channel c) m = ntfy_publish P N c m"
| "channel_publish P N (Mqtt_channel c) m = mqtt_publish N c m"

fun channel_subscribe :: "channel \<Rightarrow> unit res \<times> channel" where
  "channel_subscribe (Ntfy_channel c) = map_prod id Ntfy_channel (ntfy_subscribe c)"
| "channel_subscribe (Mqtt_channel c) = map_prod id Mqtt_channel (mqtt_add_handler c)"

fun channel_connected :: "channel \<Rightarrow> bool" where
  "channel_connected (Ntfy_channel c) = nc_http_client c"
| "channel_connected (Mqtt_channel c) = mc_client c"

fun channel_broker :: "platform \<Rightarrow> network \<Rightarrow> channel \<Rightarrow> string \<Rightarrow> unit res" where
  "channel_broker P N (Ntfy_channel c) m =
     map_err signaling_err (http_post N (ntfy_publish_url c) (ntfy_authorization P c) m)"
| "channel_broker P N (Mqtt_channel c) m = map_err signaling_err (mqtt_send N (mc_topic c) m)"

definition create_signaling_channel :: "signaling_protocol \<Rightarrow> string \<Rightarrow> string \<Rightarrow> channel res" where
  "create_signaling_channel protocol topic server =
     (case protocol of
        Mqtt \<Rightarrow> Ok (Mqtt_channel (new_mqtt_channel server topic))
      | Ntfy \<Rightarrow> rbind (new_ntfy_channel topic server) (\<lambda>c. Ok (Ntfy_channel c))
      | Unsupported value \<Rightarrow> Fail (UnsupportedProtocol value))"

definition signaling_layer_from_version1 ::
  "v1_uri \<Rightarrow> key_pair \<Rightarrow> bool \<Rightarrow> peer_capabilities \<Rightarrow> (layer \<times> channel) res" where
  "signaling_layer_from_version1 u kp is_host caps =
     rbind (create_signaling_channel (signaling_protocol u) (session_id u) (signaling_server u)) (\<lambda>ch.
       let p = \<lparr>sp_is_host = is_host, sp_h = key_hash u, sp_handshake_key = Some (shared_key u),
                sp_encryption_key = kp_encryption_key kp, sp_decryption_key = kp_decryption_key kp,
                sp_capabilities = caps\<rparr>
       in Ok (new_layer (channel_type_of ch) p, ch))"

text \<open>A boxed channel satisfies the contract because both channels do.\<close>

interpretation boxed: signaling_channel "channel_setup P N" "channel_teardown N" "channel_publish P N"
  channel_subscribe channel_connected "channel_broker P N" for P N
proof (unfold_locales, goal_cases)
  case (1 c c')
  then show ?case
    using ntfy.setup_connects [of P N] mqtt.setup_connects [of N]
    by (cases c) (auto simp: fun_eq_iff map_prod_def split: prod.splits)
next
  case (2 c e c')
  then show ?case
    using ntfy.setup_fails [of P N] mqtt.setup_fails [of N]
    by (cases c) (auto simp: map_prod_def split: prod.splits)
next
  case (3 c)
  show ?case
    by (cases c) (simp_all add: ntfy.teardown_disconnects mqtt.teardown_disconnects)
next
  case (4 c m)
  then show ?case using ntfy.publish_refused mqtt.publish_refused by (cases c) auto
next
  case (5 c m)
  then show ?case using ntfy.publish_connected mqtt.publish_connected by (cases c) auto
next
  case (6 c)
  show ?case
    by (cases c) (simp_all add: ntfy_subscribe_def mqtt_add_handler_def fun_eq_iff ntfy_publish_url_def
        ntfy_authorization_def)
qed

text \<open>
  C26. Whatever channel a session uses, it keeps the promise of its trait: after setup and
  subscription a frame gets the answer of the broker, after teardown every frame is
  refused, and so it is when the setup of a fresh channel failed.
\<close>

theorem channel_lifecycle:
  assumes "create_signaling_channel protocol topic server = Ok c"
  shows "(\<forall>c'. channel_setup P N c = (Ok (), c') \<longrightarrow>
       channel_publish P N (snd (channel_subscribe c')) m = channel_broker P N c m) \<and>
    (\<forall>e c'. channel_setup P N c = (Inl e, c') \<longrightarrow> (\<exists>e'. channel_publish P N c' m = Fail e')) \<and>
    (\<exists>e. channel_publish P N (snd (channel_teardown N c'')) m = Fail e)"
proof -
  have "\<not> channel_connected c"
    using assms by (auto simp: create_signaling_channel_def new_ntfy_channel_def new_mqtt_channel_def
        split: signaling_protocol.splits)
  then show ?thesis
    using boxed.published_after_setup boxed.silent_after_teardown boxed.silent_after_failed_setup by blast
qed

text \<open>A network on which everything works, and an MQTT channel on it.\<close>

definition sample_network :: network where
  "sample_network = \<lparr>ws_request = (\<lambda>_. Inr ()), header_value = (\<lambda>_. Inr ()),
     ws_connect = (\<lambda>_ _. Inr ()), ntfy_ready = Opened, http_post = (\<lambda>_ _ _. Inr ()),
     mqtt_connect = (\<lambda>_. Inr ()), mqtt_subscribe = (\<lambda>_. Inr ()), mqtt_send = (\<lambda>_ _. Inr ()),
     mqtt_disconnect = Inr ()\<rparr>"

theorem channel_lifecycle_witness:
  "\<exists>e. channel_publish undefined sample_network
     (snd (channel_teardown sample_network (Mqtt_channel (new_mqtt_channel ''s'' ''t'')))) ''frame'' = Fail e"
proof -
  have "create_signaling_channel Mqtt ''t'' ''s'' = Ok (Mqtt_channel (new_mqtt_channel ''s'' ''t''))"
    by (simp add: create_signaling_channel_def)
  from channel_lifecycle [OF this] show ?thesis by blast
qed

section \<open>Delivery\<close>

lemma from_utf8_lossy_valid: "utf8_valid s \<Longrightarrow> from_utf8_lossy s = s"
proof (induction s rule: utf8_valid.induct)
  case (3 a b)
  then show ?case by (auto split: if_splits)
next
  case (4 a b c)
  then show ?case by (cases "is_ascii a"; cases "in_range 194 223 a") auto
next
  case (5 a b c d rest)
  then show ?case
    by (cases "is_ascii a"; cases "in_range 194 223 a"; cases "in_range 224 239 a") auto
qed auto

text \<open>
  Frames arrive as they were published: the MQTT callback hands the text of a payload on
  unchanged, and the ntfy reader hands on the body of every message event in order, from
  the subscription on, as long as the socket is open.
\<close>

theorem channels_deliver:
  assumes "utf8_valid f" "mc_handler c"
    and "\<And>g. g \<in> set fs \<Longrightarrow>
      json_parse P (ev g) = Inr (obj [(''event'', JString ''message''), (''message'', JString g)])"
  shows "mqtt_deliver f c = Some f \<and>
    ntfy_reader P fetch (map (\<lambda>g. (WsText (ev g), True)) fs @ [(WsClose, True)] @ late) (r, d) = (r, d @ fs)"
proof -
  have "ntfy_reader P fetch (map (\<lambda>g. (WsText (ev g), True)) fs @ [(WsClose, True)] @ late) (r, d) = (r, d @ fs)"
    using assms(3) by (induction fs arbitrary: d) (simp_all add: ntfy_event_def ntfy_body_def)
  then show ?thesis using assms(1,2) by (simp add: mqtt_deliver_def from_utf8_lossy_valid)
qed

theorem channels_deliver_witness:
  "mqtt_deliver ''hc'' ((new_mqtt_channel ''s'' ''t'')\<lparr>mc_handler := True\<rparr>) = Some ''hc''"
  using channels_deliver [of "''hc''" "(new_mqtt_channel ''s'' ''t'')\<lparr>mc_handler := True\<rparr>" "[]"]
  by (simp add: is_ascii_def)

section \<open>ntfy URLs\<close>

lemma strip_scheme_own [simp]: "strip_scheme s (s @ ''://'' @ r) = Some r"
  by (simp add: strip_scheme_def)

lemma match_host_parts:
  assumes "host \<noteq> []" "CHR ''/'' \<notin> set host" "CHR ''?'' \<notin> set host" "CHR 0x0A \<notin> set params"
  shows "match_host (host @ ''/'' @ params) = Some (host, params)"
proof -
  have h: "c \<noteq> CHR ''/'' \<and> c \<noteq> CHR ''?''" if "c \<in> set host" for c using that assms by auto
  then show ?thesis
    using assms by (simp add: match_host_def takeWhile_append2 dropWhile_append2 Let_def)
qed

lemma ntfy_captures_scheme:
  assumes "s \<in> {''https'', ''http'', ''ntfys'', ''ntfy''}" "match_authority r = Some m"
  shows "ntfy_captures (s @ ''://'' @ r) = Some (s, m)"
  using assms by (elim insertE emptyE) (simp_all add: ntfy_captures_def strip_scheme_def Let_def)

definition ntfy_schemes :: "string \<Rightarrow> string \<times> string" where
  "ntfy_schemes s = (if s = ''http'' \<or> s = ''ntfy'' then (''http'', ''ws'') else (''https'', ''wss''))"

lemma parse_ntfy_scheme:
  assumes "s \<in> {''https'', ''http'', ''ntfys'', ''ntfy''}" "match_authority r = Some (u, p, h, raw)"
  shows "parse_ntfy_url (s @ ''://'' @ r) =
    Ok \<lparr>ni_host = h, ni_protocol = fst (ntfy_schemes s), ni_ws_protocol = snd (ntfy_schemes s),
        ni_credentials = ntfy_credentials_of u p, ni_parameters = ntfy_parameters raw\<rparr>"
  using ntfy_captures_scheme [OF assms] assms(1) by (auto simp: parse_ntfy_url_def ntfy_schemes_def)

text \<open>
  A well-formed ntfy URL with a user and a password is taken apart into exactly these
  parts, under each of its four schemes, and without userinfo there are no credentials.
\<close>

lemma ntfy_url_parts:
  assumes "s \<in> {''https'', ''http'', ''ntfys'', ''ntfy''}"
    "host \<noteq> []" "CHR ''/'' \<notin> set host" "CHR ''?'' \<notin> set host" "CHR ''@'' \<notin> set host"
    "CHR 0x0A \<notin> set params" "CHR ''@'' \<notin> set params"
    "user \<noteq> []" "CHR '':'' \<notin> set user" "CHR ''@'' \<notin> set user" "password \<noteq> []" "CHR ''@'' \<notin> set password"
  shows "parse_ntfy_url (s @ ''://'' @ user @ '':'' @ password @ ''@'' @ host @ ''/'' @ params) =
      Ok \<lparr>ni_host = host, ni_protocol = fst (ntfy_schemes s), ni_ws_protocol = snd (ntfy_schemes s),
          ni_credentials = Some (UserPassword user password), ni_parameters = ntfy_parameters params\<rparr> \<and>
    parse_ntfy_url (s @ ''://'' @ host @ ''/'' @ params) =
      Ok \<lparr>ni_host = host, ni_protocol = fst (ntfy_schemes s), ni_ws_protocol = snd (ntfy_schemes s),
          ni_credentials = None, ni_parameters = ntfy_parameters params\<rparr>"
proof -
  have host: "match_host (host @ ''/'' @ params) = Some (host, params)"
    using assms by (intro match_host_parts)
  have noat: "takeWhile (\<lambda>c. c \<noteq> CHR ''@'') ((user @ '':'' @ password) @ ''@'' @ t) = user @ '':'' @ password"
    "dropWhile (\<lambda>c. c \<noteq> CHR ''@'') ((user @ '':'' @ password) @ ''@'' @ t) = ''@'' @ t" for t
    using assms by (auto simp: takeWhile_append dropWhile_append)
  have "match_userinfo (user @ '':'' @ password) = (Some user, Some password)"
    using assms by (auto simp: match_userinfo_def takeWhile_append dropWhile_append Let_def)
  then have m1: "match_authority (user @ '':'' @ password @ ''@'' @ host @ ''/'' @ params) =
      Some (Some user, Some password, host, params)"
    using noat [of "host @ ''/'' @ params"] host by (simp add: match_authority_def Let_def)
  have "dropWhile (\<lambda>c. c \<noteq> CHR ''@'') (host @ ''/'' @ params) = []"
    using assms by auto
  then have m2: "match_authority (host @ ''/'' @ params) = Some (None, None, host, params)"
    using host by (simp add: match_authority_def Let_def)
  show ?thesis
    using parse_ntfy_scheme [OF assms(1) m1] parse_ntfy_scheme [OF assms(1) m2]
    by (simp add: ntfy_credentials_of_def)
qed

text \<open>
  C39. The parser takes the first at sign of the whole URL for the end of the userinfo, also
  one in the path or the query: the host it then connects to, with what stands in front as
  the credentials, is the text that follows that at sign.
\<close>

theorem ntfy_url_at_sign_hijacks:
  assumes "s \<in> {''https'', ''http'', ''ntfys'', ''ntfy''}" "CHR ''@'' \<notin> set host" "CHR ''@'' \<notin> set path"
    "CHR '':'' \<notin> set host" "CHR '':'' \<notin> set path"
    "other \<noteq> []" "CHR ''/'' \<notin> set other" "CHR ''?'' \<notin> set other" "CHR 0x0A \<notin> set params"
  shows "\<exists>i. parse_ntfy_url (s @ ''://'' @ host @ ''/'' @ path @ ''@'' @ other @ ''/'' @ params) = Ok i \<and>
    ni_host i = other \<and> ni_credentials i = Some (Token (host @ ''/'' @ path))"
proof -
  have host: "match_host (other @ ''/'' @ params) = Some (other, params)"
    using assms by (intro match_host_parts)
  have noat: "takeWhile (\<lambda>c. c \<noteq> CHR ''@'') ((host @ ''/'' @ path) @ ''@'' @ t) = host @ ''/'' @ path"
    "dropWhile (\<lambda>c. c \<noteq> CHR ''@'') ((host @ ''/'' @ path) @ ''@'' @ t) = ''@'' @ t" for t
    using assms by (auto simp: takeWhile_append dropWhile_append)
  have "dropWhile (\<lambda>c. c \<noteq> CHR '':'') (host @ ''/'' @ path) = []" using assms by auto
  then have "match_userinfo (host @ ''/'' @ path) = (None, Some (host @ ''/'' @ path))"
    by (simp add: match_userinfo_def Let_def)
  then have "match_authority (host @ ''/'' @ path @ ''@'' @ other @ ''/'' @ params) =
      Some (None, Some (host @ ''/'' @ path), other, params)"
    using noat [of "other @ ''/'' @ params"] host by (simp add: match_authority_def Let_def)
  from parse_ntfy_scheme [OF assms(1) this] show ?thesis by (simp add: ntfy_credentials_of_def)
qed

theorem ntfy_url_at_sign_hijacks_witness:
  "\<exists>i. parse_ntfy_url (''https'' @ ''://'' @ ''ntfy.sh'' @ ''/'' @ ''?auth=a'' @ ''@'' @ ''evil.com'' @ ''/'' @ []) = Ok i \<and>
     ni_host i = ''evil.com'' \<and> ni_credentials i = Some (Token (''ntfy.sh'' @ ''/'' @ ''?auth=a''))"
  by (rule ntfy_url_at_sign_hijacks) simp_all

end
