(* ===== verification/Transport.thy ===== *)
theory Transport
  imports Messages
begin

text \<open>
  The WebRTC transport (crates/openlv/src/transport/mod.rs, webrtc.rs): its state, its
  setup, as a whole and between its awaits, the negotiation with candidates that arrive early, sending, teardown, and the events of the
  data channel. The WebRTC library is the record \<open>webrtc\<close>; a peer connection is the list of
  calls it has accepted, and the library's answers may depend on it. Session descriptions
  and candidates are kept as the text they are parsed from.
\<close>

section \<open>The library\<close>

datatype rtc_call = Set_remote string | Set_local string | Add_candidate string

record webrtc =
  rtc_codecs :: "string + unit"
  rtc_interceptors :: "string + unit"
  rtc_runtime :: bool
  rtc_build :: "string + unit"
  rtc_data_channel :: "string + unit"
  rtc_answer :: "rtc_call list \<Rightarrow> rtc_call \<Rightarrow> string + unit"
  rtc_offer :: "string + string"
  rtc_answer_sdp :: "rtc_call list \<Rightarrow> string + string"
  rtc_remote :: "rtc_call list \<Rightarrow> bool"
  sdp_print :: "string \<Rightarrow> string + string"
  sdp_parse :: "string \<Rightarrow> string + string"
  candidate_parse :: "string \<Rightarrow> string + string"
  candidate_json :: "string \<Rightarrow> string option"
  dc_send :: "string \<Rightarrow> string + unit"
  pc_close :: "string + unit"

text \<open>A connection has a remote description exactly from the call that sets it on.\<close>

definition rtc_remote_ok :: "webrtc \<Rightarrow> bool" where
  "rtc_remote_ok W \<longleftrightarrow> (\<forall>calls. rtc_remote W calls = list_ex (\<lambda>c. case c of Set_remote _ \<Rightarrow> True | _ \<Rightarrow> False) calls)"

section \<open>State\<close>

datatype transport_state = T_Standby | T_Connecting | T_Ready | T_Connected | T_Error

datatype transport_event = Negotiation negotiation | Message string

text \<open>How far a setup has come that waits at one of its awaits, with the host's offer at the last one.\<close>

datatype setup_point = At_built | At_opened | At_described "string option"

record transport =
  tp_is_host :: bool
  tp_state :: transport_state
  tp_state_tx :: "transport_state list"
  tp_events :: "transport_event list"
  peer_connection :: "rtc_call list option"
  data_channel :: bool
  dc_sent :: "string list"
  pending_candidates :: "string list"
  unflushed :: bool
  tp_setup :: "setup_point option"

definition new_transport :: "bool \<Rightarrow> transport" where
  "new_transport is_host =
     \<lparr>tp_is_host = is_host, tp_state = T_Standby, tp_state_tx = [], tp_events = [],
      peer_connection = None, data_channel = False, dc_sent = [], pending_candidates = [],
      unflushed = False, tp_setup = None\<rparr>"

definition transport_error :: "string \<Rightarrow> fault" where
  "transport_error e = Err (Transport e)"

definition t_set_state :: "transport_state \<Rightarrow> transport \<Rightarrow> transport" where
  "t_set_state s T = T\<lparr>tp_state := s, tp_state_tx := tp_state_tx T @ [s]\<rparr>"

definition emit :: "string \<Rightarrow> string \<Rightarrow> transport \<Rightarrow> transport" where
  "emit ty p T = T\<lparr>tp_events := tp_events T @
     [Negotiation \<lparr>message_type = ty, negotiation_payload = p\<rparr>]\<rparr>"

section \<open>Operations\<close>

definition store_and_poll_dc :: "transport \<Rightarrow> transport" where
  "store_and_poll_dc T = T\<lparr>data_channel := True\<rparr>"

text \<open>The host opens the data channel and sends an offer.\<close>

definition host_offer :: "webrtc \<Rightarrow> transport \<Rightarrow> rtc_call list res \<times> transport" where
  "host_offer W T =
     (case rtc_data_channel W of
        Inl e \<Rightarrow> (Inl (transport_error e), T)
      | Inr _ \<Rightarrow>
        let T1 = store_and_poll_dc T in
        (case rtc_offer W of
           Inl e \<Rightarrow> (Inl (transport_error e), T1)
         | Inr offer \<Rightarrow>
           (case rtc_answer W [] (Set_local offer) of
              Inl e \<Rightarrow> (Inl (transport_error e), T1)
            | Inr _ \<Rightarrow>
              (case sdp_print W offer of
                 Inl e \<Rightarrow> (Fail (Other e), T1)
               | Inr payload \<Rightarrow> (Ok [Set_local offer], emit ''offer'' payload T1)))))"

definition t_setup :: "webrtc \<Rightarrow> transport \<Rightarrow> unit res \<times> transport" where
  "t_setup W T =
     (let T1 = t_set_state T_Connecting T in
      case rbind (map_err transport_error (rtc_codecs W)) (\<lambda>_.
           rbind (map_err transport_error (rtc_interceptors W)) (\<lambda>_.
           rbind (if rtc_runtime W then Ok () else Fail (Transport ''no async runtime'')) (\<lambda>_.
           map_err transport_error (rtc_build W)))) of
        Inl e \<Rightarrow> (Inl e, T1)
      | Inr _ \<Rightarrow>
        (case (if tp_is_host T1 then host_offer W T1 else (Ok [], T1)) of
           (Inl e, T2) \<Rightarrow> (Inl e, T2)
         | (Inr pc, T2) \<Rightarrow> (Ok (), t_set_state T_Ready (T2\<lparr>peer_connection := Some pc\<rparr>))))"

text \<open>
  The same setup from one await to the next: building the connection, opening the host's data
  channel, describing it to the peer, and storing it, which waits for the lock.
\<close>

definition setup_build :: "webrtc \<Rightarrow> transport \<Rightarrow> unit res \<times> transport" where
  "setup_build W T =
     (let T1 = t_set_state T_Connecting T in
      case rbind (map_err transport_error (rtc_codecs W)) (\<lambda>_.
           rbind (map_err transport_error (rtc_interceptors W)) (\<lambda>_.
           rbind (if rtc_runtime W then Ok () else Fail (Transport ''no async runtime'')) (\<lambda>_.
           map_err transport_error (rtc_build W)))) of
        Inl e \<Rightarrow> (Inl e, T1)
      | Inr _ \<Rightarrow> (Ok (), T1\<lparr>tp_setup := Some (if tp_is_host T1 then At_built else At_described None)\<rparr>))"

definition setup_open :: "webrtc \<Rightarrow> transport \<Rightarrow> unit res \<times> transport" where
  "setup_open W T =
     (case rtc_data_channel W of
        Inl e \<Rightarrow> (Inl (transport_error e), T\<lparr>tp_setup := None\<rparr>)
      | Inr _ \<Rightarrow> (Ok (), (store_and_poll_dc T)\<lparr>tp_setup := Some At_opened\<rparr>))"

definition setup_describe :: "webrtc \<Rightarrow> transport \<Rightarrow> unit res \<times> transport" where
  "setup_describe W T =
     (case rtc_offer W of
        Inl e \<Rightarrow> (Inl (transport_error e), T\<lparr>tp_setup := None\<rparr>)
      | Inr offer \<Rightarrow>
        (case rtc_answer W [] (Set_local offer) of
           Inl e \<Rightarrow> (Inl (transport_error e), T\<lparr>tp_setup := None\<rparr>)
         | Inr _ \<Rightarrow>
           (case sdp_print W offer of
              Inl e \<Rightarrow> (Fail (Other e), T\<lparr>tp_setup := None\<rparr>)
            | Inr payload \<Rightarrow> (Ok (), (emit ''offer'' payload T)\<lparr>tp_setup := Some (At_described (Some offer))\<rparr>))))"

definition setup_store :: "string option \<Rightarrow> transport \<Rightarrow> transport" where
  "setup_store offer T =
     (let pc = (case offer of None \<Rightarrow> [] | Some sdp \<Rightarrow> [Set_local sdp]) in
      t_set_state T_Ready (T\<lparr>peer_connection := Some pc, tp_setup := None\<rparr>))"

definition setup_next :: "webrtc \<Rightarrow> transport \<Rightarrow> unit res \<times> transport" where
  "setup_next W T =
     (case tp_setup T of
        None \<Rightarrow> (Ok (), T)
      | Some At_built \<Rightarrow> setup_open W T
      | Some At_opened \<Rightarrow> setup_describe W T
      | Some (At_described offer) \<Rightarrow> (Ok (), setup_store offer T))"

text \<open>The stages one after the other, as long as none of them fails.\<close>

fun setup_run :: "webrtc \<Rightarrow> nat \<Rightarrow> transport \<Rightarrow> unit res \<times> transport" where
  "setup_run W 0 T = setup_build W T"
| "setup_run W (Suc k) T = (case setup_run W k T of (Inl e, T') \<Rightarrow> (Inl e, T') | (Inr _, T') \<Rightarrow> setup_next W T')"

text \<open>Waiting for the channel to flush is bounded and changes nothing.\<close>

definition t_teardown :: "webrtc \<Rightarrow> transport \<Rightarrow> unit res \<times> transport" where
  "t_teardown W T =
     (let T1 = T\<lparr>data_channel := False\<rparr> in
      case (peer_connection T1, pc_close W) of
        (Some _, Inl e) \<Rightarrow> (Inl (transport_error e), T1\<lparr>peer_connection := None\<rparr>)
      | _ \<Rightarrow> (Ok (), t_set_state T_Standby (T1\<lparr>peer_connection := None\<rparr>)))"

definition t_send :: "webrtc \<Rightarrow> transport \<Rightarrow> string \<Rightarrow> unit res \<times> transport" where
  "t_send W T payload =
     (if tp_state T \<noteq> T_Connected then (Fail (Transport ''transport not connected''), T)
      else if \<not> data_channel T then (Fail (Transport ''data channel not found''), T)
      else (case dc_send W payload of
              Inl e \<Rightarrow> (Inl (transport_error e), T)
            | Inr _ \<Rightarrow> (Ok (), T\<lparr>dc_sent := dc_sent T @ [payload], unflushed := True\<rparr>)))"

text \<open>One call of the library on the connection, and the calls for taken candidates.\<close>

definition pc_call :: "webrtc \<Rightarrow> rtc_call list \<Rightarrow> rtc_call \<Rightarrow> rtc_call list res" where
  "pc_call W calls c = rbind (map_err transport_error (rtc_answer W calls c)) (\<lambda>_. Ok (calls @ [c]))"

fun add_candidates :: "webrtc \<Rightarrow> rtc_call list \<Rightarrow> string list \<Rightarrow> unit res \<times> rtc_call list" where
  "add_candidates W calls [] = (Ok (), calls)"
| "add_candidates W calls (c # cs) =
     (case pc_call W calls (Add_candidate c) of
        Inl e \<Rightarrow> (Inl e, calls)
      | Inr calls' \<Rightarrow> add_candidates W calls' cs)"

definition flush_pending_candidates ::
  "webrtc \<Rightarrow> rtc_call list \<Rightarrow> transport \<Rightarrow> unit res \<times> rtc_call list \<times> transport" where
  "flush_pending_candidates W calls T =
     (case add_candidates W calls (pending_candidates T) of
        (r, calls') \<Rightarrow> (r, calls', T\<lparr>pending_candidates := []\<rparr>))"

text \<open>Setting the remote description, as offers and answers begin.\<close>

definition apply_remote :: "webrtc \<Rightarrow> rtc_call list \<Rightarrow> string \<Rightarrow> transport \<Rightarrow> unit res \<times> rtc_call list \<times> transport" where
  "apply_remote W calls payload T =
     (case rbind (map_err (\<lambda>e. Err (Other e)) (sdp_parse W payload)) (\<lambda>d. pc_call W calls (Set_remote d)) of
        Inl e \<Rightarrow> (Inl e, calls, T)
      | Inr calls' \<Rightarrow> flush_pending_candidates W calls' T)"

definition on_offer :: "webrtc \<Rightarrow> rtc_call list \<Rightarrow> string \<Rightarrow> transport \<Rightarrow> unit res \<times> rtc_call list \<times> transport" where
  "on_offer W calls payload T =
     (case apply_remote W calls payload T of
        (Inl e, r) \<Rightarrow> (Inl e, r)
      | (Inr _, calls1, T1) \<Rightarrow>
        (case rtc_answer_sdp W calls1 of
           Inl e \<Rightarrow> (Inl (transport_error e), calls1, T1)
         | Inr ans \<Rightarrow>
           (case pc_call W calls1 (Set_local ans) of
              Inl e \<Rightarrow> (Inl e, calls1, T1)
            | Inr calls2 \<Rightarrow>
              (case sdp_print W ans of
                 Inl e \<Rightarrow> (Fail (Other e), calls2, T1)
               | Inr payload' \<Rightarrow> (Ok (), calls2, emit ''answer'' payload' T1)))))"

definition on_candidate :: "webrtc \<Rightarrow> rtc_call list \<Rightarrow> string \<Rightarrow> transport \<Rightarrow> unit res \<times> rtc_call list \<times> transport" where
  "on_candidate W calls payload T =
     (if payload = [] then (Ok (), calls, T)
      else (case candidate_parse W payload of
              Inl e \<Rightarrow> (Fail (Other e), calls, T)
            | Inr c \<Rightarrow>
              if \<not> rtc_remote W calls then (Ok (), calls, T\<lparr>pending_candidates := pending_candidates T @ [c]\<rparr>)
              else (case pc_call W calls (Add_candidate c) of
                      Inl e \<Rightarrow> (Inl e, calls, T)
                    | Inr calls' \<Rightarrow> (Ok (), calls', T))))"

definition t_handle :: "webrtc \<Rightarrow> transport \<Rightarrow> negotiation \<Rightarrow> unit res \<times> transport" where
  "t_handle W T m =
     (case peer_connection T of
        None \<Rightarrow> (Fail (Transport ''peer connection not found''), T)
      | Some calls \<Rightarrow>
        (case (if message_type m = ''offer'' then on_offer W calls (negotiation_payload m) T
               else if message_type m = ''answer'' then apply_remote W calls (negotiation_payload m) T
               else if message_type m = ''candidate'' then on_candidate W calls (negotiation_payload m) T
               else (Ok (), calls, T)) of
           (r, calls', T') \<Rightarrow> (r, T'\<lparr>peer_connection := Some calls'\<rparr>)))"

text \<open>
  \<open>wait_for\<close>: each turn sees a state from the broadcast channel or an error of it, and the
  state of the transport after it.
\<close>

datatype state_recv = State transport_state | State_closed | State_lagged

fun wait_loop :: "transport_state \<Rightarrow> (state_recv \<times> transport_state) list \<Rightarrow> unit res option" where
  "wait_loop target [] = None"
| "wait_loop target ((r, now) # rest) =
     (case r of
        State s \<Rightarrow> if s = target \<or> now = target then Some (Ok ()) else wait_loop target rest
      | State_closed \<Rightarrow>
          if now = target then Some (Ok ()) else Some (Fail (Transport ''transport state channel closed''))
      | State_lagged \<Rightarrow> if now = target then Some (Ok ()) else wait_loop target rest)"

definition wait_for :: "transport_state \<Rightarrow> transport \<Rightarrow> (state_recv \<times> transport_state) list \<Rightarrow> unit res option" where
  "wait_for target T turns = (if tp_state T = target then Some (Ok ()) else wait_loop target turns)"

section \<open>Events\<close>

definition on_ice_candidate :: "webrtc \<Rightarrow> string \<Rightarrow> transport \<Rightarrow> transport" where
  "on_ice_candidate W c T = (case candidate_json W c of Some p \<Rightarrow> emit ''candidate'' p T | None \<Rightarrow> T)"

definition on_data_channel :: "transport \<Rightarrow> transport" where
  "on_data_channel T = store_and_poll_dc T"

definition on_connection_state_change :: "bool \<Rightarrow> transport \<Rightarrow> transport" where
  "on_connection_state_change failed_or_closed T =
     (if failed_or_closed then t_set_state T_Error T else T)"

datatype dc_event = OnOpen | OnMessage bytes | OnBufferedAmountLow | OnClose | OnOther

text \<open>One turn of the polling task; the flag says that the loop goes on.\<close>

definition dc_turn :: "dc_event \<Rightarrow> transport \<Rightarrow> bool \<times> transport" where
  "dc_turn ev T =
     (case ev of
        OnOpen \<Rightarrow> (True, t_set_state T_Connected T)
      | OnMessage data \<Rightarrow>
          (True, if utf8_valid data then T\<lparr>tp_events := tp_events T @ [Message data]\<rparr> else T)
      | OnBufferedAmountLow \<Rightarrow> (True, T\<lparr>unflushed := False\<rparr>)
      | OnClose \<Rightarrow> (False, t_set_state T_Error (T\<lparr>unflushed := False\<rparr>))
      | OnOther \<Rightarrow> (True, T))"

fun poll_dc :: "dc_event list \<Rightarrow> transport \<Rightarrow> transport" where
  "poll_dc [] T = T"
| "poll_dc (ev # rest) T = (case dc_turn ev T of (go, T') \<Rightarrow> if go then poll_dc rest T' else T')"

section \<open>Setting up\<close>


section \<open>Candidates\<close>

definition added :: "rtc_call list \<Rightarrow> string list" where
  "added calls = concat (map (\<lambda>c. case c of Add_candidate s \<Rightarrow> [s] | _ \<Rightarrow> []) calls)"

lemma added_simps [simp]:
  "added [] = []" "added (calls @ calls') = added calls @ added calls'"
  "added (Set_remote d # calls) = added calls" "added (Set_local d # calls) = added calls"
  "added (Add_candidate c # calls) = c # added calls"
  by (simp_all add: added_def)

text \<open>The candidates a list of messages carries, as the peer sent them.\<close>

definition candidate_of :: "webrtc \<Rightarrow> negotiation \<Rightarrow> string list" where
  "candidate_of W m =
     (if message_type m = ''candidate'' \<and> negotiation_payload m \<noteq> [] then
        (case candidate_parse W (negotiation_payload m) of Inr c \<Rightarrow> [c] | Inl _ \<Rightarrow> [])
      else [])"

text \<open>
  The contract of the candidate queue: no candidate is applied before there is a remote
  description, none waits after it.
\<close>

definition queue_inv :: "webrtc \<Rightarrow> rtc_call list \<Rightarrow> string list \<Rightarrow> bool" where
  "queue_inv W calls pending \<longleftrightarrow> (rtc_remote W calls \<longrightarrow> pending = []) \<and> (\<not> rtc_remote W calls \<longrightarrow> added calls = [])"

lemma add_candidates_Ok:
  assumes "add_candidates W calls cs = (Ok (), calls')"
  shows "calls' = calls @ map Add_candidate cs"
  using assms by (induction cs arbitrary: calls) (fastforce simp: pc_call_def split: sum.splits)+

lemma rtc_remote_append:
  "rtc_remote_ok W \<Longrightarrow> rtc_remote W (calls @ calls') \<longleftrightarrow> rtc_remote W calls \<or> rtc_remote W calls'"
  by (simp add: rtc_remote_ok_def)

lemma rtc_remote_single:
  "rtc_remote_ok W \<Longrightarrow> rtc_remote W (Set_remote d # calls)" "rtc_remote_ok W \<Longrightarrow> \<not> rtc_remote W [Set_local d]"
  "rtc_remote_ok W \<Longrightarrow> \<not> rtc_remote W []"
  by (simp_all add: rtc_remote_ok_def)

lemma apply_remote_queue:
  assumes "rtc_remote_ok W" "queue_inv W calls (pending_candidates T)"
    "apply_remote W calls payload T = (Ok (), calls', T')"
  shows "queue_inv W calls' (pending_candidates T') \<and>
    added calls' @ pending_candidates T' = added calls @ pending_candidates T"
proof -
  from assms(3) obtain d where d: "add_candidates W (calls @ [Set_remote d]) (pending_candidates T) = (Ok (), calls')"
    "T' = T\<lparr>pending_candidates := []\<rparr>"
    by (auto simp: apply_remote_def flush_pending_candidates_def pc_call_def split: sum.splits prod.splits)
  have "added (map Add_candidate cs) = cs" for cs by (induction cs) simp_all
  with add_candidates_Ok [OF d(1)] d(2) assms(1) show ?thesis
    by (simp add: queue_inv_def rtc_remote_append rtc_remote_single)
qed

lemma t_handle_queue:
  assumes "rtc_remote_ok W" "peer_connection T = Some calls" "queue_inv W calls (pending_candidates T)"
    "t_handle W T m = (Ok (), T')"
  shows "\<exists>calls'. peer_connection T' = Some calls' \<and> queue_inv W calls' (pending_candidates T') \<and>
    added calls' @ pending_candidates T' = (added calls @ pending_candidates T) @ candidate_of W m"
proof -
  consider (offer) "message_type m = ''offer''" | (answer) "message_type m = ''answer''"
    | (candidate) "message_type m = ''candidate''"
    | (other) "message_type m \<notin> {''offer'', ''answer'', ''candidate''}" by blast
  then show ?thesis
  proof cases
    case offer
    with assms(2,4) obtain calls1 T1 ans p where
      r: "apply_remote W calls (negotiation_payload m) T = (Ok (), calls1, T1)"
      "T' = (emit ''answer'' p T1)\<lparr>peer_connection := Some (calls1 @ [Set_local ans])\<rparr>"
      by (auto simp: t_handle_def on_offer_def pc_call_def split: sum.splits prod.splits)
    from apply_remote_queue [OF assms(1,3) r(1)] r(2) assms(1) offer show ?thesis
      by (simp add: emit_def queue_inv_def rtc_remote_append rtc_remote_single candidate_of_def)
  next
    case answer
    with assms(2,4) obtain calls1 T1 where
      r: "apply_remote W calls (negotiation_payload m) T = (Ok (), calls1, T1)"
      "T' = T1\<lparr>peer_connection := Some calls1\<rparr>"
      by (auto simp: t_handle_def split: prod.splits)
    from apply_remote_queue [OF assms(1,3) r(1)] r(2) answer show ?thesis
      by (simp add: candidate_of_def)
  next
    case candidate
    with assms show ?thesis
      by (auto simp: t_handle_def on_candidate_def pc_call_def candidate_of_def queue_inv_def
          rtc_remote_append split: sum.splits prod.splits if_splits)
  next
    case other
    with assms show ?thesis by (auto simp: t_handle_def candidate_of_def)
  qed
qed

fun handle_all :: "webrtc \<Rightarrow> transport \<Rightarrow> negotiation list \<Rightarrow> transport option" where
  "handle_all W T [] = Some T"
| "handle_all W T (m # ms) = (case t_handle W T m of (Inr _, T') \<Rightarrow> handle_all W T' ms | (Inl _, _) \<Rightarrow> None)"

lemma handle_all_queue:
  assumes "rtc_remote_ok W" "peer_connection T = Some calls" "queue_inv W calls (pending_candidates T)"
    "handle_all W T ms = Some T'"
  shows "\<exists>calls'. peer_connection T' = Some calls' \<and> queue_inv W calls' (pending_candidates T') \<and>
    added calls' @ pending_candidates T' = (added calls @ pending_candidates T) @ concat (map (candidate_of W) ms)"
  using assms(2-4)
proof (induction ms arbitrary: T calls)
  case (Cons m ms)
  then obtain T1 where T1: "t_handle W T m = (Ok (), T1)" "handle_all W T1 ms = Some T'"
    by (auto split: prod.splits sum.splits)
  from t_handle_queue [OF assms(1) Cons.prems(1,2) T1(1)] Cons.IH [OF _ _ T1(2)] show ?case by fastforce
qed auto

text \<open>
  C24. No candidate is lost, doubled or reordered: after any negotiation whose messages were
  all handled, the candidates given to the connection followed by those that wait are
  exactly the candidates the peer sent, in its order; none is applied before the remote
  description is set, and none waits afterwards.
\<close>

theorem candidates_in_order:
  assumes "rtc_remote_ok W" "t_setup W (new_transport is_host) = (Ok (), T)" "handle_all W T ms = Some T'"
  shows "\<exists>calls. peer_connection T' = Some calls \<and>
    added calls @ pending_candidates T' = concat (map (candidate_of W) ms) \<and>
    (rtc_remote W calls \<longrightarrow> pending_candidates T' = []) \<and> (\<not> rtc_remote W calls \<longrightarrow> added calls = [])"
proof -
  have "\<exists>calls. peer_connection T = Some calls \<and> added calls = [] \<and> \<not> rtc_remote W calls \<and> pending_candidates T = []"
    using assms(1,2)
    by (auto simp: t_setup_def host_offer_def new_transport_def t_set_state_def emit_def store_and_poll_dc_def
        Let_def rtc_remote_single split: sum.splits prod.splits if_splits)
  then obtain calls where "peer_connection T = Some calls" "queue_inv W calls (pending_candidates T)"
    "added calls @ pending_candidates T = []"
    by (auto simp: queue_inv_def)
  from handle_all_queue [OF assms(1) this(1,2) assms(3)] this(3) show ?thesis
    by (auto simp: queue_inv_def)
qed

section \<open>Sending and teardown\<close>

text \<open>
  A text is sent only over an open channel and exactly once: \<open>send\<close> succeeds only when the
  transport is connected with a data channel, and then that text is what the channel got;
  a failing \<open>send\<close> changes nothing.
\<close>

theorem send_only_connected:
  "(fst (t_send W T payload) = Ok () \<longleftrightarrow>
      tp_state T = T_Connected \<and> data_channel T \<and> dc_send W payload = Inr ()) \<and>
   (fst (t_send W T payload) = Ok () \<longrightarrow>
      snd (t_send W T payload) = T\<lparr>dc_sent := dc_sent T @ [payload], unflushed := True\<rparr>) \<and>
   (fst (t_send W T payload) \<noteq> Ok () \<longrightarrow> snd (t_send W T payload) = T)"
  by (auto simp: t_send_def transport_error_def split: sum.splits)

text \<open>
  Teardown releases everything even where closing the connection fails: no channel and
  no connection is left, so that neither sending nor negotiation works afterwards, and a
  teardown that succeeds ends in \<open>Standby\<close>.
\<close>

theorem teardown_releases:
  "\<not> data_channel (snd (t_teardown W T)) \<and> peer_connection (snd (t_teardown W T)) = None \<and>
   fst (t_send W (snd (t_teardown W T)) payload) \<noteq> Ok () \<and>
   fst (t_handle W (snd (t_teardown W T)) m) = Fail (Transport ''peer connection not found'') \<and>
   (fst (t_teardown W T) = Ok () \<longrightarrow> tp_state (snd (t_teardown W T)) = T_Standby)"
  by (auto simp: t_teardown_def t_send_def t_handle_def t_set_state_def transport_error_def Let_def
      split: option.splits sum.splits)

section \<open>Data channel events\<close>

definition message_events :: "dc_event list \<Rightarrow> transport_event list" where
  "message_events evs = concat (map (\<lambda>e. case e of OnMessage d \<Rightarrow> if utf8_valid d then [Message d] else [] | _ \<Rightarrow> []) evs)"

text \<open>
  The session sees the texts of the channel in the order they came, up to the moment the
  channel closes; closing always ends in \<open>Error\<close>, and whatever the library reports after it
  is not read.
\<close>

lemma channel_events_in_order:
  assumes "OnClose \<notin> set evs"
  shows "tp_events (poll_dc evs T) = tp_events T @ message_events evs \<and>
    tp_events (poll_dc (evs @ OnClose # rest) T) = tp_events T @ message_events evs \<and>
    tp_state (poll_dc (evs @ OnClose # rest) T) = T_Error"
  using assms
proof (induction evs arbitrary: T)
  case Nil
  then show ?case by (simp add: dc_turn_def t_set_state_def message_events_def)
next
  case (Cons e evs)
  have "message_events (e # evs) = message_events [e] @ message_events evs" by (simp add: message_events_def)
  with Cons show ?case
    by (cases e) (simp_all add: dc_turn_def t_set_state_def message_events_def)
qed

section \<open>A library that accepts everything\<close>

definition sample_webrtc :: webrtc where
  "sample_webrtc = \<lparr>rtc_codecs = Inr (), rtc_interceptors = Inr (), rtc_runtime = True, rtc_build = Inr (),
     rtc_data_channel = Inr (), rtc_answer = (\<lambda>_ _. Inr ()), rtc_offer = Inr ''sdp'',
     rtc_answer_sdp = (\<lambda>_. Inr ''sdp''),
     rtc_remote = list_ex (\<lambda>c. case c of Set_remote _ \<Rightarrow> True | _ \<Rightarrow> False),
     sdp_print = Inr, sdp_parse = Inr, candidate_parse = Inr, candidate_json = Some,
     dc_send = (\<lambda>_. Inr ()), pc_close = Inr ()\<rparr>"

definition sample_negotiation :: "negotiation list" where
  "sample_negotiation =
     [\<lparr>message_type = ''candidate'', negotiation_payload = ''one''\<rparr>,
      \<lparr>message_type = ''answer'', negotiation_payload = ''sdp''\<rparr>,
      \<lparr>message_type = ''candidate'', negotiation_payload = ''two''\<rparr>]"


theorem candidates_in_order_witness:
  "\<exists>T T'. t_setup sample_webrtc (new_transport True) = (Ok (), T) \<and>
     handle_all sample_webrtc T sample_negotiation = Some T' \<and>
     (\<exists>calls. peer_connection T' = Some calls \<and> added calls @ pending_candidates T' = [''one'', ''two''])"
proof -
  let ?T = "snd (t_setup sample_webrtc (new_transport True))"
  have ok: "rtc_remote_ok sample_webrtc" by (simp add: rtc_remote_ok_def sample_webrtc_def)
  have T: "t_setup sample_webrtc (new_transport True) = (Ok (), ?T)"
    by (simp add: t_setup_def host_offer_def sample_webrtc_def new_transport_def t_set_state_def Let_def)
  obtain T' where T': "handle_all sample_webrtc ?T sample_negotiation = Some T'"
    by (simp add: sample_negotiation_def t_handle_def on_candidate_def apply_remote_def pc_call_def
        flush_pending_candidates_def t_setup_def host_offer_def sample_webrtc_def new_transport_def
        t_set_state_def emit_def store_and_poll_dc_def Let_def)
  have "concat (map (candidate_of sample_webrtc) sample_negotiation) = [''one'', ''two'']"
    by (simp add: sample_negotiation_def candidate_of_def sample_webrtc_def)
  with candidates_in_order [OF ok T T'] T T' show ?thesis by auto
qed

theorem send_only_connected_witness:
  "snd (t_send sample_webrtc ((new_transport True)\<lparr>tp_state := T_Connected, data_channel := True\<rparr>) ''hi'') =
     (new_transport True)\<lparr>tp_state := T_Connected, data_channel := True, dc_sent := [''hi''], unflushed := True\<rparr>"
  using send_only_connected [of sample_webrtc "(new_transport True)\<lparr>tp_state := T_Connected, data_channel := True\<rparr>" "''hi''"]
  by (simp add: sample_webrtc_def new_transport_def)

theorem teardown_releases_witness:
  "tp_state (snd (t_teardown sample_webrtc (new_transport True))) = T_Standby"
  using teardown_releases [of sample_webrtc "new_transport True" "''x''"]
  by (simp add: t_teardown_def new_transport_def Let_def)

end
