(* ===== verification/Control.thy ===== *)
theory Control
  imports Json
begin

text \<open>
  Session control (crates/openlv/src/session/control/mod.rs): the tasks a session owns, the
  admission of remote requests, and shutdown. One lock guards the whole state, so that each
  operation is one step. A task of the join set is running, told to stop, or ended; \<open>usize\<close>
  is a 64-bit word, so that the counter of handlers wraps where the source would.
\<close>

section \<open>State and operations\<close>

definition MAX_ACTIVE_HANDLERS :: "64 word" where "MAX_ACTIVE_HANDLERS = 256"

datatype task_status = Running | Stopping | Ended

record control =
  closed_flag :: bool
  active_handlers :: "64 word"
  tasks :: "(nat \<times> task_status) list"
  next_id :: nat
  shutdown :: bool

definition new_control :: control where
  "new_control = \<lparr>closed_flag = False, active_handlers = 0, tasks = [], next_id = 0, shutdown = False\<rparr>"

text \<open>The tasks that have ended are joined, then the new one is added.\<close>

definition spawn_control :: "control \<Rightarrow> nat res \<times> control" where
  "spawn_control c =
     (if closed_flag c then (Fail SessionClosed, c)
      else let rest = filter (\<lambda>(i, s). s \<noteq> Ended) (tasks c)
           in (Ok (next_id c), c\<lparr>tasks := rest @ [(next_id c, Running)], next_id := Suc (next_id c)\<rparr>))"

text \<open>\<open>AbortHandle::abort\<close> and \<open>JoinSet::abort_all\<close>: a task that still runs is told to stop.\<close>

definition stop_status :: "task_status \<Rightarrow> task_status" where
  "stop_status s = (if s = Running then Stopping else s)"

definition abort_handle :: "nat \<Rightarrow> control \<Rightarrow> control" where
  "abort_handle i c = c\<lparr>tasks := map (\<lambda>(j, s). (j, if j = i then stop_status s else s)) (tasks c)\<rparr>"

definition close_control :: "control \<Rightarrow> control" where
  "close_control c =
     (if closed_flag c then c
      else c\<lparr>closed_flag := True, tasks := map (\<lambda>(j, s). (j, stop_status s)) (tasks c), shutdown := True\<rparr>)"

text \<open>The runtime has destroyed a task, or it ran to its end.\<close>

definition end_task :: "nat \<Rightarrow> control \<Rightarrow> control" where
  "end_task i c = c\<lparr>tasks := map (\<lambda>(j, s). (j, if j = i then Ended else s)) (tasks c)\<rparr>"

text \<open>
  \<open>wait_for_tasks\<close> takes the join set and joins until it is empty: \<open>ends\<close> is the order in which
  the runtime reports tasks as ended, and the loop returns when it has seen them all.
\<close>

fun join_loop :: "(nat \<times> task_status) list \<Rightarrow> nat list \<Rightarrow> (nat \<times> task_status) list" where
  "join_loop ts [] = filter (\<lambda>(i, s). s \<noteq> Ended) ts"
| "join_loop ts (i # ends) = join_loop (filter (\<lambda>(j, s). j \<noteq> i) ts) ends"

definition wait_for_tasks :: "nat list \<Rightarrow> control \<Rightarrow> bool \<times> control" where
  "wait_for_tasks ends c = (join_loop (tasks c) ends = [], c\<lparr>tasks := []\<rparr>)"

text \<open>\<open>closed\<close> returns at once when the flag is set, and otherwise when it changes.\<close>

definition closed_ready :: "control \<Rightarrow> bool" where
  "closed_ready c = shutdown c"

definition admit_handler :: "control \<Rightarrow> unit res \<times> control" where
  "admit_handler c =
     (if closed_flag c then (Fail SessionClosed, c)
      else if active_handlers c \<ge> MAX_ACTIVE_HANDLERS then (Fail RequestLimitReached, c)
      else (Ok (), c\<lparr>active_handlers := active_handlers c + 1\<rparr>))"

definition drop_permit :: "control \<Rightarrow> control" where
  "drop_permit c = c\<lparr>active_handlers := active_handlers c - 1\<rparr>"

text \<open>
  \<open>run_operation\<close>: the operation runs as a task of the session. It ends with a result, with a
  panic that is raised again in the caller, or it is destroyed and its sender is dropped.
\<close>

datatype 'a outcome = Completed "'a res" | Unwound | Destroyed

definition run_operation :: "'a outcome \<Rightarrow> control \<Rightarrow> 'a res \<times> control" where
  "run_operation out c =
     (case spawn_control c of
        (Inl e, c1) \<Rightarrow> (Inl e, c1)
      | (Inr i, c1) \<Rightarrow>
        let c2 = abort_handle i (case out of Destroyed \<Rightarrow> c1 | _ \<Rightarrow> end_task i c1) in
        (case out of
           Completed r \<Rightarrow> (r, c2)
         | Unwound \<Rightarrow> (panicked, c2)
         | Destroyed \<Rightarrow> (Fail SessionClosed, c2)))"

section \<open>The contract of admission\<close>

text \<open>
  A component that admits work up to a limit: admission adds one and never passes the
  limit, release takes one away, and a component that is open and below its limit admits.
  The client sees a run of admissions and releases, and knows the load after any of them.
\<close>

locale bounded_admission =
  fixes admit :: "'s \<Rightarrow> 'e + unit \<Rightarrow> 's \<Rightarrow> bool"
    and release :: "'s \<Rightarrow> 's"
    and load :: "'s \<Rightarrow> nat"
    and is_open :: "'s \<Rightarrow> bool"
    and limit :: nat
  assumes admitted: "admit s (Inr u) s' \<Longrightarrow> load s' = Suc (load s) \<and> load s' \<le> limit"
    and refused: "admit s (Inl e) s' \<Longrightarrow> s' = s \<and> (is_open s \<longrightarrow> limit \<le> load s)"
    and released: "0 < load s \<Longrightarrow> load (release s) = load s - 1"
begin

inductive run :: "'s \<Rightarrow> nat \<Rightarrow> 's \<Rightarrow> nat \<Rightarrow> bool" where
  run_start: "run s n s n"
| run_admit: "run s n t m \<Longrightarrow> admit t (Inr u) t' \<Longrightarrow> run s n t' (Suc m)"
| run_refuse: "run s n t m \<Longrightarrow> admit t (Inl e) t' \<Longrightarrow> run s n t' m"
| run_release: "run s n t (Suc m) \<Longrightarrow> run s n (release t) m"

lemma run_load:
  assumes "run s n t m" "load s = n" "n \<le> limit"
  shows "load t = m \<and> m \<le> limit"
  using assms
proof (induction rule: run.induct)
  case (run_admit s n t m u t')
  then show ?case using admitted [OF run_admit.hyps(2)] by auto
next
  case (run_refuse s n t m e t')
  then show ?case using refused [OF run_refuse.hyps(2)] by auto
next
  case (run_release s n t m)
  then show ?case using released [of t] by auto
qed auto

text \<open>As long as it is open, work is refused only at the limit.\<close>

lemma run_refused_at_limit:
  assumes "run s n t m" "load s = n" "n \<le> limit" "admit t (Inl e) t'" "is_open t"
  shows "m = limit"
  using run_load [OF assms(1-3)] refused [OF assms(4)] assms(5) by auto

end

abbreviation admits :: "control \<Rightarrow> unit res \<Rightarrow> control \<Rightarrow> bool" where
  "admits c r c' \<equiv> admit_handler c = (r, c')"

interpretation handlers: bounded_admission admits drop_permit "\<lambda>c. unat (active_handlers c)"
  "\<lambda>c. \<not> closed_flag c" 256
proof
  fix c c' u
  assume "admits c (Ok u) c'"
  then have c: "active_handlers c < 256" "c' = c\<lparr>active_handlers := active_handlers c + 1\<rparr>"
    by (auto simp: admit_handler_def MAX_ACTIVE_HANDLERS_def not_le split: if_splits)
  from c(1) have less: "unat (active_handlers c) < 256" by (simp add: word_less_nat_alt)
  then have "unat (active_handlers c + 1) = Suc (unat (active_handlers c))"
    by (simp add: unat_word_ariths)
  with c(2) less show "unat (active_handlers c') = Suc (unat (active_handlers c)) \<and> unat (active_handlers c') \<le> 256"
    by simp
next
  fix c c' e
  assume "admits c (Inl e) c'"
  then show "c' = c \<and> (\<not> closed_flag c \<longrightarrow> 256 \<le> unat (active_handlers c))"
    by (auto simp: admit_handler_def MAX_ACTIVE_HANDLERS_def word_le_nat_alt split: if_splits)
next
  fix c :: control
  assume "0 < unat (active_handlers c)"
  then have "1 \<le> active_handlers c" by (simp add: word_le_nat_alt)
  then show "unat (active_handlers (drop_permit c)) = unat (active_handlers c) - 1"
    by (simp add: drop_permit_def unat_sub)
qed

section \<open>Everything that happens to the control of a session\<close>

text \<open>
  The second component counts the permits that are alive; only their owners drop them, so a
  drop needs one.
\<close>

inductive control_step :: "control \<times> nat \<Rightarrow> control \<times> nat \<Rightarrow> bool" where
  cs_spawn: "control_step (c, n) (snd (spawn_control c), n)"
| cs_abort: "control_step (c, n) (abort_handle i c, n)"
| cs_end: "control_step (c, n) (end_task i c, n)"
| cs_close: "control_step (c, n) (close_control c, n)"
| cs_wait: "control_step (c, n) (snd (wait_for_tasks ends c), n)"
| cs_admit: "admit_handler c = (Ok (), c') \<Longrightarrow> control_step (c, n) (c', Suc n)"
| cs_refuse: "admit_handler c = (Inl e, c') \<Longrightarrow> control_step (c, n) (c', n)"
| cs_drop: "control_step (c, Suc n) (drop_permit c, n)"

inductive_cases control_stepE: "control_step (c, n) (c', n')"

abbreviation fresh_control :: "control \<times> nat \<Rightarrow> bool" where
  "fresh_control s \<equiv> s = (new_control, 0)"

definition control_inv :: "control \<times> nat \<Rightarrow> bool" where
  "control_inv s \<longleftrightarrow>
     (let c = fst s in
      unat (active_handlers c) = snd s \<and> snd s \<le> 256 \<and> shutdown c = closed_flag c \<and>
      (closed_flag c \<longrightarrow> (\<forall>i. (i, Running) \<notin> set (tasks c))))"

lemma task_maps_not_running:
  "(i, Running) \<in> set (map (\<lambda>(j, s). (j, if P j then stop_status s else s)) ts) \<Longrightarrow> (i, Running) \<in> set ts"
  "(i, Running) \<in> set (map (\<lambda>(j, s). (j, if P j then Ended else s)) ts) \<Longrightarrow> (i, Running) \<in> set ts"
  "(i, Running) \<notin> set (map (\<lambda>(j, s). (j, stop_status s)) ts)"
  by (auto simp: stop_status_def split: if_splits)

lemma control_inv_step:
  assumes "control_inv s" "control_step s s'"
  shows "control_inv s'"
  using assms(2)
proof cases
  case (cs_spawn c n)
  with assms(1) show ?thesis by (auto simp: control_inv_def spawn_control_def Let_def)
next
  case (cs_abort c n i)
  with assms(1) show ?thesis
    using task_maps_not_running(1) [of _ "\<lambda>j. j = i" "tasks c"]
    by (auto simp: control_inv_def abort_handle_def Let_def simp del: set_map)
next
  case (cs_end c n i)
  with assms(1) show ?thesis
    using task_maps_not_running(2) [of _ "\<lambda>j. j = i" "tasks c"]
    by (auto simp: control_inv_def end_task_def Let_def simp del: set_map)
next
  case (cs_close c n)
  with assms(1) show ?thesis
    using task_maps_not_running(3) [of _ "tasks c"]
    by (auto simp: control_inv_def close_control_def Let_def simp del: set_map)
next
  case (cs_wait c n ends)
  with assms(1) show ?thesis by (simp add: control_inv_def wait_for_tasks_def Let_def)
next
  case (cs_admit c c' n)
  moreover have "\<not> closed_flag c" "c' = c\<lparr>active_handlers := active_handlers c + 1\<rparr>"
    using cs_admit by (auto simp: admit_handler_def split: if_splits)
  ultimately show ?thesis
    using assms(1) handlers.admitted [of c "()" c'] by (simp add: control_inv_def Let_def)
next
  case (cs_refuse c e c' n)
  with assms(1) handlers.refused [of c e c'] show ?thesis by simp
next
  case (cs_drop c n)
  with assms(1) handlers.released [of c] show ?thesis
    by (simp add: control_inv_def drop_permit_def Let_def)
qed

interpretation control_sys: inv_system fresh_control control_step control_inv
proof
  fix s assume "fresh_control s"
  then show "control_inv s" by (simp add: control_inv_def new_control_def)
qed (rule control_inv_step)

text \<open>
  One peer can make a session hold at most 256 handlers: in every reachable state the
  counter is exactly the number of permits alive and at most 256, so that neither its
  increment nor its decrement wraps; an open session refuses a request only when 256
  handlers are active, and then the state is unchanged.
\<close>

theorem admission_bounded:
  assumes "reachable fresh_control control_step (c, n)"
  shows "unat (active_handlers c) = n \<and> n \<le> 256 \<and>
    (n > 0 \<longrightarrow> unat (active_handlers (drop_permit c)) = n - 1) \<and>
    (\<not> closed_flag c \<longrightarrow>
       admit_handler c = (if n < 256 then (Ok (), c\<lparr>active_handlers := active_handlers c + 1\<rparr>)
                          else (Fail RequestLimitReached, c)))"
proof -
  have inv: "unat (active_handlers c) = n" "n \<le> 256"
    using control_sys.reachable_inv [OF assms] by (simp_all add: control_inv_def Let_def)
  then show ?thesis
    using handlers.released [of c]
    by (auto simp: admit_handler_def MAX_ACTIVE_HANDLERS_def word_le_nat_alt)
qed

theorem admission_bounded_witness:
  "admit_handler new_control = (Ok (), new_control\<lparr>active_handlers := 1\<rparr>)"
proof -
  have "reachable fresh_control control_step (new_control, 0)" by (rule reach_init) simp
  from admission_bounded [OF this] show ?thesis by (simp add: new_control_def)
qed

text \<open>Once closed, no step adds a task or opens the control again.\<close>

definition task_ids :: "control \<Rightarrow> nat set" where
  "task_ids c = fst ` set (tasks c)"

lemma task_ids_simps [simp]:
  "task_ids (abort_handle i c) = task_ids c" "task_ids (end_task i c) = task_ids c"
  "task_ids (close_control c) = task_ids c"
  by (force simp: task_ids_def abort_handle_def end_task_def close_control_def)+

lemma closed_step:
  assumes "control_step s s'" "closed_flag (fst s)"
  shows "closed_flag (fst s') \<and> task_ids (fst s') \<subseteq> task_ids (fst s)"
  using assms
proof cases
  case (cs_abort c n i)
  then show ?thesis using assms(2) by (simp add: abort_handle_def) (simp add: abort_handle_def [symmetric])
next
  case (cs_end c n i)
  then show ?thesis using assms(2) by (simp add: end_task_def) (simp add: end_task_def [symmetric])
qed (auto simp: spawn_control_def close_control_def wait_for_tasks_def admit_handler_def
      drop_permit_def task_ids_def)

lemma closed_steps:
  assumes "control_step\<^sup>*\<^sup>* s s'" "closed_flag (fst s)"
  shows "closed_flag (fst s') \<and> task_ids (fst s') \<subseteq> task_ids (fst s)"
  using assms by (induction rule: rtranclp_induct) (auto dest: closed_step)

text \<open>
  C23. Close is final: whatever happens after it, spawning, admission and operations fail
  with \<open>SessionClosed\<close> and change nothing, no task is added, every task that is left was told
  to stop, and waiters for the end of the session are released.
\<close>

theorem closed_is_final:
  assumes "reachable fresh_control control_step (c, n)"
    "control_step\<^sup>*\<^sup>* (close_control c, n) (c', n')"
  shows "spawn_control c' = (Fail SessionClosed, c') \<and> admit_handler c' = (Fail SessionClosed, c') \<and>
    run_operation out c' = (Fail SessionClosed, c') \<and> closed_ready c' \<and>
    task_ids c' \<subseteq> task_ids c \<and> (\<forall>i. (i, Running) \<notin> set (tasks c'))"
proof -
  have "reachable fresh_control control_step (close_control c, n)"
    by (rule reach_step [OF assms(1) cs_close])
  then have "reachable fresh_control control_step (c', n')"
    using reachable_steps [OF assms(2)] by blast
  then have inv: "shutdown c' = closed_flag c'" "closed_flag c' \<longrightarrow> (\<forall>i. (i, Running) \<notin> set (tasks c'))"
    using control_sys.reachable_inv by (auto simp: control_inv_def Let_def)
  have "closed_flag (close_control c)" by (simp add: close_control_def)
  with closed_steps [OF assms(2)] have "closed_flag c'" "task_ids c' \<subseteq> task_ids c" by simp_all
  with inv show ?thesis
    by (auto simp: spawn_control_def admit_handler_def run_operation_def closed_ready_def)
qed

theorem closed_is_final_witness:
  "run_operation (Completed (Ok (7 :: nat))) (close_control new_control) =
     (Fail SessionClosed, close_control new_control)"
proof -
  have "reachable fresh_control control_step (new_control, 0)" by (rule reach_init) simp
  from closed_is_final [OF this rtranclp.rtrancl_refl, of "Completed (Ok (7 :: nat))"] show ?thesis by simp
qed

section \<open>Waiting\<close>

text \<open>
  Waiting for the tasks of a session ends: once the runtime has reported every task of the
  set that has not ended, in whatever order, the loop returns, and the set is empty.
\<close>

lemma tasks_joined:
  assumes "\<And>i s. (i, s) \<in> set (tasks c) \<Longrightarrow> s \<noteq> Ended \<Longrightarrow> i \<in> set ends"
  shows "wait_for_tasks ends c = (True, c\<lparr>tasks := []\<rparr>)"
proof -
  have "join_loop ts ends = []" if "\<And>i s. (i, s) \<in> set ts \<Longrightarrow> s \<noteq> Ended \<Longrightarrow> i \<in> set ends" for ts
    using that by (induction ts ends rule: join_loop.induct) (force simp: filter_empty_conv)+
  with assms show ?thesis by (simp add: wait_for_tasks_def)
qed

end
