(* ===== verification/Response.thy ===== *)
theory Response
  imports Messages
begin

text \<open>
  Waiting for a response (crates/openlv/src/session/response/mod.rs). Instants count
  nanoseconds; the largest one an \<open>Instant\<close> can hold depends on the system and is the
  parameter \<open>instant_max\<close>. The loop is a function of what each of its turns observes: the
  clock at its head, what \<open>timeout_at\<close> returned, and the clock after it. A list of turns that
  ends before the loop returned is the value \<open>None\<close>.
\<close>

section \<open>The loop\<close>

type_synonym instant = nat

definition deadline_after :: "instant \<Rightarrow> instant \<Rightarrow> u64 \<Rightarrow> instant res" where
  "deadline_after instant_max now milliseconds =
     (let t = now + unat milliseconds * 1000000
      in if t \<le> instant_max then Ok t else Fail InvalidRequestTimeout)"

datatype received = Received session_message | Recv_error | Elapsed

record turn =
  head_clock :: instant
  received_value :: received
  after_clock :: instant

definition timeout_reason :: "bool \<Rightarrow> string" where
  "timeout_reason ack_received =
     (if ack_received then ''no response after acknowledgement'' else ''remote peer did not acknowledge'')"

definition timed_out :: "bool \<Rightarrow> json res" where
  "timed_out ack_received = Fail (RequestTimeout (timeout_reason ack_received))"

fun response_loop ::
  "instant \<Rightarrow> string \<Rightarrow> u64 \<Rightarrow> instant \<Rightarrow> bool \<Rightarrow> turn list \<Rightarrow> json res option" where
  "response_loop mx mid resp_ms deadline acked [] = None"
| "response_loop mx mid resp_ms deadline acked (t # ts) =
     (if head_clock t \<ge> deadline then Some (timed_out acked)
      else (case received_value t of
          Received (Ack i) \<Rightarrow>
            if i = mid \<and> \<not> acked then
              (case deadline_after mx (after_clock t) resp_ms of
                 Inl e \<Rightarrow> Some (Inl e)
               | Inr d \<Rightarrow> response_loop mx mid resp_ms d True ts)
            else response_loop mx mid resp_ms deadline acked ts
        | Received (Response i p) \<Rightarrow>
            if i = mid then Some (Ok p) else response_loop mx mid resp_ms deadline acked ts
        | Received (Failed i) \<Rightarrow>
            if i = mid then Some (Fail RequestFailed) else response_loop mx mid resp_ms deadline acked ts
        | Received Close \<Rightarrow> Some (Fail SessionClosed)
        | Received _ \<Rightarrow> response_loop mx mid resp_ms deadline acked ts
        | Recv_error \<Rightarrow> Some (Fail ResponseChannelClosed)
        | Elapsed \<Rightarrow> Some (timed_out acked)))"

definition receive_response ::
  "instant \<Rightarrow> instant \<Rightarrow> string \<Rightarrow> u64 \<Rightarrow> u64 \<Rightarrow> turn list \<Rightarrow> json res option" where
  "receive_response mx start mid ack_ms resp_ms ts =
     (case deadline_after mx start ack_ms of
        Inl e \<Rightarrow> Some (Inl e)
      | Inr deadline \<Rightarrow> response_loop mx mid resp_ms deadline False ts)"

section \<open>Which messages matter\<close>

text \<open>A turn of the loop that is about somebody else's request.\<close>

fun unrelated :: "string \<Rightarrow> received \<Rightarrow> bool" where
  "unrelated mid (Received (Ack i)) \<longleftrightarrow> i \<noteq> mid"
| "unrelated mid (Received (Response i p)) \<longleftrightarrow> i \<noteq> mid"
| "unrelated mid (Received (Failed i)) \<longleftrightarrow> i \<noteq> mid"
| "unrelated mid (Received (Request i p)) \<longleftrightarrow> True"
| "unrelated mid (Received Unknown) \<longleftrightarrow> True"
| "unrelated mid _ \<longleftrightarrow> False"

lemma unrelated_turn:
  assumes "unrelated mid (received_value t)" "head_clock t < deadline"
  shows "response_loop mx mid resp_ms deadline acked (t # ts) = response_loop mx mid resp_ms deadline acked ts"
proof (cases "received_value t")
  case (Received m)
  with assms show ?thesis by (cases m) auto
qed (use assms in auto)

lemma late_head:
  assumes "\<forall>t \<in> set ts. deadline \<le> head_clock t" "ts \<noteq> []"
  shows "response_loop mx mid resp_ms deadline acked ts = Some (timed_out acked)"
  using assms by (cases ts) auto

lemma response_loop_filter:
  assumes "sorted (map head_clock ts)"
    "response_loop mx mid resp_ms deadline acked (filter (\<lambda>t. \<not> unrelated mid (received_value t)) ts) = Some r"
  shows "response_loop mx mid resp_ms deadline acked ts = Some r"
  using assms
proof (induction ts arbitrary: deadline acked)
  case (Cons t ts)
  let ?f = "filter (\<lambda>t. \<not> unrelated mid (received_value t))"
  show ?case
  proof (cases "unrelated mid (received_value t)")
    case True
    show ?thesis
    proof (cases "head_clock t < deadline")
      case early: True
      have "response_loop mx mid resp_ms deadline acked ts = Some r"
        using True Cons.IH [of deadline acked] Cons.prems by simp
      then show ?thesis unfolding unrelated_turn [OF True early] .
    next
      case False
      have "\<forall>u \<in> set (?f ts). deadline \<le> head_clock u" using False Cons.prems(1) by fastforce
      moreover have "?f ts \<noteq> []" using Cons.prems(2) True by auto
      ultimately have "response_loop mx mid resp_ms deadline acked (?f ts) = Some (timed_out acked)"
        by (rule late_head)
      with False True Cons.prems(2) show ?thesis by simp
    qed
  next
    case False
    note prems = Cons.prems [simplified False]
    have IH: "response_loop mx mid resp_ms d a (?f ts) = Some r \<Longrightarrow> response_loop mx mid resp_ms d a ts = Some r" for d a
      using Cons.IH Cons.prems(1) by simp
    show ?thesis
      using Cons.prems(2) False IH
      by (auto split: if_splits received.splits session_message.splits sum.splits)
  qed
qed simp

text \<open>
  A flood of other messages neither delays nor changes the outcome: on a clock that does
  not go back, whatever the loop returns when it sees only what concerns its own request,
  it also returns when any other messages come in between.
\<close>

lemma unrelated_messages_ignored:
  assumes "sorted (map head_clock ts)"
    "receive_response mx start mid ack_ms resp_ms (filter (\<lambda>t. \<not> unrelated mid (received_value t)) ts) = Some r"
  shows "receive_response mx start mid ack_ms resp_ms ts = Some r"
  using assms by (auto simp: receive_response_def intro: response_loop_filter split: sum.splits)

section \<open>Outcomes\<close>

lemma response_loop_Ok:
  assumes "response_loop mx mid resp_ms deadline acked ts = Some (Ok v)"
  shows "\<exists>t \<in> set ts. received_value t = Received (Response mid v)"
  using assms
  by (induction ts arbitrary: deadline acked)
     (auto simp: timed_out_def split: if_splits received.splits session_message.splits sum.splits)

lemma response_loop_failed:
  assumes "response_loop mx mid resp_ms deadline acked ts = Some (Fail RequestFailed)"
  shows "\<exists>t \<in> set ts. received_value t = Received (Failed mid)"
  using assms
  by (induction ts arbitrary: deadline acked)
     (auto simp: timed_out_def deadline_after_def Let_def
           split: if_splits received.splits session_message.splits sum.splits)

text \<open>
  A caller gets only answers to its own request: a value is the payload of a response that
  carries the request's id, and a remote failure was reported for that id.
\<close>

lemma response_belongs_to_request:
  assumes "receive_response mx start mid ack_ms resp_ms ts = Some r"
  shows "(\<forall>v. r = Ok v \<longrightarrow> (\<exists>t \<in> set ts. received_value t = Received (Response mid v))) \<and>
    (r = Fail RequestFailed \<longrightarrow> (\<exists>t \<in> set ts. received_value t = Received (Failed mid)))"
proof (cases "deadline_after mx start ack_ms")
  case (Inl e)
  with assms show ?thesis
    by (auto simp: receive_response_def deadline_after_def Let_def split: if_splits)
next
  case (Inr d)
  with assms have "response_loop mx mid resp_ms d False ts = Some r" by (simp add: receive_response_def)
  then show ?thesis using response_loop_Ok response_loop_failed by blast
qed

lemma response_loop_returns:
  assumes "deadline \<le> head_clock t"
    "\<not> acked \<Longrightarrow> \<forall>u \<in> set us. after_clock u + unat resp_ms * 1000000 \<le> head_clock t"
  shows "\<exists>r. response_loop mx mid resp_ms deadline acked (us @ t # ts) = Some r"
  using assms
proof (induction us arbitrary: deadline acked)
  case (Cons u us)
  have IH: "\<exists>r. response_loop mx mid resp_ms d a (us @ t # ts) = Some r"
    if "d \<le> head_clock t" "a \<or> \<not> acked" for d a
    using Cons.IH [of d a] Cons.prems that by auto
  have ack: "\<exists>r. response_loop mx mid resp_ms d True (us @ t # ts) = Some r"
    if "\<not> acked" "deadline_after mx (after_clock u) resp_ms = Ok d" for d
    using IH [of d True] Cons.prems(2) that by (auto simp: deadline_after_def Let_def split: if_splits)
  show ?case
    using IH [of deadline acked] Cons.prems ack
    by (auto split: received.splits session_message.splits sum.splits)
qed simp



text \<open>
  Without an acknowledgement the request fails with the acknowledgement timeout at the
  first turn past its deadline, whatever unrelated messages kept the loop busy before.
\<close>

theorem unacknowledged_times_out:
  assumes "\<And>u. u \<in> set us \<Longrightarrow> unrelated mid (received_value u)"
    "start + unat ack_ms * 1000000 \<le> mx" "start + unat ack_ms * 1000000 \<le> head_clock t"
  shows "receive_response mx start mid ack_ms resp_ms (us @ t # ts) =
    Some (Fail (RequestTimeout ''remote peer did not acknowledge''))"
proof -
  have "response_loop mx mid resp_ms d False (us @ t # ts) = Some (timed_out False)"
    if "d \<le> head_clock t" for d
    using assms(1)
  proof (induction us)
    case (Cons u us)
    then have "response_loop mx mid resp_ms d False (us @ t # ts) = Some (timed_out False)" by simp
    moreover have "unrelated mid (received_value u)" using Cons.prems by simp
    ultimately show ?case
      by (cases "head_clock u < d") (simp_all add: unrelated_turn del: response_loop.simps(2), simp)
  qed (use that in simp)
  with assms(2,3) show ?thesis
    by (simp add: receive_response_def deadline_after_def timed_out_def timeout_reason_def Let_def)
qed

theorem unacknowledged_times_out_witness:
  "receive_response 100000000 0 ''a'' 1 5
     ([\<lparr>head_clock = 5, received_value = Received (Ack ''b''), after_clock = 6\<rparr>] @
      \<lparr>head_clock = 1000000, received_value = Received (Ack ''a''), after_clock = 1000001\<rparr> # []) =
   Some (Fail (RequestTimeout ''remote peer did not acknowledge''))"
  by (rule unacknowledged_times_out) auto

end
