(* ===== verification/Session.thy ===== *)
theory Session
  imports Channels Transport Control Response
begin

text \<open>
  Sessions (crates/openlv/src/session/mod.rs): creation from a configuration or a connection
  URL, connecting, the bodies of the four event loops, requests in both directions, and
  closing. A session owns a signaling layer with its channel, a transport and its control;
  the peer key it encrypts with is the one its signaling layer recorded. Broadcast channels
  are the logs of what was sent on them. Timestamps, random bytes, identifiers, the
  network, the WebRTC library and the request handler are arguments.
\<close>

section \<open>State\<close>

definition DEFAULT_ACK_TIMEOUT_MS :: u64 where "DEFAULT_ACK_TIMEOUT_MS = 10000"
definition DEFAULT_RESPONSE_TIMEOUT_MS :: u64 where "DEFAULT_RESPONSE_TIMEOUT_MS = 3600000"

datatype session_status = Created | Signaling_up | Link_ready | Linking | Connected | Disconnected

record session_state_object =
  so_status :: session_status
  so_signaling :: "signal_state option"
  so_peer_info :: "peer_info option"
  so_error :: "string option"

record session_init =
  si_session_id :: "string option"
  si_h :: "string option"
  si_k :: "handshake_key option"
  si_p :: "string option"
  si_s :: "string option"
  si_info :: "peer_info option"

record session_config =
  sc_connect_url :: "string option"
  sc_session_id :: "string option"
  sc_protocol :: "signaling_protocol option"
  sc_server :: "string option"
  sc_handshake_key :: "handshake_key option"
  sc_info :: "peer_info option"

record session =
  ss_uri :: session_uri
  ss_is_host :: bool
  ss_status :: session_status
  ss_state_tx :: "session_state_object list"
  ss_observed :: bool
  ss_request_tx :: "json list"
  ss_response_tx :: "session_message list"
  ss_signaling :: layer
  ss_channel :: channel
  ss_transport :: transport
  ss_error :: "string option"
  ss_decryption_key :: decryption_key
  ss_control :: control
  ss_close_result :: "unit res option"
  ss_peer_closed :: bool
  ss_events_taken :: bool

section \<open>Creation\<close>

definition dapp :: session_config where
  "dapp = \<lparr>sc_connect_url = None, sc_session_id = None, sc_protocol = None, sc_server = None,
     sc_handshake_key = None, sc_info = None\<rparr>"

definition config_session_id :: "string \<Rightarrow> session_config \<Rightarrow> session_config" where
  "config_session_id i c = c\<lparr>sc_session_id := Some i\<rparr>"

definition config_protocol :: "signaling_protocol \<Rightarrow> session_config \<Rightarrow> session_config" where
  "config_protocol p c = c\<lparr>sc_protocol := Some p\<rparr>"

definition config_server :: "string \<Rightarrow> session_config \<Rightarrow> session_config" where
  "config_server s c = c\<lparr>sc_server := Some s\<rparr>"

definition config_handshake_key :: "handshake_key \<Rightarrow> session_config \<Rightarrow> session_config" where
  "config_handshake_key k c = c\<lparr>sc_handshake_key := Some k\<rparr>"

definition config_info :: "peer_info \<Rightarrow> session_config \<Rightarrow> session_config" where
  "config_info i c = c\<lparr>sc_info := Some i\<rparr>"

definition config_connect_url :: "string \<Rightarrow> session_config \<Rightarrow> session_config" where
  "config_connect_url url c = c\<lparr>sc_connect_url := Some url\<rparr>"

lemmas config_defs =
  config_session_id_def config_protocol_def config_server_def config_handshake_key_def config_info_def
  config_connect_url_def

definition wallet :: "string \<Rightarrow> session_config" where
  "wallet url = config_connect_url url dapp"

definition build_session ::
  "session_uri \<Rightarrow> bool \<Rightarrow> layer \<Rightarrow> channel \<Rightarrow> decryption_key \<Rightarrow> session" where
  "build_session uri is_host sig ch dk =
     \<lparr>ss_uri = uri, ss_is_host = is_host, ss_status = Created, ss_state_tx = [], ss_observed = False,
      ss_request_tx = [], ss_response_tx = [], ss_signaling = sig, ss_channel = ch,
      ss_transport = new_transport is_host, ss_error = None, ss_decryption_key = dk,
      ss_control = new_control, ss_close_result = None, ss_peer_closed = False, ss_events_taken = False\<rparr>"

definition own_capabilities :: "peer_info option \<Rightarrow> peer_capabilities" where
  "own_capabilities i = \<lparr>transports = [''wrtc''], info = i\<rparr>"

text \<open>\<open>rid\<close>, \<open>rkp\<close> and \<open>rhk\<close> are the random bytes of the id, the key pair and the handshake key.\<close>

definition create_session ::
  "platform \<Rightarrow> uri_env \<Rightarrow> bytes \<Rightarrow> bytes \<Rightarrow> bytes \<Rightarrow> session_init \<Rightarrow> session res" where
  "create_session P E rid rkp rhk i =
     (let sid = (case si_session_id i of Some s \<Rightarrow> s | None \<Rightarrow> generate_session_id rid) in
      rbind (generate_key_pair P rkp) (\<lambda>kp.
      rbind (case si_k i of Some k \<Rightarrow> Ok k | None \<Rightarrow> generate_handshake_key rhk) (\<lambda>hk.
      rbind (init_hash P (si_h i) (kp_encryption_key kp)) (\<lambda>ih.
      let protocol = protocol_from E (case si_p i of Some p \<Rightarrow> p | None \<Rightarrow> ''ntfy'');
          server = (case si_s i of Some s \<Rightarrow> s | None \<Rightarrow> ''https://ntfy.sh/'') in
      rbind (create_signaling_channel protocol sid server) (\<lambda>ch.
      let sig = new_layer (channel_type_of ch)
            \<lparr>sp_is_host = ih_is_host ih, sp_h = ih_hash ih, sp_handshake_key = Some hk,
             sp_encryption_key = kp_encryption_key kp, sp_decryption_key = kp_decryption_key kp,
             sp_capabilities = own_capabilities (si_info i)\<rparr>;
          uri = session_uri_new sid (hash_public_key P (kp_encryption_key kp)) hk protocol server
      in Ok (build_session uri True sig ch (kp_decryption_key kp)))))))"

definition connect_session_with_info ::
  "platform \<Rightarrow> uri_env \<Rightarrow> bytes \<Rightarrow> string \<Rightarrow> peer_info option \<Rightarrow> session res" where
  "connect_session_with_info P E rkp url i =
     rbind (session_uri_from_url E url) (\<lambda>uri.
     case uri of Version1 u \<Rightarrow>
     rbind (generate_key_pair P rkp) (\<lambda>kp.
     rbind (init_hash P (Some (key_hash u)) (kp_encryption_key kp)) (\<lambda>ih.
     rbind (signaling_layer_from_version1 u kp (ih_is_host ih) (own_capabilities i)) (\<lambda>(sig, ch).
     Ok (build_session uri (ih_is_host ih) sig ch (kp_decryption_key kp))))))"

definition connect_session :: "platform \<Rightarrow> uri_env \<Rightarrow> bytes \<Rightarrow> string \<Rightarrow> session res" where
  "connect_session P E rkp url = connect_session_with_info P E rkp url None"

definition on_request ::
  "platform \<Rightarrow> uri_env \<Rightarrow> bytes \<Rightarrow> bytes \<Rightarrow> bytes \<Rightarrow> session_config \<Rightarrow> session res" where
  "on_request P E rid rkp rhk c =
     rbind (case sc_info c of
              Some i \<Rightarrow> map_err (\<lambda>reason. Err (Session reason)) (validate_peer_info i)
            | None \<Rightarrow> Ok ()) (\<lambda>_.
     case sc_connect_url c of
       Some url \<Rightarrow> connect_session_with_info P E rkp url (sc_info c)
     | None \<Rightarrow>
         create_session P E rid rkp rhk
           \<lparr>si_session_id = sc_session_id c, si_h = None, si_k = sc_handshake_key c,
            si_p = Some (case sc_protocol c of Some p \<Rightarrow> protocol_to_string p | None \<Rightarrow> ''ntfy''),
            si_s = Some (case sc_server c of Some s \<Rightarrow> s | None \<Rightarrow> ''https://ntfy.sh/''),
            si_info = sc_info c\<rparr>)"

section \<open>Status and errors\<close>

definition peer_info_of :: "session \<Rightarrow> peer_info option" where
  "peer_info_of S = Option.bind (peer_caps (ss_signaling S)) info"

definition session_state :: "session \<Rightarrow> session_state_object" where
  "session_state S = \<lparr>so_status = ss_status S, so_signaling = Some (sl_state (ss_signaling S)),
     so_peer_info = peer_info_of S, so_error = ss_error S\<rparr>"

definition set_status :: "session_status \<Rightarrow> session \<Rightarrow> session" where
  "set_status st S = (let S1 = S\<lparr>ss_status := st\<rparr> in S1\<lparr>ss_state_tx := ss_state_tx S1 @ [session_state S1]\<rparr>)"

definition set_error :: "string \<Rightarrow> session \<Rightarrow> session" where
  "set_error e S = S\<lparr>ss_error := Some e\<rparr>"

definition clear_error :: "session \<Rightarrow> session" where
  "clear_error S = S\<lparr>ss_error := None\<rparr>"

definition set_transport_error :: "session \<Rightarrow> session" where
  "set_transport_error S = (if \<not> ss_peer_closed S then set_error ''peer-to-peer transport failed'' S else S)"

definition select_transport_id :: "bool \<Rightarrow> string list \<Rightarrow> string list \<Rightarrow> string option" where
  "select_transport_id is_host own_transports peer_transports =
     (let host_preference = (if is_host then own_transports else peer_transports);
          client_supported = (if is_host then peer_transports else own_transports)
      in find (\<lambda>t. t \<in> set client_supported) host_preference)"

definition select_transport :: "session \<Rightarrow> string option" where
  "select_transport S =
     Option.bind (peer_caps (ss_signaling S)) (\<lambda>peer.
       select_transport_id (ss_is_host S) [''wrtc''] (transports peer))"

section \<open>Sending\<close>

definition send_session_message ::
  "platform \<Rightarrow> webrtc \<Rightarrow> bytes \<Rightarrow> session \<Rightarrow> session_message \<Rightarrow> unit res \<times> session" where
  "send_session_message P W rnd S m =
     (let plaintext = json_print P (session_message_to_value m) in
      case rbind (ok_or (Err (Session ''relying party public key not found'')) (relying_key (ss_signaling S)))
             (\<lambda>k. peer_encrypt P rnd (ss_decryption_key S) plaintext k) of
        Inl e \<Rightarrow> (Inl e, S)
      | Inr encrypted \<Rightarrow>
        (case t_send W (ss_transport S) encrypted of (r, T) \<Rightarrow> (r, S\<lparr>ss_transport := T\<rparr>)))"

definition relay_negotiation ::
  "platform \<Rightarrow> network \<Rightarrow> u64 \<Rightarrow> bytes \<Rightarrow> string \<Rightarrow> session \<Rightarrow> negotiation \<Rightarrow> unit res \<times> session" where
  "relay_negotiation P N now rnd uuid S n =
     (let request = Request uuid (negotiation_to_value n) in
      case layer_send P now rnd (channel_publish P N (ss_channel S)) (ss_signaling S)
             (session_message_to_value request) of
        (r, L) \<Rightarrow> (r, S\<lparr>ss_signaling := L\<rparr>))"

section \<open>Requests from the peer\<close>

definition observe_request :: "json \<Rightarrow> session \<Rightarrow> session" where
  "observe_request payload S =
     (if ss_observed S then S\<lparr>ss_request_tx := ss_request_tx S @ [payload]\<rparr> else S)"

text \<open>
  Dispatching takes a permit, then spawns the task that owns it; a permit whose task cannot
  be spawned is dropped. The task itself is \<open>handle_remote_request\<close>.
\<close>

definition dispatch_request :: "session \<Rightarrow> json \<Rightarrow> unit res \<times> session" where
  "dispatch_request S payload =
     (case admit_handler (ss_control S) of
        (Inl e, c) \<Rightarrow> (Inl e, S\<lparr>ss_control := c\<rparr>)
      | (Inr _, c) \<Rightarrow>
        let S1 = observe_request payload (S\<lparr>ss_control := c\<rparr>) in
        (case spawn_control (ss_control S1) of
           (Inl e, c1) \<Rightarrow> (Inl e, S1\<lparr>ss_control := drop_permit c1\<rparr>)
         | (Inr _, c1) \<Rightarrow> (Ok (), S1\<lparr>ss_control := c1\<rparr>)))"

definition handle_remote_request ::
  "platform \<Rightarrow> webrtc \<Rightarrow> bytes \<Rightarrow> bytes \<Rightarrow> (json \<Rightarrow> json res) \<Rightarrow> session \<Rightarrow> string \<Rightarrow> json \<Rightarrow> session" where
  "handle_remote_request P W r1 r2 on_message S mid payload =
     (let S1 = snd (send_session_message P W r1 S (Ack mid));
          outcome = on_message payload;
          S2 = (if outcome = panicked then S1
                else snd (send_session_message P W r2 S1 (reply mid outcome)))
      in S2\<lparr>ss_control := drop_permit (ss_control S2)\<rparr>)"

definition session_message_from_str :: "platform \<Rightarrow> string \<Rightarrow> session_message res" where
  "session_message_from_str P s =
     rbind (map_err (\<lambda>e. Err (Other e)) (json_parse P s)) (\<lambda>v.
       ok_or (Err (Other (json_error P v))) (session_message_from_value v))"

definition handle_session_frame :: "platform \<Rightarrow> session \<Rightarrow> string \<Rightarrow> unit res \<times> session" where
  "handle_session_frame P S plaintext =
     (case session_message_from_str P plaintext of
        Inl e \<Rightarrow> (Inl e, S)
      | Inr message \<Rightarrow>
        (case message of
           Request mid payload \<Rightarrow> dispatch_request S payload
         | Close \<Rightarrow>
             let S1 = clear_error (S\<lparr>ss_peer_closed := True\<rparr>);
                 S2 = S1\<lparr>ss_response_tx := ss_response_tx S1 @ [Close]\<rparr>
             in (Ok (), set_status Disconnected S2)
         | Unknown \<Rightarrow> (Ok (), S)
         | other \<Rightarrow> (Ok (), S\<lparr>ss_response_tx := ss_response_tx S @ [other]\<rparr>)))"

definition handle_transport_payload :: "platform \<Rightarrow> session \<Rightarrow> string \<Rightarrow> unit res \<times> session" where
  "handle_transport_payload P S raw =
     (case peer_decrypt P (ss_decryption_key S) raw (relying_key (ss_signaling S)) of
        Inl e \<Rightarrow> (Inl e, S)
      | Inr plaintext \<Rightarrow> handle_session_frame P S plaintext)"

text \<open>Observers of the accepted requests, and of the states: they see what comes after.\<close>

definition subscribe_requests :: "session \<Rightarrow> session" where
  "subscribe_requests S = S\<lparr>ss_observed := True\<rparr>"

definition subscribe_state :: "session \<Rightarrow> nat" where
  "subscribe_state S = length (ss_state_tx S)"

definition session_closed :: "session \<Rightarrow> bool" where
  "session_closed S = closed_ready (ss_control S)"

section \<open>The event loops\<close>

text \<open>The body of each loop; results that the source only logs are dropped.\<close>

definition on_signal_state :: "webrtc \<Rightarrow> signal_state \<Rightarrow> session \<Rightarrow> session" where
  "on_signal_state W st S =
     (case st of
        S_Ready \<Rightarrow> set_status Link_ready S
      | S_Handshake \<Rightarrow> set_status Linking S
      | S_HandshakePartial \<Rightarrow> set_status Linking S
      | S_Encrypted \<Rightarrow>
          if select_transport S = None then
            set_status Disconnected (set_error ''no common transport with peer'' S)
          else
            (case t_setup W (ss_transport S) of
               (Inr _, T) \<Rightarrow> S\<lparr>ss_transport := T\<rparr>
             | (Inl (Err e), T) \<Rightarrow>
                 set_status Disconnected (set_error (error_to_string e) (S\<lparr>ss_transport := T\<rparr>))
             | (Inl Panic, T) \<Rightarrow> S\<lparr>ss_transport := T\<rparr>)
      | S_Error \<Rightarrow> set_status Disconnected (set_error ''signaling failed or timed out'' S)
      | _ \<Rightarrow> S)"

text \<open>What the loop does with the outcome of the setup, or of one of its stages.\<close>

definition setup_outcome :: "unit res \<times> transport \<Rightarrow> session \<Rightarrow> session" where
  "setup_outcome rT S =
     (case rT of
        (Inr _, T) \<Rightarrow> S\<lparr>ss_transport := T\<rparr>
      | (Inl (Err e), T) \<Rightarrow> set_status Disconnected (set_error (error_to_string e) (S\<lparr>ss_transport := T\<rparr>))
      | (Inl Panic, T) \<Rightarrow> S\<lparr>ss_transport := T\<rparr>)"

lemma on_signal_state_encrypted:
  "select_transport S \<noteq> None \<Longrightarrow> on_signal_state W S_Encrypted S = setup_outcome (t_setup W (ss_transport S)) S"
  by (auto simp: on_signal_state_def setup_outcome_def)

text \<open>
  A payload from signaling is a negotiation message, alone or inside a request; any other
  session message goes to the waiting requests.
\<close>

definition signal_negotiation :: "json \<Rightarrow> session \<Rightarrow> negotiation option \<times> session" where
  "signal_negotiation payload S =
     (case negotiation_from_value payload of
        Some n \<Rightarrow> (Some n, S)
      | None \<Rightarrow>
        (case session_message_from_value payload of
           None \<Rightarrow> (None, S)
         | Some (Request _ p) \<Rightarrow> (negotiation_from_value p, S)
         | Some other \<Rightarrow> (None, S\<lparr>ss_response_tx := ss_response_tx S @ [other]\<rparr>)))"

definition on_signal_message :: "webrtc \<Rightarrow> json \<Rightarrow> session \<Rightarrow> session" where
  "on_signal_message W payload S =
     (case signal_negotiation payload S of
        (None, S1) \<Rightarrow> S1
      | (Some n, S1) \<Rightarrow> S1\<lparr>ss_transport := snd (t_handle W (ss_transport S1) n)\<rparr>)"

text \<open>The flag says that the loop goes on.\<close>

definition on_transport_state :: "transport_state \<Rightarrow> session \<Rightarrow> bool \<times> session" where
  "on_transport_state st S =
     (case st of
        T_Connected \<Rightarrow> (True, set_status Connected S)
      | T_Error \<Rightarrow> (False, set_status Disconnected (set_transport_error S))
      | _ \<Rightarrow> (True, S))"

definition on_transport_event ::
  "platform \<Rightarrow> network \<Rightarrow> u64 \<Rightarrow> bytes \<Rightarrow> string \<Rightarrow> transport_event \<Rightarrow> session \<Rightarrow> session" where
  "on_transport_event P N now rnd uuid ev S =
     (case ev of
        Negotiation n \<Rightarrow> snd (relay_negotiation P N now rnd uuid S n)
      | Message raw \<Rightarrow> snd (handle_transport_payload P S raw))"

section \<open>The public operations\<close>

text \<open>The four loops are tasks of the session.\<close>

fun spawn_loops :: "nat \<Rightarrow> control \<Rightarrow> unit res \<times> control" where
  "spawn_loops 0 c = (Ok (), c)"
| "spawn_loops (Suc n) c =
     (case spawn_control c of (Inl e, c1) \<Rightarrow> (Inl e, c1) | (Inr _, c1) \<Rightarrow> spawn_loops n c1)"

definition start_event_loops :: "session \<Rightarrow> unit res \<times> session" where
  "start_event_loops S = (case spawn_loops 4 (ss_control S) of (r, c) \<Rightarrow> (r, S\<lparr>ss_control := c\<rparr>))"

definition signaling_setup ::
  "platform \<Rightarrow> network \<Rightarrow> u64 \<Rightarrow> bytes \<Rightarrow> session \<Rightarrow> unit res \<times> session" where
  "signaling_setup P N now rnd S =
     (case channel_setup P N (ss_channel S) of (r1, ch1) \<Rightarrow>
        (case (if is_ok r1 then channel_subscribe ch1 else (r1, ch1)) of (r2, ch2) \<Rightarrow>
           (case layer_setup P now rnd (channel_publish P N ch2) r1 r2 (ss_signaling S) of
              (r, L) \<Rightarrow> (r, S\<lparr>ss_channel := ch2, ss_signaling := L\<rparr>))))"

text \<open>\<open>run_operation\<close> around a body that works on the session: its task is registered first.\<close>

definition in_operation :: "(session \<Rightarrow> 'a res \<times> session) \<Rightarrow> session \<Rightarrow> 'a res \<times> session" where
  "in_operation body S =
     (case spawn_control (ss_control S) of
        (Inl e, c) \<Rightarrow> (Inl e, S\<lparr>ss_control := c\<rparr>)
      | (Inr i, c) \<Rightarrow>
        (case body (S\<lparr>ss_control := c\<rparr>) of
           (r, S1) \<Rightarrow> (r, S1\<lparr>ss_control := abort_handle i (end_task i (ss_control S1))\<rparr>)))"

definition session_connect :: "platform \<Rightarrow> network \<Rightarrow> u64 \<Rightarrow> bytes \<Rightarrow> session \<Rightarrow> unit res \<times> session" where
  "session_connect P N now rnd =
     in_operation (\<lambda>S.
       if ss_events_taken S then (Fail (Session ''session already connected''), S)
       else
         (case start_event_loops (set_status Signaling_up (S\<lparr>ss_events_taken := True\<rparr>)) of
            (Inl e, S1) \<Rightarrow> (Inl e, S1)
          | (Inr _, S1) \<Rightarrow> signaling_setup P N now rnd S1))"

definition signaling_teardown :: "network \<Rightarrow> session \<Rightarrow> unit res \<times> session" where
  "signaling_teardown N S =
     (case channel_teardown N (ss_channel S) of (rc, ch) \<Rightarrow>
        (case layer_teardown rc (ss_signaling S) of
           (r, L) \<Rightarrow> (r, S\<lparr>ss_channel := ch, ss_signaling := L\<rparr>)))"

text \<open>
  \<open>close\<close>; \<open>ends\<close> is the order in which the runtime destroys the session's tasks. The call has
  not returned (\<open>None\<close>) while one of them is still alive.
\<close>

definition session_close ::
  "platform \<Rightarrow> network \<Rightarrow> webrtc \<Rightarrow> bytes \<Rightarrow> nat list \<Rightarrow> session \<Rightarrow> unit res option \<times> session" where
  "session_close P N W rnd ends S =
     (let S0 = S\<lparr>ss_control := close_control (ss_control S)\<rparr> in
      case ss_close_result S0 of
        Some r \<Rightarrow> (Some r, S0)
      | None \<Rightarrow>
        let S1 = snd (send_session_message P W rnd S0 Close) in
        (case wait_for_tasks ends (ss_control S1) of (finished, c) \<Rightarrow>
           let S2 = S1\<lparr>ss_control := c\<rparr> in
           if \<not> finished then (None, S2)
           else
             (case t_teardown W (ss_transport S2) of (rt, T) \<Rightarrow>
                (case signaling_teardown N (S2\<lparr>ss_transport := T\<rparr>) of (rs, S3) \<Rightarrow>
                   let r = rbind rt (\<lambda>_. rs);
                       S4 = set_status Disconnected S3
                   in (Some r, S4\<lparr>ss_close_result := Some r\<rparr>)))))"

text \<open>
  \<open>send_with_timeouts\<close>: the turns of the wait are observed after the request was sent, by a
  receiver that subscribed before it.
\<close>

definition send_request ::
  "platform \<Rightarrow> webrtc \<Rightarrow> bytes \<Rightarrow> string \<Rightarrow> session \<Rightarrow> json \<Rightarrow> unit res \<times> session" where
  "send_request P W rnd uuid S message =
     (if sl_state (ss_signaling S) \<noteq> S_Encrypted then (Fail (Session ''session not ready''), S)
      else send_session_message P W rnd S (Request uuid message))"

definition send_with_timeouts ::
  "platform \<Rightarrow> webrtc \<Rightarrow> bytes \<Rightarrow> string \<Rightarrow> instant \<Rightarrow> instant \<Rightarrow> turn list \<Rightarrow> session \<Rightarrow> json \<Rightarrow> u64 \<Rightarrow> u64
    \<Rightarrow> json res option \<times> session" where
  "send_with_timeouts P W rnd uuid mx start turns S message ack_ms resp_ms =
     (case spawn_control (ss_control S) of
        (Inl e, c) \<Rightarrow> (Some (Inl e), S\<lparr>ss_control := c\<rparr>)
      | (Inr i, c) \<Rightarrow>
        (case send_request P W rnd uuid (S\<lparr>ss_control := c\<rparr>) message of
           (Inl e, S1) \<Rightarrow> (Some (Inl e), S1\<lparr>ss_control := abort_handle i (end_task i (ss_control S1))\<rparr>)
         | (Inr _, S1) \<Rightarrow>
           (case receive_response mx start uuid ack_ms resp_ms turns of
              None \<Rightarrow> (None, S1)
            | Some r \<Rightarrow> (Some r, S1\<lparr>ss_control := abort_handle i (end_task i (ss_control S1))\<rparr>))))"

definition session_send ::
  "platform \<Rightarrow> webrtc \<Rightarrow> bytes \<Rightarrow> string \<Rightarrow> instant \<Rightarrow> instant \<Rightarrow> turn list \<Rightarrow> session \<Rightarrow> json
    \<Rightarrow> json res option \<times> session" where
  "session_send P W rnd uuid mx start turns S message =
     send_with_timeouts P W rnd uuid mx start turns S message DEFAULT_ACK_TIMEOUT_MS DEFAULT_RESPONSE_TIMEOUT_MS"

text \<open>\<open>wait_for_link\<close>: each turn sees what the state channel gave and the transport's state then.\<close>

definition link_error :: "session \<Rightarrow> unit res" where
  "link_error S = Fail (Session (case ss_error S of Some e \<Rightarrow> e | None \<Rightarrow> ''session failed to connect''))"

fun link_loop :: "(state_recv \<times> transport_state) list \<Rightarrow> session \<Rightarrow> unit res option \<times> session" where
  "link_loop [] S = (None, S)"
| "link_loop ((r, now) # rest) S =
     (case r of
        State T_Connected \<Rightarrow> (Some (Ok ()), set_status Connected S)
      | State T_Error \<Rightarrow>
          (let S1 = set_status Disconnected (set_transport_error S) in (Some (link_error S1), S1))
      | State_closed \<Rightarrow>
          if now = T_Connected then (Some (Ok ()), set_status Connected S)
          else (Some (Fail (Session ''transport state channel closed'')), S)
      | _ \<Rightarrow>
          if now = T_Connected then (Some (Ok ()), set_status Connected S) else link_loop rest S)"

definition wait_for_link :: "(state_recv \<times> transport_state) list \<Rightarrow> session \<Rightarrow> unit res option \<times> session" where
  "wait_for_link turns S =
     (if ss_status S = Connected then (Some (Ok ()), S)
      else if ss_status S = Disconnected then (Some (link_error S), S)
      else if tp_state (ss_transport S) = T_Connected then (Some (Ok ()), set_status Connected S)
      else link_loop turns S)"

text \<open>The public \<open>wait_for_link\<close> runs the wait as an operation; dropping a session closes its control.\<close>

definition session_wait_for_link ::
  "(state_recv \<times> transport_state) list \<Rightarrow> session \<Rightarrow> unit res option \<times> session" where
  "session_wait_for_link turns S =
     (case spawn_control (ss_control S) of
        (Inl e, c) \<Rightarrow> (Some (Inl e), S\<lparr>ss_control := c\<rparr>)
      | (Inr i, c) \<Rightarrow>
        (case wait_for_link turns (S\<lparr>ss_control := c\<rparr>) of
           (None, S1) \<Rightarrow> (None, S1)
         | (Some r, S1) \<Rightarrow> (Some r, S1\<lparr>ss_control := abort_handle i (end_task i (ss_control S1))\<rparr>)))"

definition session_drop :: "session \<Rightarrow> session" where
  "session_drop S = S\<lparr>ss_control := close_control (ss_control S)\<rparr>"

end
