(* ===== verification/Session_Properties.thy ===== *)
theory Session_Properties
  imports Session Handshake
begin

text \<open>
  What sessions guarantee: the agreement of both sides on a transport, requests and their
  answers from one session to the other, admission, closing, and that a session made from
  a connection URL fits the session that published it.
\<close>

section \<open>Choice of a transport\<close>

text \<open>
  Both sides choose the same transport without a message about it: from the lists they
  exchanged, host and client compute the same answer, which is the host's first preference
  that the client supports, and none only where they have none in common.
\<close>

theorem select_transport_agrees:
  "select_transport_id True host_list client_list = select_transport_id False client_list host_list \<and>
   (case select_transport_id True host_list client_list of
      Some t \<Rightarrow> \<exists>i < length host_list. host_list ! i = t \<and> t \<in> set client_list \<and>
         (\<forall>j < i. host_list ! j \<notin> set client_list)
    | None \<Rightarrow> set host_list \<inter> set client_list = {})"
proof -
  have "case select_transport_id True host_list client_list of
      Some t \<Rightarrow> \<exists>i < length host_list. host_list ! i = t \<and> t \<in> set client_list \<and>
         (\<forall>j < i. host_list ! j \<notin> set client_list)
    | None \<Rightarrow> set host_list \<inter> set client_list = {}"
    by (auto simp: select_transport_id_def find_Some_iff find_None_iff split: option.splits)
  then show ?thesis by (simp add: select_transport_id_def)
qed

theorem select_transport_agrees_witness:
  "select_transport_id True [''a'', ''wrtc''] [''wrtc''] = select_transport_id False [''wrtc''] [''a'', ''wrtc'']"
  using select_transport_agrees [of "[''a'', ''wrtc'']" "[''wrtc'']"] by simp

section \<open>Texts of session messages\<close>

definition session_text_ok :: "platform \<Rightarrow> session_message \<Rightarrow> bool" where
  "session_text_ok P m \<longleftrightarrow>
     (let v = session_message_to_value m in
      json_parse P (json_print P v) = Inr v \<and> utf8_valid (json_print P v) \<and>
      length (json_print P v) \<le> gcm_limit)"

lemma session_message_from_text:
  "session_text_ok P m \<Longrightarrow> session_message_from_str P (json_print P (session_message_to_value m)) = Ok m"
  by (simp add: session_text_ok_def session_message_from_str_def Let_def)

text \<open>Two sessions after their handshake, seen from the one that sends.\<close>

definition linked :: "platform \<Rightarrow> key_pair \<Rightarrow> key_pair \<Rightarrow> session \<Rightarrow> bool" where
  "linked P a b S \<longleftrightarrow> ss_decryption_key S = kp_decryption_key a \<and>
     relying_key (ss_signaling S) = Some (kp_encryption_key b) \<and>
     tp_state (ss_transport S) = T_Connected \<and> data_channel (ss_transport S)"

definition sending :: "session \<Rightarrow> string \<Rightarrow> session" where
  "sending S e = S\<lparr>ss_transport := (ss_transport S)\<lparr>dc_sent := dc_sent (ss_transport S) @ [e], unflushed := True\<rparr>\<rparr>"

lemma linked_sending [simp]: "linked P a b (sending S e) = linked P a b S"
  by (simp add: linked_def sending_def)

lemma sending_simps [simp]:
  "dc_sent (ss_transport (sending S e)) = dc_sent (ss_transport S) @ [e]"
  "ss_response_tx (sending S e) = ss_response_tx S" "ss_control (sending S e) = ss_control S"
  "ss_signaling (sending S e) = ss_signaling S" "ss_decryption_key (sending S e) = ss_decryption_key S"
  by (simp_all add: sending_def)

text \<open>A message sent by one linked session is the plaintext the other one decrypts.\<close>

lemma message_sent:
  assumes "platform_ok P" "honest_pair P a b" "linked P a b S" "session_text_ok P m" "length rnd = 12"
    "\<And>e. dc_send W e = Inr ()"
  obtains e where "send_session_message P W rnd S m = (Ok (), sending S e)"
    "peer_decrypt P (kp_decryption_key b) e (Some (kp_encryption_key a)) =
       Ok (json_print P (session_message_to_value m))"
proof -
  let ?plain = "json_print P (session_message_to_value m)"
  have P: "base64_ok P" "aead_ok (aes256_encrypt P) (aes256_decrypt P)" "x25519_ok P"
    and kp: "is_key_pair P a" "is_key_pair P b" "contributory_pair P a b"
    and plain: "length rnd = NONCE_BYTES" "utf8_valid ?plain" "length ?plain \<le> gcm_limit"
    using assms by (simp_all add: platform_ok_def honest_pair_def session_text_ok_def NONCE_BYTES_def Let_def)
  obtain ct where ct: "peer_encrypt P rnd (kp_decryption_key a) ?plain (kp_encryption_key b) =
        Ok (to_base64 P (public_key (kp_encryption_key a) @ rnd @ ct))"
      "peer_decrypt P (kp_decryption_key b) (to_base64 P (public_key (kp_encryption_key a) @ rnd @ ct))
         (Some (kp_encryption_key a)) = Ok ?plain"
    using peer_roundtrip_gen [OF P kp plain, of "Some (kp_encryption_key a)"] by metis
  let ?e = "to_base64 P (public_key (kp_encryption_key a) @ rnd @ ct)"
  have "send_session_message P W rnd S m = (Ok (), sending S ?e)"
    using assms(3,6) ct(1) by (simp add: send_session_message_def linked_def t_send_def sending_def Let_def)
  with ct(2) that show ?thesis by blast
qed

lemma received_message:
  assumes "linked P b a S" "session_text_ok P m"
    "peer_decrypt P (kp_decryption_key b) e (Some (kp_encryption_key a)) =
       Ok (json_print P (session_message_to_value m))"
  shows "handle_transport_payload P S e = handle_session_frame P S (json_print P (session_message_to_value m))"
  using assms by (simp add: handle_transport_payload_def linked_def)

section \<open>Requests\<close>

lemma send_session_message_control [simp]:
  "ss_control (snd (send_session_message P W rnd S m)) = ss_control S"
  by (simp add: send_session_message_def Let_def split: sum.splits prod.splits)

lemma control_only [simp]:
  "ss_transport (S\<lparr>ss_control := c\<rparr>) = ss_transport S" "linked P a b (S\<lparr>ss_control := c\<rparr>) = linked P a b S"
  by (simp_all add: linked_def)

lemma handled_texts:
  assumes "platform_ok P" "honest_pair P a b" "length r1 = 12" "length r2 = 12"
    "session_text_ok P (Ack mid)" "session_text_ok P (reply mid (on_message payload))"
    "\<And>e. dc_send W e = Inr ()" "linked P a b S" "on_message payload \<noteq> panicked"
  obtains e1 e2 where "handle_remote_request P W r1 r2 on_message S mid payload =
      (sending (sending S e1) e2)\<lparr>ss_control := drop_permit (ss_control S)\<rparr>"
    "peer_decrypt P (kp_decryption_key b) e1 (Some (kp_encryption_key a)) =
      Ok (json_print P (session_message_to_value (Ack mid)))"
    "peer_decrypt P (kp_decryption_key b) e2 (Some (kp_encryption_key a)) =
      Ok (json_print P (session_message_to_value (reply mid (on_message payload))))"
proof -
  obtain e1 where e1: "send_session_message P W r1 S (Ack mid) = (Ok (), sending S e1)"
    "peer_decrypt P (kp_decryption_key b) e1 (Some (kp_encryption_key a)) =
      Ok (json_print P (session_message_to_value (Ack mid)))"
    by (rule message_sent [OF assms(1,2,8,5,3,7)])
  have "linked P a b (sending S e1)" using assms(8) by simp
  then obtain e2 where e2: "send_session_message P W r2 (sending S e1) (reply mid (on_message payload)) =
      (Ok (), sending (sending S e1) e2)"
    "peer_decrypt P (kp_decryption_key b) e2 (Some (kp_encryption_key a)) =
      Ok (json_print P (session_message_to_value (reply mid (on_message payload))))"
    by (rule message_sent [OF assms(1,2) _ assms(6,4,7)])
  show ?thesis
    by (rule that [of e1 e2]) (use e1 e2 assms(9) in \<open>simp_all add: handle_remote_request_def\<close>)
qed

section \<open>Admission\<close>

text \<open>
  C17. A request is taken on exactly when the session is open and fewer than 256 handlers are
  active. A request that is declined changes nothing, in particular nothing is sent, so that
  the peer runs into its acknowledgement timeout; one that is taken on gets a permit and a
  task of its own and is shown to observers once.
\<close>

theorem request_admission:
  assumes "session_message_from_str P frame = Ok (Request mid payload)"
  shows "handle_session_frame P S frame =
    (if closed_flag (ss_control S) then (Fail SessionClosed, S)
     else if 256 \<le> active_handlers (ss_control S) then (Fail RequestLimitReached, S)
     else (Ok (), (observe_request payload S)\<lparr>ss_control :=
            snd (spawn_control ((ss_control S)\<lparr>active_handlers := active_handlers (ss_control S) + 1\<rparr>))\<rparr>))"
  using assms
  by (auto simp: handle_session_frame_def dispatch_request_def admit_handler_def observe_request_def
      spawn_control_def MAX_ACTIVE_HANDLERS_def Let_def)

section \<open>From request to response\<close>

text \<open>How the frames of the peer reach a waiting request.\<close>

lemma response_frames:
  assumes "linked P a b S" "session_text_ok P m" "(\<forall>i p. m \<noteq> Request i p) \<and> m \<noteq> Close \<and> m \<noteq> Unknown"
    "peer_decrypt P (kp_decryption_key a) e (Some (kp_encryption_key b)) =
       Ok (json_print P (session_message_to_value m))"
  shows "handle_transport_payload P S e = (Ok (), S\<lparr>ss_response_tx := ss_response_tx S @ [m]\<rparr>)"
  using assms(3) received_message [OF assms(1,2,4)] session_message_from_text [OF assms(2)]
  by (cases m) (simp_all add: handle_session_frame_def)

text \<open>
  A request gets its answer: what one session sends reaches the handler of the other
  session as it was sent, and the two frames that session sends back are, for the waiting
  caller, the acknowledgement and the reply for its own id, from which the wait returns
  exactly the handler's value, or \<open>RequestFailed\<close> where the handler failed.
\<close>

lemma request_answered:
  assumes ok: "platform_ok P" "honest_pair P a b" "honest_pair P b a" "\<And>e. dc_send W e = Inr ()"
    and rnd: "length ra = 12" "length rb = 12" "length rc = 12"
    and texts: "session_text_ok P (Request mid msg)" "session_text_ok P (Ack mid)"
      "session_text_ok P (reply mid (h msg))"
    and A: "linked P a b A" "sl_state (ss_signaling A) = S_Encrypted"
    and B: "linked P b a B" "\<not> closed_flag (ss_control B)" "active_handlers (ss_control B) < 256"
    and h: "h msg \<noteq> panicked"
    and clock: "start \<le> ta" "ta < start + unat ack_ms * 1000000" "start + unat ack_ms * 1000000 \<le> mx"
      "tr < ta + unat resp_ms * 1000000" "ta + unat resp_ms * 1000000 \<le> mx"
  shows "\<exists>A1 B1 e0 e1 e2.
    send_request P W ra mid A msg = (Ok (), A1) \<and> dc_sent (ss_transport A1) = dc_sent (ss_transport A) @ [e0] \<and>
    handle_transport_payload P B e0 = (Ok (), B1) \<and>
    dc_sent (ss_transport (handle_remote_request P W rb rc h B1 mid msg)) = dc_sent (ss_transport B) @ [e1, e2] \<and>
    ss_response_tx (snd (handle_transport_payload P (snd (handle_transport_payload P A1 e1)) e2)) =
      ss_response_tx A @ [Ack mid, reply mid (h msg)] \<and>
    receive_response mx start mid ack_ms resp_ms
      [\<lparr>head_clock = start, received_value = Received (Ack mid), after_clock = ta\<rparr>,
       \<lparr>head_clock = tr, received_value = Received (reply mid (h msg)), after_clock = tr\<rparr>] =
      Some (case h msg of Inr v \<Rightarrow> Ok v | Inl _ \<Rightarrow> Fail RequestFailed)"
proof -
  obtain e0 where e0: "send_session_message P W ra A (Request mid msg) = (Ok (), sending A e0)"
      "peer_decrypt P (kp_decryption_key b) e0 (Some (kp_encryption_key a)) =
        Ok (json_print P (session_message_to_value (Request mid msg)))"
    by (rule message_sent [OF ok(1,2) A(1) texts(1) rnd(1) ok(4)])
  define B1 where "B1 = (observe_request msg B)\<lparr>ss_control :=
      snd (spawn_control ((ss_control B)\<lparr>active_handlers := active_handlers (ss_control B) + 1\<rparr>))\<rparr>"
  have "handle_session_frame P B (json_print P (session_message_to_value (Request mid msg))) = (Ok (), B1)"
    using B(2,3) session_message_from_text [OF texts(1)]
    by (simp add: B1_def handle_session_frame_def dispatch_request_def admit_handler_def observe_request_def
        spawn_control_def MAX_ACTIVE_HANDLERS_def Let_def)
  then have b1: "handle_transport_payload P B e0 = (Ok (), B1)"
    using received_message [OF B(1) texts(1) e0(2)] by simp
  have link: "linked P b a B1" "ss_transport B1 = ss_transport B"
    using B(1) by (simp_all add: B1_def linked_def observe_request_def)
  obtain e1 e2 where e: "handle_remote_request P W rb rc h B1 mid msg =
        (sending (sending B1 e1) e2)\<lparr>ss_control := drop_permit (ss_control B1)\<rparr>"
      "peer_decrypt P (kp_decryption_key a) e1 (Some (kp_encryption_key b)) =
        Ok (json_print P (session_message_to_value (Ack mid)))"
      "peer_decrypt P (kp_decryption_key a) e2 (Some (kp_encryption_key b)) =
        Ok (json_print P (session_message_to_value (reply mid (h msg))))"
    by (rule handled_texts [where on_message = h and payload = msg, OF ok(1,3) rnd(2,3) texts(2,3) ok(4) link(1) h])
  let ?A1 = "sending A e0"
  have "handle_transport_payload P ?A1 e1 = (Ok (), ?A1\<lparr>ss_response_tx := ss_response_tx A @ [Ack mid]\<rparr>)"
    using response_frames [OF _ texts(2) _ e(2), of ?A1] A(1) by simp
  moreover have "linked P a b (?A1\<lparr>ss_response_tx := ss_response_tx A @ [Ack mid]\<rparr>)"
    using A(1) by (simp add: linked_def sending_def)
  then have "handle_transport_payload P (?A1\<lparr>ss_response_tx := ss_response_tx A @ [Ack mid]\<rparr>) e2 =
      (Ok (), ?A1\<lparr>ss_response_tx := (ss_response_tx A @ [Ack mid]) @ [reply mid (h msg)]\<rparr>)"
    using response_frames [OF _ texts(3) _ e(3)] by (simp add: reply_def split: sum.splits)
  ultimately have tx: "ss_response_tx (snd (handle_transport_payload P (snd (handle_transport_payload P ?A1 e1)) e2)) =
      ss_response_tx A @ [Ack mid, reply mid (h msg)]" by simp
  have "receive_response mx start mid ack_ms resp_ms
      [\<lparr>head_clock = start, received_value = Received (Ack mid), after_clock = ta\<rparr>,
       \<lparr>head_clock = tr, received_value = Received (reply mid (h msg)), after_clock = tr\<rparr>] =
      Some (case h msg of Inr v \<Rightarrow> Ok v | Inl _ \<Rightarrow> Fail RequestFailed)"
    using clock by (simp add: receive_response_def deadline_after_def reply_def Let_def split: sum.splits)
  with e0(1) b1 e(1) tx A(2) link(2) show ?thesis
    by (intro exI [of _ ?A1] exI [of _ B1] exI [of _ e0] exI [of _ e1] exI [of _ e2])
       (simp add: send_request_def sending_def)
qed

section \<open>Authenticity\<close>

text \<open>
  Only the peer of the handshake can do anything over the transport: a payload that does
  not name the recorded key as its sender, or does not decrypt under it, leaves the session
  exactly as it was.
\<close>

lemma payload_sender:
  assumes "relying_key (ss_signaling S) = Some k" "snd (handle_transport_payload P S raw) \<noteq> S"
  shows "\<exists>b plain. from_base64 P raw = Ok b \<and> take PUBLIC_KEY_BYTES b = public_key k \<and>
    peer_decrypt P (ss_decryption_key S) raw (Some k) = Ok plain \<and>
    handle_transport_payload P S raw = handle_session_frame P S plain"
proof (cases "peer_decrypt P (ss_decryption_key S) raw (Some k)")
  case (Inl e)
  with assms show ?thesis by (simp add: handle_transport_payload_def)
next
  case (Inr plain)
  then obtain b where "from_base64 P raw = Ok b" "take PUBLIC_KEY_BYTES b = public_key k"
    by (rule peer_decrypt_sender)
  with Inr assms(1) show ?thesis by (simp add: handle_transport_payload_def)
qed

section \<open>Negotiation over signaling\<close>

lemma relayed_not_negotiation:
  "negotiation_from_value (session_message_to_value (Request uuid (negotiation_to_value n))) = None"
  by (simp add: negotiation_from_value_def negotiation_to_value_def)

lemma signal_negotiation_relayed:
  "signal_negotiation (session_message_to_value (Request uuid (negotiation_to_value n))) S = (Some n, S)"
  by (simp add: signal_negotiation_def relayed_not_negotiation del: session_message_to_value.simps)

text \<open>
  A negotiation message travels from one transport to the other unchanged: the frame that
  relaying it publishes makes the other layer hand one payload to its session, and that
  session gives exactly this message to its transport and changes nothing else.
\<close>

lemma negotiation_delivered:
  assumes "platform_ok P" "honest_pair P a b" "length rnd = 12" "\<And>f. channel_publish P N (ss_channel A) f = Ok ()"
    and A: "sp_decryption_key (props (ss_signaling A)) = kp_decryption_key a"
      "relying_key (ss_signaling A) = Some (kp_encryption_key b)"
    and B: "sp_decryption_key (props (ss_signaling B)) = kp_decryption_key b"
      "relying_key (ss_signaling B) = Some (kp_encryption_key a)" "sl_state (ss_signaling B) = S_Encrypted"
      "sp_is_host (props (ss_signaling B)) \<noteq> sp_is_host (props (ss_signaling A))"
    and v: "v = session_message_to_value (Request uuid (negotiation_to_value n))" "text_ok P (Data v now)"
    and A': "relay_negotiation P N now rnd uuid A n = (r, A')"
  shows "r = Ok () \<and>
    handle_receive P now' rnd' online (ss_signaling B) (last (outbox (ss_signaling A'))) =
      (Ok (), (ss_signaling B)\<lparr>message_tx := message_tx (ss_signaling B) @ [v]\<rparr>) \<and>
    on_signal_message W v B = B\<lparr>ss_transport := snd (t_handle W (ss_transport B) n)\<rparr>"
proof -
  let ?L = "ss_signaling A"
  have pub: "channel_publish P N (ss_channel A) = online" using assms(4) by (simp add: fun_eq_iff)
  have "is_object v" using v(1) by simp
  from data_delivered [OF assms(1,2) v(2) this assms(3) A B refl]
  have d: "fst (layer_send P now rnd online ?L v) = Ok ()"
      "handle_receive P now' rnd' online (ss_signaling B) (last (outbox (snd (layer_send P now rnd online ?L v)))) =
        (Ok (), (ss_signaling B)\<lparr>message_tx := message_tx (ss_signaling B) @ [v]\<rparr>)"
    by blast+
  have "r = fst (layer_send P now rnd online ?L v)" "ss_signaling A' = snd (layer_send P now rnd online ?L v)"
    using A' pub v(1) by (auto simp: relay_negotiation_def Let_def split: prod.splits)
  with d have "r = Ok ()" "handle_receive P now' rnd' online (ss_signaling B) (last (outbox (ss_signaling A'))) =
      (Ok (), (ss_signaling B)\<lparr>message_tx := message_tx (ss_signaling B) @ [v]\<rparr>)" by simp_all
  moreover have "on_signal_message W v B = B\<lparr>ss_transport := snd (t_handle W (ss_transport B) n)\<rparr>"
    unfolding on_signal_message_def v(1) signal_negotiation_relayed by simp
  ultimately show ?thesis by blast
qed

section \<open>Closing\<close>

lemma status_frame [simp]:
  "ss_control (set_status st S) = ss_control S" "ss_transport (set_status st S) = ss_transport S"
  "ss_channel (set_status st S) = ss_channel S" "ss_close_result (set_status st S) = ss_close_result S"
  "ss_status (set_status st S) = st" "ss_error (set_status st S) = ss_error S"
  "ss_response_tx (set_status st S) = ss_response_tx S" "ss_peer_closed (set_status st S) = ss_peer_closed S"
  by (simp_all add: set_status_def Let_def)

lemma close_control_idem [simp]: "close_control (close_control c) = close_control c"
  by (simp add: close_control_def)

lemma closed_refuses:
  assumes "closed_flag (ss_control S)"
  shows "session_connect P N now rnd S = (Fail SessionClosed, S)"
    "send_with_timeouts P W rnd uuid mx start turns S message ack_ms resp_ms = (Some (Fail SessionClosed), S)"
    "dispatch_request S payload = (Fail SessionClosed, S)" "close_control (ss_control S) = ss_control S"
  using assms
  by (simp_all add: session_connect_def in_operation_def spawn_control_def send_with_timeouts_def
      dispatch_request_def admit_handler_def close_control_def)

lemma send_session_message_close_result [simp]:
  "ss_close_result (snd (send_session_message P W rnd S m)) = ss_close_result S"
  by (simp add: send_session_message_def Let_def split: sum.splits prod.splits)

lemma session_close_shape:
  assumes "ss_close_result S = None" "wait_for_tasks ends (close_control (ss_control S)) = (True, c)"
  obtains r S3 S' where "session_close P N W rnd ends S = (Some r, S')" "ss_close_result S' = Some r"
    "ss_status S' = Disconnected" "ss_control S' = c"
    "\<not> data_channel (ss_transport S')" "\<not> channel_connected (ss_channel S')"
proof -
  let ?S1 = "snd (send_session_message P W rnd (S\<lparr>ss_control := close_control (ss_control S)\<rparr>) Close)"
  let ?S2 = "?S1\<lparr>ss_control := c\<rparr>"
  obtain rt T where t: "t_teardown W (ss_transport ?S2) = (rt, T)" by (cases "t_teardown W (ss_transport ?S2)")
  have T: "\<not> data_channel T"
    using t by (auto simp: t_teardown_def t_set_state_def Let_def split: option.splits sum.splits)
  obtain rc ch where ch: "channel_teardown N (ss_channel ?S2) = (rc, ch)"
    by (cases "channel_teardown N (ss_channel ?S2)")
  have C: "\<not> channel_connected ch" using boxed.teardown_disconnects [of N "ss_channel ?S2"] ch by simp
  let ?S3 = "?S2\<lparr>ss_transport := T, ss_channel := ch, ss_signaling := stop_handshake_tasks (ss_signaling ?S2)\<rparr>"
  let ?r = "rbind rt (\<lambda>_. rc)"
  have "session_close P N W rnd ends S = (Some ?r, (set_status Disconnected ?S3)\<lparr>ss_close_result := Some ?r\<rparr>)"
    using assms t ch by (simp add: session_close_def signaling_teardown_def layer_teardown_def Let_def)
  with T C show ?thesis by (intro that [of ?r "(set_status Disconnected ?S3)\<lparr>ss_close_result := Some ?r\<rparr>"]) simp_all
qed

text \<open>
  C18. Closing ends, and ends for good: once the runtime has destroyed the session's tasks,
  \<open>close\<close> returns, the session is disconnected, its channel and data channel are gone, and
  every later \<open>close\<close> returns the same result without doing anything; connecting, sending
  and requests of the peer are refused with \<open>SessionClosed\<close>.
\<close>

theorem close_returns_and_is_final:
  assumes "ss_close_result S = None"
    "\<And>i s. (i, s) \<in> set (tasks (ss_control S)) \<Longrightarrow> s \<noteq> Ended \<Longrightarrow> i \<in> set ends"
  shows "\<exists>r S'. session_close P N W rnd ends S = (Some r, S') \<and> ss_status S' = Disconnected \<and>
    \<not> data_channel (ss_transport S') \<and> \<not> channel_connected (ss_channel S') \<and>
    session_close P N W rnd' ends' S' = (Some r, S') \<and>
    session_connect P N now rnd' S' = (Fail SessionClosed, S') \<and>
    send_with_timeouts P W rnd' uuid mx start turns S' message ack_ms resp_ms = (Some (Fail SessionClosed), S') \<and>
    dispatch_request S' payload = (Fail SessionClosed, S')"
proof -
  let ?c = "close_control (ss_control S)"
  have "i \<in> set ends" if "(i, s) \<in> set (tasks ?c)" "s \<noteq> Ended" for i s
    using that assms(2) by (force simp: close_control_def stop_status_def split: if_splits)
  then have w: "wait_for_tasks ends ?c = (True, ?c\<lparr>tasks := []\<rparr>)" by (rule tasks_joined)
  obtain r S' where r: "session_close P N W rnd ends S = (Some r, S')" "ss_close_result S' = Some r"
    "ss_status S' = Disconnected" "ss_control S' = ?c\<lparr>tasks := []\<rparr>"
    "\<not> data_channel (ss_transport S')" "\<not> channel_connected (ss_channel S')"
    by (rule session_close_shape [OF assms(1) w])
  then have "closed_flag (ss_control S')" by (simp add: close_control_def)
  note refused = closed_refuses [OF this]
  have "session_close P N W rnd' ends' S' = (Some r, S')"
    using r(2) refused(4) by (simp add: session_close_def Let_def)
  with r refused show ?thesis by blast
qed

text \<open>
  A peer that says goodbye causes no error: its \<open>close\<close> message disconnects the session,
  clears the error, and ends every waiting request with \<open>SessionClosed\<close>; when the transport
  then breaks, no transport error is recorded.
\<close>

lemma peer_close_clean:
  assumes "session_message_from_str P frame = Ok Close"
  shows "\<exists>S'. handle_session_frame P S frame = (Ok (), S') \<and> ss_status S' = Disconnected \<and>
    ss_error S' = None \<and> ss_response_tx S' = ss_response_tx S @ [Close] \<and>
    ss_error (snd (on_transport_state T_Error S')) = None \<and>
    (head_clock t < deadline \<and> received_value t = Received (last (ss_response_tx S')) \<longrightarrow>
       response_loop mx mid resp_ms deadline acked (t # ts) = Some (Fail SessionClosed))"
  using assms
  by (simp add: handle_session_frame_def clear_error_def on_transport_state_def set_transport_error_def Let_def)

section \<open>Waiting for the link\<close>

lemma link_loop_outcome:
  assumes "link_loop turns S = (Some r, S')" "ss_status S \<noteq> Connected"
  shows "r = Ok () \<longleftrightarrow> ss_status S' = Connected"
  using assms
  by (induction turns S rule: link_loop.induct)
     (auto simp: link_error_def Let_def split: state_recv.splits transport_state.splits if_splits)

text \<open>A turn that ends the wait.\<close>

definition decisive :: "state_recv \<times> transport_state \<Rightarrow> bool" where
  "decisive turn \<longleftrightarrow> snd turn = T_Connected \<or> fst turn \<in> {State T_Connected, State T_Error, State_closed}"

lemma link_loop_returns: "list_ex decisive turns \<Longrightarrow> \<exists>r. fst (link_loop turns S) = Some r"
proof (induction turns S rule: link_loop.induct)
  case (2 r now rest S)
  show ?case
  proof (cases "decisive (r, now)")
    case True
    then show ?thesis
      by (auto simp: decisive_def Let_def split: state_recv.splits transport_state.splits)
  next
    case False
    with 2 show ?thesis
      by (auto simp: decisive_def split: state_recv.splits transport_state.splits)
  qed
qed simp

text \<open>
  Waiting for the link tells the truth and ends: it succeeds exactly when the session is
  then connected, and it has returned at the first turn that sees the transport connected
  or failed or its state channel closed.
\<close>

lemma wait_for_link_outcome:
  "(wait_for_link turns S = (Some r, S') \<longrightarrow> (r = Ok () \<longleftrightarrow> ss_status S' = Connected)) \<and>
   (list_ex decisive turns \<longrightarrow> (\<exists>r'. fst (wait_for_link turns S) = Some r'))"
proof -
  have "r = Ok () \<longleftrightarrow> ss_status S' = Connected" if "wait_for_link turns S = (Some r, S')"
    using that link_loop_outcome [of turns S r S']
    by (auto simp: wait_for_link_def link_error_def split: if_splits)
  moreover have "\<exists>r'. fst (wait_for_link turns S) = Some r'" if "list_ex decisive turns"
    using link_loop_returns [OF that, of S] by (simp add: wait_for_link_def)
  ultimately show ?thesis by blast
qed

section \<open>Invitations\<close>

definition valid_init :: "session_init \<Rightarrow> bool" where
  "valid_init i \<longleftrightarrow> si_h i = None \<and>
     (case si_session_id i of Some s \<Rightarrow> length s = 16 \<and> list_all is_id_char s | None \<Rightarrow> True) \<and>
     (case si_k i of Some k \<Rightarrow> from_hex (hk_hex k) = Ok k | None \<Rightarrow> True) \<and>
     (case si_s i of Some s \<Rightarrow> utf8_valid s | None \<Rightarrow> True)"

lemma create_session_parts:
  assumes "create_session P E rid rkp rhk i = Ok H" "valid_init i" "length rid = 16"
  obtains kp hk ch u where "generate_key_pair P rkp = Ok kp" "from_hex (hk_hex hk) = Ok hk"
    "create_signaling_channel (signaling_protocol u) (session_id u) (signaling_server u) = Ok ch"
    "length (session_id u) = 16" "list_all is_id_char (session_id u)" "utf8_valid (signaling_server u)"
    "key_hash u = hash_public_key P (kp_encryption_key kp)" "shared_key u = hk"
    "signaling_protocol u \<in> {Mqtt, Ntfy}"
    "H = build_session (Version1 u) True
      (new_layer (channel_type_of ch)
        (party_props P True (kp_encryption_key kp) hk kp (own_capabilities (si_info i))))
      ch (kp_decryption_key kp)"
proof -
  let ?sid = "case si_session_id i of Some s \<Rightarrow> s | None \<Rightarrow> generate_session_id rid"
  let ?server = "case si_s i of Some s \<Rightarrow> s | None \<Rightarrow> ''https://ntfy.sh/''"
  from assms(1,2) obtain kp hk ch where kp: "generate_key_pair P rkp = Ok kp"
    and hk: "(case si_k i of Some k \<Rightarrow> Ok k | None \<Rightarrow> generate_handshake_key rhk) = Ok hk"
    and ch: "create_signaling_channel (protocol_from E (case si_p i of Some p \<Rightarrow> p | None \<Rightarrow> ''ntfy'')) ?sid ?server = Ok ch"
    and H: "H = build_session
        (session_uri_new ?sid (hash_public_key P (kp_encryption_key kp)) hk
           (protocol_from E (case si_p i of Some p \<Rightarrow> p | None \<Rightarrow> ''ntfy'')) ?server) True
        (new_layer (channel_type_of ch)
          (party_props P True (kp_encryption_key kp) hk kp (own_capabilities (si_info i))))
        ch (kp_decryption_key kp)"
    by (auto simp: create_session_def valid_init_def party_props_def Let_def)
  have "from_hex (hk_hex hk) = Ok hk"
    using hk assms(2) from_hex_again
    by (auto simp: valid_init_def generate_handshake_key_def to_hex_def split: option.splits)
  moreover have "length ?sid = 16" "list_all is_id_char ?sid"
    using assms(2,3) generate_session_id_form [of rid] by (auto simp: valid_init_def split: option.splits)
  moreover have "utf8_valid ?server"
    using assms(2) by (auto simp: valid_init_def is_ascii_def split: option.splits)
  moreover have "protocol_from E (case si_p i of Some p \<Rightarrow> p | None \<Rightarrow> ''ntfy'') \<in> {Mqtt, Ntfy}"
    using ch by (auto simp: create_signaling_channel_def split: signaling_protocol.splits)
  ultimately show ?thesis
    using kp ch H by (intro that [of kp hk "\<lparr>session_id = ?sid,
      key_hash = hash_public_key P (kp_encryption_key kp), shared_key = hk,
      signaling_protocol = protocol_from E (case si_p i of Some p \<Rightarrow> p | None \<Rightarrow> ''ntfy''),
      signaling_server = ?server\<rparr>" ch]) (simp_all add: session_uri_new_def)
qed

lemma known_protocol_text:
  assumes "p \<in> {Mqtt, Ntfy}"
  shows "protocol_from E (protocol_to_string p) = p" "utf8_valid (protocol_to_string p)"
  using assms
  by (auto simp: protocol_from_def to_lowercase_def is_ascii_def ascii_lower_def Let_def)

text \<open>
  An invitation leads to its host: a wallet that is opened with the connection URL of a
  created session becomes the client of exactly that session, over the same topic of the
  same server, with the same handshake key and with the hash of the host's own key.
\<close>

lemma invited_client:
  assumes "create_session P E rid rkp rhk i = Ok H" "valid_init i" "length rid = 16" "form_ok E"
    "\<And>b. length (sha256 P b) = 32"
    "generate_key_pair P rkp = Ok kh" "generate_key_pair P rkp' = Ok kc"
    "hash_public_key P (kp_encryption_key kc) \<noteq> hash_public_key P (kp_encryption_key kh)"
  shows "\<exists>C hk ct. connect_session_with_info P E rkp' (to_connection_url E (ss_uri H)) pinfo = Ok C \<and>
    ss_is_host H \<and> \<not> ss_is_host C \<and> ss_uri C = ss_uri H \<and> ss_channel C = ss_channel H \<and>
    ss_signaling H = new_layer ct (host_props P hk kh (own_capabilities (si_info i))) \<and>
    ss_signaling C = new_layer ct (client_props P hk kh kc (own_capabilities pinfo))"
proof -
  obtain kp hk ch u where u: "generate_key_pair P rkp = Ok kp" "from_hex (hk_hex hk) = Ok hk"
    "create_signaling_channel (signaling_protocol u) (session_id u) (signaling_server u) = Ok ch"
    "length (session_id u) = 16" "list_all is_id_char (session_id u)" "utf8_valid (signaling_server u)"
    "key_hash u = hash_public_key P (kp_encryption_key kp)" "shared_key u = hk"
    "signaling_protocol u \<in> {Mqtt, Ntfy}"
    "H = build_session (Version1 u) True
      (new_layer (channel_type_of ch)
        (party_props P True (kp_encryption_key kp) hk kp (own_capabilities (si_info i))))
      ch (kp_decryption_key kp)"
    by (rule create_session_parts [OF assms(1-3)])
  have kp: "kp = kh" using u(1) assms(6) by simp
  have "hash_regex (key_hash u)"
    using hash_public_key_form [of P "kp_encryption_key kp", OF assms(5)] u(7) by (simp add: hash_regex_def)
  then have "valid_v1 E u"
    using u known_protocol_text [OF u(9)] by (simp add: valid_v1_def)
  from v1_roundtrip [OF assms(4) this]
  have url: "session_uri_from_url E (to_connection_url E (Version1 u)) = Ok (Version1 u)"
    by (simp add: session_uri_from_url_def)
  let ?C = "build_session (Version1 u) False
      (new_layer (channel_type_of ch) (client_props P hk kh kc (own_capabilities pinfo))) ch (kp_decryption_key kc)"
  have "connect_session_with_info P E rkp' (to_connection_url E (ss_uri H)) pinfo = Ok ?C"
    using u kp url assms(7,8)
    by (simp add: connect_session_with_info_def build_session_def signaling_layer_from_version1_def
        party_props_def Let_def)
  then show ?thesis
    using u(10) kp by (intro exI [of _ ?C] exI [of _ hk] exI [of _ "channel_type_of ch"])
      (simp add: build_session_def)
qed

text \<open>
  C40. A session created with a hash that is not its own contradicts itself: it says it is the
  host, and its transport will make the offer, while its signaling layer takes the role of
  the client and waits for another host; its URL names its own key instead of the hash it
  was given.
\<close>

theorem create_session_foreign_hash:
  assumes "create_session P E rid rkp rhk i = Ok S" "si_h i = Some h" "generate_key_pair P rkp = Ok kp"
    "h \<noteq> hash_public_key P (kp_encryption_key kp)"
  shows "ss_is_host S \<and> tp_is_host (ss_transport S) \<and> \<not> sp_is_host (props (ss_signaling S)) \<and>
    sp_h (props (ss_signaling S)) = h \<and>
    (\<exists>u. ss_uri S = Version1 u \<and> key_hash u = hash_public_key P (kp_encryption_key kp))"
  using assms
  by (auto simp: create_session_def build_session_def new_layer_def new_transport_def session_uri_new_def Let_def)

end
