(* ===== verification/Session_System.thy ===== *)
theory Session_System
  imports Session_Properties
begin

text \<open>
  A session as a whole: everything that can happen to it, one body of a loop, one task or one
  call at a time, together with the number of handler permits alive. Its signaling layer
  only makes steps of the signaling layer and its control only steps of the control, so
  that every guarantee of the two components holds inside a session; the peer key is known
  before the transport can hand over anything.
\<close>

section \<open>Steps\<close>

text \<open>
  The transport's callbacks can only come after its setup has begun, which announces
  \<open>Connecting\<close>.
\<close>

definition setup_begun :: "transport \<Rightarrow> bool" where
  "setup_begun T \<longleftrightarrow> T_Connecting \<in> set (tp_state_tx T)"

inductive callback :: "webrtc \<Rightarrow> transport \<Rightarrow> transport \<Rightarrow> bool" for W :: webrtc where
  cb_candidate: "callback W T (on_ice_candidate W c T)"
| cb_state: "callback W T (on_connection_state_change failed_or_closed T)"
| cb_channel: "callback W T (on_data_channel T)"
| cb_event: "(\<And>d. ev \<noteq> OnMessage d) \<Longrightarrow> callback W T (snd (dc_turn ev T))"

abbreviation on_layer :: "(layer \<Rightarrow> layer) \<Rightarrow> session \<Rightarrow> session" where
  "on_layer f S \<equiv> S\<lparr>ss_signaling := f (ss_signaling S)\<rparr>"

abbreviation on_control :: "(control \<Rightarrow> control) \<Rightarrow> session \<Rightarrow> session" where
  "on_control f S \<equiv> S\<lparr>ss_control := f (ss_control S)\<rparr>"

definition new_permits :: "session \<Rightarrow> session \<Rightarrow> nat" where
  "new_permits S S' = unat (active_handlers (ss_control S') - active_handlers (ss_control S))"

text \<open>
  What a session does by itself, the calls of its program and the callbacks of its libraries.
  Steps that take something from the outside, hand out a permit or send a session message
  are those of \<open>session_step\<close>. A handler's task sends its acknowledgement, waits for the
  handler and sends the reply, with anything in between; it ends early when its handler
  panics or the session closes. The setup of the transport runs as a whole or from one of its
  awaits to the next, and is dropped at an await when the session closes.
\<close>

inductive own_step :: "platform \<Rightarrow> session \<Rightarrow> session \<Rightarrow> bool" for P :: platform where
  own_connect: "own_step P S (snd (session_connect P N now rnd S))"
| own_resend: "own_step P S (on_layer (resend P rnd (channel_publish P N (ss_channel S)) i) S)"
| own_deadline: "live_tasks (ss_signaling S) i = Some Deadline \<Longrightarrow> own_step P S (on_layer (deadline_expired i) S)"
| own_signal_state: "st \<in> set (state_tx (ss_signaling S)) \<Longrightarrow> own_step P S (on_signal_state W st S)"
| own_signal_message: "v \<in> set (message_tx (ss_signaling S)) \<Longrightarrow> own_step P S (on_signal_message W v S)"
| own_transport_state: "st \<in> set (tp_state_tx (ss_transport S)) \<Longrightarrow> own_step P S (snd (on_transport_state st S))"
| own_task_end: "own_step P S (on_control (end_task i) S)"
| own_wait: "own_step P S (snd (session_wait_for_link turns' S))"
| own_close: "own_step P S (snd (session_close P N W rnd ends S))"
| own_drop: "own_step P S (session_drop S)"
| own_observe: "own_step P S (S\<lparr>ss_observed := b\<rparr>)"
| own_callback: "setup_begun (ss_transport S) \<Longrightarrow> callback W (ss_transport S) T' \<Longrightarrow>
    own_step P S (S\<lparr>ss_transport := T'\<rparr>)"
| own_setup_begin: "S_Encrypted \<in> set (state_tx (ss_signaling S)) \<Longrightarrow> select_transport S \<noteq> None \<Longrightarrow>
    own_step P S (setup_outcome (setup_build W (ss_transport S)) S)"
| own_setup_next: "setup_begun (ss_transport S) \<Longrightarrow> tp_setup (ss_transport S) \<noteq> None \<Longrightarrow>
    own_step P S (setup_outcome (setup_next W (ss_transport S)) S)"
| own_setup_dropped: "closed_flag (ss_control S) \<Longrightarrow>
    own_step P S (S\<lparr>ss_transport := (ss_transport S)\<lparr>tp_setup := None\<rparr>\<rparr>)"

abbreviation receiving :: "platform \<Rightarrow> network \<Rightarrow> u64 \<Rightarrow> bytes \<Rightarrow> string \<Rightarrow> session \<Rightarrow> session" where
  "receiving P N now rnd payload S \<equiv>
     on_layer (\<lambda>L. snd (handle_receive P now rnd (channel_publish P N (ss_channel S)) L payload)) S"

abbreviation channel_message :: "bytes \<Rightarrow> session \<Rightarrow> session" where
  "channel_message d S \<equiv> S\<lparr>ss_transport := snd (dc_turn (OnMessage d) (ss_transport S))\<rparr>"

inductive session_step :: "platform \<Rightarrow> session \<times> nat \<Rightarrow> session \<times> nat \<Rightarrow> bool" for P :: platform where
  sess_own: "own_step P S S' \<Longrightarrow> session_step P (S, n) (S', n)"
| sess_frame: "ss_events_taken S \<Longrightarrow> session_step P (S, n) (receiving P N now rnd payload S, n)"
| sess_message: "setup_begun (ss_transport S) \<Longrightarrow> session_step P (S, n) (channel_message d S, n)"
| sess_transport_event: "ev \<in> set (tp_events (ss_transport S)) \<Longrightarrow>
    on_transport_event P N now rnd uuid ev S = S' \<Longrightarrow> session_step P (S, n) (S', n + new_permits S S')"
| sess_send: "session_step P (S, n)
    (snd (send_with_timeouts P W rnd uuid mx start turns S message ack_ms resp_ms), n)"
| sess_ack: "session_step P (S, Suc n) (snd (send_session_message P W rnd S (Ack mid)), Suc n)"
| sess_reply: "session_step P (S, Suc n)
    (on_control drop_permit (snd (send_session_message P W rnd S (reply mid (outcome :: json res)))), n)"
| sess_cancelled: "session_step P (S, Suc n) (on_control drop_permit S, n)"

lemmas sess_connect = sess_own [OF own_connect]
lemmas sess_resend = sess_own [OF own_resend]
lemmas sess_deadline = sess_own [OF own_deadline]
lemmas sess_signal_state = sess_own [OF own_signal_state]
lemmas sess_signal_message = sess_own [OF own_signal_message]
lemmas sess_transport_state = sess_own [OF own_transport_state]
lemmas sess_task_end = sess_own [OF own_task_end]
lemmas sess_wait = sess_own [OF own_wait]
lemmas sess_close = sess_own [OF own_close]
lemmas sess_observe = sess_own [OF own_observe]
lemmas sess_callback = sess_own [OF own_callback]

text \<open>A handler that nothing interrupts is \<open>handle_remote_request\<close>.\<close>

lemma handled_steps:
  "(session_step P)\<^sup>*\<^sup>* (S, Suc n) (handle_remote_request P W r1 r2 on_message S mid payload, n)"
proof -
  let ?S = "snd (send_session_message P W r1 S (Ack mid))"
  have "session_step P (S, Suc n) (?S, Suc n)" by (rule sess_ack)
  moreover have "session_step P (?S, Suc n) (handle_remote_request P W r1 r2 on_message S mid payload, n)"
  proof (cases "on_message payload = panicked")
    case True
    with sess_cancelled [of P ?S n] show ?thesis by (simp add: handle_remote_request_def Let_def)
  next
    case False
    with sess_reply [of P ?S n W r2 mid "on_message payload"] show ?thesis
      by (simp add: handle_remote_request_def Let_def)
  qed
  ultimately show ?thesis by (meson converse_rtranclp_into_rtranclp r_into_rtranclp)
qed

text \<open>What \<open>create_session\<close> and \<open>connect_session\<close> build.\<close>

definition fresh_session :: "session \<times> nat \<Rightarrow> bool" where
  "fresh_session s \<longleftrightarrow>
     (\<exists>uri h ct p ch. s = (build_session uri h (new_layer ct p) ch (sp_decryption_key p), 0))"

lemma fresh_sessionI: "dk = sp_decryption_key p \<Longrightarrow> fresh_session (build_session uri h (new_layer ct p) ch dk, 0)"
  unfolding fresh_session_def by blast

lemma created_fresh: "create_session P E rid rkp rhk i = Ok S \<Longrightarrow> fresh_session (S, 0)"
  by (auto simp: create_session_def Let_def intro!: fresh_sessionI)

lemma connected_fresh: "connect_session_with_info P E rkp url pinfo = Ok S \<Longrightarrow> fresh_session (S, 0)"
  by (auto simp: connect_session_with_info_def signaling_layer_from_version1_def Let_def
      intro!: fresh_sessionI split: session_uri.splits)

lemma on_request_fresh: "on_request P E rid rkp rhk c = Ok S \<Longrightarrow> fresh_session (S, 0)"
  by (auto simp: on_request_def split: option.splits intro: created_fresh connected_fresh)

section \<open>What a step leaves alone\<close>

lemma session_frame [simp]:
  "ss_signaling (set_status st S) = ss_signaling S" "ss_events_taken (set_status st S) = ss_events_taken S"
  "ss_decryption_key (set_status st S) = ss_decryption_key S"
  by (simp_all add: set_status_def Let_def)

lemma error_frame [simp]:
  "ss_signaling (set_error e S) = ss_signaling S" "ss_events_taken (set_error e S) = ss_events_taken S"
  "ss_control (set_error e S) = ss_control S" "ss_transport (set_error e S) = ss_transport S"
  "ss_decryption_key (set_error e S) = ss_decryption_key S"
  "ss_signaling (clear_error S) = ss_signaling S" "ss_events_taken (clear_error S) = ss_events_taken S"
  "ss_control (clear_error S) = ss_control S" "ss_transport (clear_error S) = ss_transport S"
  "ss_decryption_key (clear_error S) = ss_decryption_key S"
  "ss_signaling (set_transport_error S) = ss_signaling S"
  "ss_events_taken (set_transport_error S) = ss_events_taken S"
  "ss_control (set_transport_error S) = ss_control S" "ss_transport (set_transport_error S) = ss_transport S"
  "ss_decryption_key (set_transport_error S) = ss_decryption_key S"
  by (simp_all add: set_error_def clear_error_def set_transport_error_def)

lemma send_session_message_frame [simp]:
  "ss_signaling (snd (send_session_message P W rnd S m)) = ss_signaling S"
  "ss_events_taken (snd (send_session_message P W rnd S m)) = ss_events_taken S"
  "ss_decryption_key (snd (send_session_message P W rnd S m)) = ss_decryption_key S"
  by (simp_all add: send_session_message_def Let_def split: sum.splits prod.splits)

lemma signaling_teardown_frame [simp]:
  "ss_signaling (snd (signaling_teardown N S)) = stop_handshake_tasks (ss_signaling S)"
  "ss_events_taken (snd (signaling_teardown N S)) = ss_events_taken S"
  "ss_control (snd (signaling_teardown N S)) = ss_control S"
  "ss_transport (snd (signaling_teardown N S)) = ss_transport S"
  "ss_decryption_key (snd (signaling_teardown N S)) = ss_decryption_key S"
  by (simp_all add: signaling_teardown_def layer_teardown_def split: prod.splits)

lemma relay_negotiation_frame [simp]:
  "ss_signaling (snd (relay_negotiation P N now rnd uuid S m)) =
     snd (layer_send P now rnd (channel_publish P N (ss_channel S)) (ss_signaling S)
       (session_message_to_value (Request uuid (negotiation_to_value m))))"
  "ss_events_taken (snd (relay_negotiation P N now rnd uuid S m)) = ss_events_taken S"
  "ss_control (snd (relay_negotiation P N now rnd uuid S m)) = ss_control S"
  "ss_transport (snd (relay_negotiation P N now rnd uuid S m)) = ss_transport S"
  "ss_decryption_key (snd (relay_negotiation P N now rnd uuid S m)) = ss_decryption_key S"
  by (simp_all add: relay_negotiation_def Let_def split: prod.splits)

lemma on_signal_state_frame [simp]:
  "ss_signaling (on_signal_state W st S) = ss_signaling S"
  "ss_events_taken (on_signal_state W st S) = ss_events_taken S"
  "ss_control (on_signal_state W st S) = ss_control S"
  "ss_decryption_key (on_signal_state W st S) = ss_decryption_key S"
  by (simp_all add: on_signal_state_def split: signal_state.splits prod.splits sum.splits fault.splits)

lemma on_signal_state_transport:
  "ss_transport (on_signal_state W st S) \<in> {ss_transport S, snd (t_setup W (ss_transport S))}"
  "st \<noteq> S_Encrypted \<Longrightarrow> ss_transport (on_signal_state W st S) = ss_transport S"
  by (auto simp: on_signal_state_def split: signal_state.splits prod.splits sum.splits fault.splits)

lemma setup_outcome_frame [simp]:
  "ss_signaling (setup_outcome rT S) = ss_signaling S" "ss_events_taken (setup_outcome rT S) = ss_events_taken S"
  "ss_control (setup_outcome rT S) = ss_control S" "ss_decryption_key (setup_outcome rT S) = ss_decryption_key S"
  "ss_transport (setup_outcome rT S) = snd rT"
  by (simp_all add: setup_outcome_def split: prod.splits sum.splits fault.splits)

lemma on_signal_message_frame [simp]:
  "ss_signaling (on_signal_message W v S) = ss_signaling S"
  "ss_events_taken (on_signal_message W v S) = ss_events_taken S"
  "ss_control (on_signal_message W v S) = ss_control S"
  "ss_decryption_key (on_signal_message W v S) = ss_decryption_key S"
  by (simp_all add: on_signal_message_def signal_negotiation_def
      split: prod.splits option.splits session_message.splits)

lemma on_signal_message_transport:
  "\<exists>m. ss_transport (on_signal_message W v S) \<in> {ss_transport S, snd (t_handle W (ss_transport S) m)}"
  by (auto simp: on_signal_message_def signal_negotiation_def
      split: prod.splits option.splits session_message.splits)

lemma on_transport_state_frame [simp]:
  "ss_signaling (snd (on_transport_state st S)) = ss_signaling S"
  "ss_events_taken (snd (on_transport_state st S)) = ss_events_taken S"
  "ss_control (snd (on_transport_state st S)) = ss_control S"
  "ss_transport (snd (on_transport_state st S)) = ss_transport S"
  "ss_decryption_key (snd (on_transport_state st S)) = ss_decryption_key S"
  by (simp_all add: on_transport_state_def split: transport_state.splits)

lemma dispatch_request_frame [simp]:
  "ss_signaling (snd (dispatch_request S payload)) = ss_signaling S"
  "ss_events_taken (snd (dispatch_request S payload)) = ss_events_taken S"
  "ss_transport (snd (dispatch_request S payload)) = ss_transport S"
  "ss_decryption_key (snd (dispatch_request S payload)) = ss_decryption_key S"
  by (simp_all add: dispatch_request_def observe_request_def Let_def split: prod.splits sum.splits)

lemma handle_transport_payload_frame [simp]:
  "ss_signaling (snd (handle_transport_payload P S raw)) = ss_signaling S"
  "ss_events_taken (snd (handle_transport_payload P S raw)) = ss_events_taken S"
  "ss_transport (snd (handle_transport_payload P S raw)) = ss_transport S"
  "ss_decryption_key (snd (handle_transport_payload P S raw)) = ss_decryption_key S"
  by (simp_all add: handle_transport_payload_def handle_session_frame_def Let_def
      split: sum.splits session_message.splits)

lemma handle_remote_request_frame [simp]:
  "ss_signaling (handle_remote_request P W r1 r2 h S mid payload) = ss_signaling S"
  "ss_events_taken (handle_remote_request P W r1 r2 h S mid payload) = ss_events_taken S"
  "ss_control (handle_remote_request P W r1 r2 h S mid payload) = drop_permit (ss_control S)"
  "ss_decryption_key (handle_remote_request P W r1 r2 h S mid payload) = ss_decryption_key S"
  by (simp_all add: handle_remote_request_def Let_def)

abbreviation admitted :: "session \<Rightarrow> session" where
  "admitted S \<equiv> on_control (\<lambda>c. snd (spawn_control c)) S"

abbreviation finished :: "nat \<Rightarrow> session \<Rightarrow> session" where
  "finished i S \<equiv> on_control (\<lambda>c. abort_handle i (end_task i c)) S"

lemma send_with_timeouts_shape:
  "\<exists>i S1. S1 \<in> {admitted S, snd (send_session_message P W rnd (admitted S) (Request uuid v))} \<and>
     snd (send_with_timeouts P W rnd uuid mx start turns S v a b) \<in> {S1, finished i S1}"
proof (cases "spawn_control (ss_control S)")
  case (Pair r c)
  then have c: "admitted S = S\<lparr>ss_control := c\<rparr>" by simp
  show ?thesis
  proof (cases r)
    case (Inl e)
    with Pair c show ?thesis by (auto simp: send_with_timeouts_def)
  next
    case (Inr i)
    let ?S1 = "snd (send_request P W rnd uuid (admitted S) v)"
    obtain r1 S1 where sr: "send_request P W rnd uuid (S\<lparr>ss_control := c\<rparr>) v = (r1, S1)"
      by (cases "send_request P W rnd uuid (S\<lparr>ss_control := c\<rparr>) v")
    have "snd (send_with_timeouts P W rnd uuid mx start turns S v a b) \<in> {S1, finished i S1}"
      by (cases r1; cases "receive_response mx start uuid a b turns")
         (simp_all add: send_with_timeouts_def Pair Inr sr)
    then have "snd (send_with_timeouts P W rnd uuid mx start turns S v a b) \<in> {?S1, finished i ?S1}"
      by (simp only: c sr snd_conv)
    moreover have "?S1 \<in> {admitted S, snd (send_session_message P W rnd (admitted S) (Request uuid v))}"
      by (simp add: send_request_def)
    ultimately show ?thesis by blast
  qed
qed

lemma send_with_timeouts_frame [simp]:
  "ss_signaling (snd (send_with_timeouts P W rnd uuid mx start turns S v a b)) = ss_signaling S"
  "ss_events_taken (snd (send_with_timeouts P W rnd uuid mx start turns S v a b)) = ss_events_taken S"
  "ss_decryption_key (snd (send_with_timeouts P W rnd uuid mx start turns S v a b)) = ss_decryption_key S"
  using send_with_timeouts_shape [of S P W rnd uuid v mx start turns a b] by auto

lemma link_loop_frame [simp]:
  "ss_signaling (snd (link_loop turns S)) = ss_signaling S"
  "ss_events_taken (snd (link_loop turns S)) = ss_events_taken S"
  "ss_control (snd (link_loop turns S)) = ss_control S"
  "ss_transport (snd (link_loop turns S)) = ss_transport S"
  "ss_decryption_key (snd (link_loop turns S)) = ss_decryption_key S"
  by (induction turns S rule: link_loop.induct)
     (simp_all add: Let_def split: state_recv.splits transport_state.splits)

lemma wait_for_link_frame [simp]:
  "ss_signaling (snd (wait_for_link turns S)) = ss_signaling S"
  "ss_events_taken (snd (wait_for_link turns S)) = ss_events_taken S"
  "ss_control (snd (wait_for_link turns S)) = ss_control S"
  "ss_transport (snd (wait_for_link turns S)) = ss_transport S"
  "ss_decryption_key (snd (wait_for_link turns S)) = ss_decryption_key S"
  by (simp_all add: wait_for_link_def)

lemma session_wait_for_link_shape:
  "\<exists>i S1. S1 \<in> {admitted S, snd (wait_for_link turns (admitted S))} \<and>
     snd (session_wait_for_link turns S) \<in> {S1, finished i S1}"
proof (cases "spawn_control (ss_control S)")
  case (Pair r c)
  then have "admitted S = S\<lparr>ss_control := c\<rparr>" by simp
  moreover obtain r1 S1 where "wait_for_link turns (S\<lparr>ss_control := c\<rparr>) = (r1, S1)"
    by (cases "wait_for_link turns (S\<lparr>ss_control := c\<rparr>)")
  ultimately show ?thesis
    using Pair by (cases r; cases r1) (auto simp: session_wait_for_link_def)
qed

lemma session_wait_for_link_frame [simp]:
  "ss_signaling (snd (session_wait_for_link turns S)) = ss_signaling S"
  "ss_events_taken (snd (session_wait_for_link turns S)) = ss_events_taken S"
  "ss_transport (snd (session_wait_for_link turns S)) = ss_transport S"
  "ss_decryption_key (snd (session_wait_for_link turns S)) = ss_decryption_key S"
  using session_wait_for_link_shape [of S turns] by auto

text \<open>Closing: control, then the close message, then the teardowns, if it gets so far.\<close>

lemma session_close_shape_cases:
  fixes S :: session and P :: platform and W :: webrtc and rnd :: bytes and ends :: "nat list"
  defines "S0 \<equiv> on_control close_control S"
  defines "S1 \<equiv> snd (send_session_message P W rnd S0 Close)"
  defines "S2 \<equiv> on_control (\<lambda>c. snd (wait_for_tasks ends c)) S1"
  defines "S3 \<equiv> S2\<lparr>ss_transport := snd (t_teardown W (ss_transport S2))\<rparr>"
  obtains (again) "snd (session_close P N W rnd ends S) = S0"
  | (waiting) "snd (session_close P N W rnd ends S) = S2"
  | (closed) r where "snd (session_close P N W rnd ends S) =
      (set_status Disconnected (snd (signaling_teardown N S3)))\<lparr>ss_close_result := Some r\<rparr>"
proof (cases "ss_close_result S0")
  case (Some r)
  then show ?thesis by (intro again) (simp add: session_close_def S0_def)
next
  case None
  show ?thesis
  proof (cases "fst (wait_for_tasks ends (ss_control S1))")
    case False
    with None show ?thesis
      by (intro waiting) (auto simp: session_close_def S0_def S1_def S2_def Let_def split: prod.splits)
  next
    case True
    with None show ?thesis
      by (intro closed [of "rbind (fst (t_teardown W (ss_transport S2))) (\<lambda>_. fst (signaling_teardown N S3))"])
         (auto simp: session_close_def S0_def S1_def S2_def S3_def Let_def split: prod.splits)
  qed
qed

lemma session_close_frame:
  "ss_events_taken (snd (session_close P N W rnd ends S)) = ss_events_taken S"
  "ss_decryption_key (snd (session_close P N W rnd ends S)) = ss_decryption_key S"
  "ss_signaling (snd (session_close P N W rnd ends S)) \<in> {ss_signaling S, stop_handshake_tasks (ss_signaling S)}"
  "ss_control (snd (session_close P N W rnd ends S)) \<in>
     {close_control (ss_control S), snd (wait_for_tasks ends (close_control (ss_control S)))}"
  by (cases rule: session_close_shape_cases [of P N W rnd ends S]; simp)+

lemma signaling_setup_frame [simp]:
  "ss_events_taken (snd (signaling_setup P N now rnd S)) = ss_events_taken S"
  "ss_control (snd (signaling_setup P N now rnd S)) = ss_control S"
  "ss_transport (snd (signaling_setup P N now rnd S)) = ss_transport S"
  "ss_decryption_key (snd (signaling_setup P N now rnd S)) = ss_decryption_key S"
  "\<exists>pub r1 r2. ss_signaling (snd (signaling_setup P N now rnd S)) =
     snd (layer_setup P now rnd pub r1 r2 (ss_signaling S))"
  by (auto simp: signaling_setup_def split: prod.splits) (metis snd_conv)+

abbreviation looping :: "session \<Rightarrow> session" where
  "looping S \<equiv> on_control (\<lambda>c. snd (spawn_loops 4 c)) (set_status Signaling_up (S\<lparr>ss_events_taken := True\<rparr>))"

lemma in_operation_shape:
  obtains (refused) "snd (in_operation body S) = admitted S"
  | (ran) i where "snd (in_operation body S) = finished i (snd (body (admitted S)))"
proof (cases "spawn_control (ss_control S)")
  case (Pair r c)
  obtain r1 S1 where "body (S\<lparr>ss_control := c\<rparr>) = (r1, S1)" by (cases "body (S\<lparr>ss_control := c\<rparr>)")
  with Pair refused ran show ?thesis by (cases r) (simp_all add: in_operation_def)
qed

lemma start_event_loops_snd:
  "snd (start_event_loops S) = on_control (\<lambda>c. snd (spawn_loops 4 c)) S"
  by (simp add: start_event_loops_def split_beta)

lemma session_connect_cases:
  obtains (refused) i where "snd (session_connect P N now rnd S) \<in> {admitted S, finished i (admitted S)}"
  | (started) i S1 where "\<not> ss_events_taken S"
      "S1 \<in> {looping (admitted S), snd (signaling_setup P N now rnd (looping (admitted S)))}"
      "snd (session_connect P N now rnd S) = finished i S1"
proof -
  let ?body = "\<lambda>S. if ss_events_taken S then (Fail (Session ''session already connected''), S)
     else (case start_event_loops (set_status Signaling_up (S\<lparr>ss_events_taken := True\<rparr>)) of
             (Inl e, S1) \<Rightarrow> (Inl e, S1)
           | (Inr _, S1) \<Rightarrow> signaling_setup P N now rnd S1)"
  have op: "session_connect P N now rnd S = in_operation ?body S" by (simp only: session_connect_def)
  show ?thesis
  proof (cases rule: in_operation_shape [of ?body S, case_names shut ran])
    case shut
    then show ?thesis using op by (intro refused) simp
  next
    case (ran i)
    show ?thesis
    proof (cases "ss_events_taken S")
      case True
      with ran op show ?thesis by (intro refused [of i]) simp
    next
      case False
      let ?S0 = "set_status Signaling_up ((admitted S)\<lparr>ss_events_taken := True\<rparr>)"
      obtain r1 S1 where se: "start_event_loops ?S0 = (r1, S1)" by (cases "start_event_loops ?S0")
      then have S1: "S1 = looping (admitted S)" using start_event_loops_snd [of ?S0] by simp
      have "snd (?body (admitted S)) \<in> {S1, snd (signaling_setup P N now rnd S1)}"
        using False se by (cases r1) simp_all
      then show ?thesis using started [OF False] ran op unfolding S1 by auto
    qed
  qed
qed

section \<open>Inside a session, components run as on their own\<close>

subsection \<open>The control\<close>

lemma spawn_loops_control: "control_step\<^sup>*\<^sup>* (c, n) (snd (spawn_loops k c), n)"
proof (induction k arbitrary: c)
  case (Suc k)
  obtain r c1 where sp: "spawn_control c = (r, c1)" by (cases "spawn_control c")
  then have "control_step (c, n) (c1, n)" using cs_spawn [of c n] by simp
  with Suc.IH [of c1] sp show ?case
    by (cases r) (simp_all add: converse_rtranclp_into_rtranclp r_into_rtranclp)
qed simp

lemma finished_control: "control_step\<^sup>*\<^sup>* (c, n) (abort_handle i (end_task i c), n)"
  by (meson cs_abort cs_end r_into_rtranclp rtranclp.rtrancl_into_rtrancl)

lemma admitted_control: "control_step\<^sup>*\<^sup>* (c, n) (snd (spawn_control c), n)"
  by (rule r_into_rtranclp, rule cs_spawn)

lemma operation_control:
  "control_step\<^sup>*\<^sup>* (c, n) (abort_handle i (end_task i (snd (spawn_control c))), n)"
  by (rule rtranclp_trans [OF admitted_control finished_control])

lemma dispatch_request_control:
  "control_step\<^sup>*\<^sup>* (ss_control S, n)
     (ss_control (snd (dispatch_request S payload)), n + new_permits S (snd (dispatch_request S payload)))"
proof -
  let ?c = "ss_control S"
  consider "closed_flag ?c" | "\<not> closed_flag ?c" "256 \<le> active_handlers ?c"
    | "\<not> closed_flag ?c" "active_handlers ?c < 256" by fastforce
  then show ?thesis
  proof cases
    case 3
    let ?d = "?c\<lparr>active_handlers := active_handlers ?c + 1\<rparr>"
    have "control_step (?c, n) (?d, Suc n)"
      using 3 by (intro cs_admit) (simp add: admit_handler_def MAX_ACTIVE_HANDLERS_def)
    then have "control_step\<^sup>*\<^sup>* (?c, n) (snd (spawn_control ?d), Suc n)"
      using cs_spawn by (blast intro: rtranclp.rtrancl_into_rtrancl r_into_rtranclp)
    moreover have "ss_control (snd (dispatch_request S payload)) = snd (spawn_control ?d)"
      using 3 by (simp add: dispatch_request_def admit_handler_def spawn_control_def observe_request_def
          MAX_ACTIVE_HANDLERS_def Let_def)
    moreover from 3 this have "new_permits S (snd (dispatch_request S payload)) = 1"
      by (simp add: new_permits_def spawn_control_def Let_def)
    ultimately show ?thesis by simp
  qed (simp_all add: dispatch_request_def admit_handler_def new_permits_def MAX_ACTIVE_HANDLERS_def)
qed

lemma no_new_permits [simp]: "ss_control S' = ss_control S \<Longrightarrow> new_permits S S' = 0"
  by (simp add: new_permits_def)

lemma frame_control:
  "control_step\<^sup>*\<^sup>* (ss_control S, n)
     (ss_control (snd (handle_session_frame P S text')), n + new_permits S (snd (handle_session_frame P S text')))"
proof (cases "session_message_from_str P text'")
  case (Inr m)
  then show ?thesis
    by (cases m) (simp_all add: handle_session_frame_def dispatch_request_control Let_def)
qed (simp add: handle_session_frame_def)

lemma payload_control:
  "control_step\<^sup>*\<^sup>* (ss_control S, n)
     (ss_control (snd (handle_transport_payload P S raw)), n + new_permits S (snd (handle_transport_payload P S raw)))"
  by (cases "peer_decrypt P (ss_decryption_key S) raw (relying_key (ss_signaling S))")
     (simp_all add: handle_transport_payload_def frame_control)

lemma connect_control: "control_step\<^sup>*\<^sup>* (ss_control S, n) (ss_control (snd (session_connect P N now rnd S)), n)"
proof (cases rule: session_connect_cases [of P N now rnd S])
  case (refused i)
  then show ?thesis using admitted_control operation_control by auto
next
  case (started i S1)
  then have "ss_control S1 = snd (spawn_loops 4 (snd (spawn_control (ss_control S))))" by auto
  moreover have "control_step\<^sup>*\<^sup>* (ss_control S, n) (snd (spawn_loops 4 (snd (spawn_control (ss_control S)))), n)"
    by (rule rtranclp_trans [OF admitted_control spawn_loops_control])
  ultimately show ?thesis using started(3) finished_control by (simp add: rtranclp_trans)
qed

lemma close_control_steps:
  "control_step\<^sup>*\<^sup>* (ss_control S, n) (ss_control (snd (session_close P N W rnd ends S)), n)"
proof -
  have "control_step (ss_control S, n) (close_control (ss_control S), n)" by (rule cs_close)
  moreover have "control_step (close_control (ss_control S), n)
      (snd (wait_for_tasks ends (close_control (ss_control S))), n)" by (rule cs_wait)
  ultimately show ?thesis
    using session_close_frame(4) [of P N W rnd ends S] by (auto intro: rtranclp.rtrancl_into_rtrancl)
qed

lemma own_control_step:
  assumes "own_step P S S'"
  shows "control_step\<^sup>*\<^sup>* (ss_control S, n) (ss_control S', n)"
  using assms
proof cases
  case (own_task_end i)
  then show ?thesis using cs_end by (simp add: r_into_rtranclp)
next
  case (own_wait turns')
  then show ?thesis
    using session_wait_for_link_shape [of S turns'] admitted_control operation_control by auto
next
  case own_drop
  then show ?thesis using cs_close by (simp add: session_drop_def r_into_rtranclp)
qed (simp_all add: connect_control close_control_steps)

lemma session_control_step:
  assumes "session_step P (S, n) (S', n')"
  shows "control_step\<^sup>*\<^sup>* (ss_control S, n) (ss_control S', n')"
  using assms
proof cases
  case sess_own
  then show ?thesis by (simp add: own_control_step)
next
  case (sess_transport_event ev N now rnd uuid)
  then show ?thesis
    using payload_control [of S n P] by (cases ev) (auto simp: on_transport_event_def)
next
  case (sess_send W rnd uuid mx start turns message ack_ms resp_ms)
  then show ?thesis
    using send_with_timeouts_shape [of S P W rnd uuid message mx start turns ack_ms resp_ms]
      admitted_control operation_control by auto
qed (use cs_drop in \<open>simp_all add: r_into_rtranclp\<close>)

subsection \<open>The signaling layer\<close>

text \<open>A layer has announced its state, and one that has announced \<open>Encrypted\<close> knows its peer.\<close>

lemma state_tx_frame [simp]:
  "state_tx (stop_repeating L) = state_tx L" "state_tx (stop_handshake_tasks L) = state_tx L"
  "state_tx (start_handshake_deadline L) = state_tx L" "state_tx (start_repeating p r m L) = state_tx L"
  "state_tx (store_peer_capabilities c L) = state_tx L" "state_tx (set_state st L) = state_tx L @ [st]"
proof -
  show rep: "state_tx (stop_repeating L) = state_tx L" for L
    by (simp add: stop_repeating_def abort_task_def split: option.splits)
  show tasks: "state_tx (stop_handshake_tasks L) = state_tx L" for L
    by (simp add: stop_handshake_tasks_def abort_task_def rep Let_def split: option.splits)
  show "state_tx (set_state st L) = state_tx L @ [st]"
    by (simp add: set_state_def tasks Let_def)
qed (simp_all add: start_handshake_deadline_def start_repeating_def spawn_task_def store_peer_capabilities_def)

lemma state_tx_sends [simp]:
  "state_tx (snd (send_message P rnd pub L p r m)) = state_tx L"
  "state_tx (snd (send_repeating P rnd pub L p r m)) = state_tx L"
  "state_tx (snd (run_action P rnd pub La)) = state_tx (fst La)"
proof -
  show msg: "state_tx (snd (send_message P rnd pub L p r m)) = state_tx L" for L p r m
    using send_message_result [of P rnd pub L p r m] by auto
  show rep: "state_tx (snd (send_repeating P rnd pub L p r m)) = state_tx L" for L p r m
    by (cases rule: send_repeating_cases [of P rnd pub L p r m]) simp_all
  show "state_tx (snd (run_action P rnd pub La)) = state_tx (fst La)"
    by (simp add: run_action_def msg rep split: action.splits)
qed

definition announced_inv :: "layer \<Rightarrow> bool" where
  "announced_inv L \<longleftrightarrow> (S_Encrypted \<in> set (state_tx L) \<longrightarrow> relying_key L \<noteq> None) \<and>
     (sl_state L = S_Standby \<or> sl_state L \<in> set (state_tx L))"

lemma announced_dispatch:
  assumes "layer_inv P L" "announced_inv L"
  shows "announced_inv (fst (dispatch P now L frame message))"
proof (cases rule: dispatch_cases [of frame L P now message])
  case (host_pubkey payload t)
  with assms(2) show ?thesis
    by (auto simp: announced_inv_def on_host_pubkey_def store_relying_key_def Let_def
        split: sum.splits bool.splits)
next
  case (client_pubkey payload t)
  with assms(2) show ?thesis
    by (auto simp: announced_inv_def on_client_pubkey_def store_relying_key_def Let_def split: sum.splits)
next
  case (capabilities c t)
  with assms(1) show ?thesis
    by (simp add: announced_inv_def on_capabilities_def layer_inv_def key_inv_def Let_def)
qed (use assms(2) in \<open>auto simp: announced_inv_def on_flash_def Let_def\<close>)

lemma announced_step:
  assumes "layer_step P L L'" "layer_inv P L" "announced_inv L"
  shows "announced_inv L'"
  using assms(1)
proof cases
  case (step_setup now rnd pub ch_setup ch_subscribe)
  then show ?thesis
    using assms(3)
    by (auto simp: announced_inv_def layer_setup_def setup_tail_def can_encrypt_def Let_def split: sum.splits)
next
  case (step_receive now rnd pub payload)
  have "announced_inv (fst (handle_receive_sync P now L payload))"
    by (cases rule: handle_receive_sync_cases [of P now L payload])
       (use assms(2,3) in \<open>simp_all add: announced_dispatch\<close>)
  with step_receive show ?thesis by (simp add: announced_inv_def handle_receive_def)
next
  case (step_deadline i)
  then show ?thesis using assms(3) by (auto simp: announced_inv_def deadline_expired_def abort_task_def)
next
  case (step_resend rnd pub i)
  then show ?thesis
    using assms(3) by (simp add: announced_inv_def resend_def split: option.splits task.splits)
next
  case (step_send now rnd pub message)
  then show ?thesis using assms(3) by (simp add: announced_inv_def layer_send_def)
next
  case (step_teardown ch_teardown)
  then show ?thesis using assms(3) by (simp add: announced_inv_def layer_teardown_def)
qed

lemma fresh_new_layer [simp]: "fresh_layer (new_layer ct p)"
  by blast

lemma fresh_layer_quiet:
  assumes "fresh_layer L"
  shows "stop_handshake_tasks L = L" "resend P rnd pub i L = L" "live_tasks L i \<noteq> Some t"
    "snd (layer_send P now rnd pub L v) = L" "state_tx L = []" "message_tx L = []" "sl_state L = S_Standby"
  using assms
  by (auto simp: new_layer_def stop_handshake_tasks_def stop_repeating_def resend_def layer_send_def can_encrypt_def)

lemma on_transport_event_layer:
  "ss_signaling (on_transport_event P N now rnd uuid ev S) = ss_signaling S \<or>
   (\<exists>v. ss_signaling (on_transport_event P N now rnd uuid ev S) =
      snd (layer_send P now rnd (channel_publish P N (ss_channel S)) (ss_signaling S) v))"
  by (cases ev) (auto simp: on_transport_event_def)

lemma own_layer_step:
  assumes "own_step P S S'" "\<not> ss_events_taken S \<Longrightarrow> fresh_layer (ss_signaling S)"
  shows "ss_signaling S' = ss_signaling S \<or> layer_step P (ss_signaling S) (ss_signaling S')"
  using assms(1)
proof cases
  case (own_connect N now rnd)
  show ?thesis
  proof (cases rule: session_connect_cases [of P N now rnd S])
    case (refused i)
    with own_connect show ?thesis by auto
  next
    case (started i S1)
    then have "sl_state (ss_signaling S) = S_Standby" using fresh_layer_quiet(7) assms(2) by blast
    from step_setup [OF this] started own_connect signaling_setup_frame(5) [of P N now rnd "looping (admitted S)"]
    show ?thesis by auto
  qed
next
  case (own_close N W rnd ends)
  then show ?thesis
    using session_close_frame(3) [of P N W rnd ends S] step_teardown [of P "ss_signaling S" "Ok ()"]
    by (auto simp: layer_teardown_def)
qed (auto simp: session_drop_def intro: step_resend step_deadline)

lemma session_layer_step:
  assumes "session_step P (S, n) (S', n')" "\<not> ss_events_taken S \<Longrightarrow> fresh_layer (ss_signaling S)"
  shows "ss_signaling S' = ss_signaling S \<or> layer_step P (ss_signaling S) (ss_signaling S')"
  using assms(1)
proof cases
  case sess_own
  then show ?thesis using own_layer_step assms(2) by blast
next
  case (sess_transport_event ev N now rnd uuid)
  then show ?thesis
    using on_transport_event_layer [of P N now rnd uuid ev S] step_send [of P "ss_signaling S"] by auto
qed (auto intro: step_receive)

text \<open>Only connecting takes the receiver of the transport's events, and with it the loops start.\<close>

lemma own_step_taken:
  assumes "own_step P S S'"
  shows "ss_events_taken S \<Longrightarrow> ss_events_taken S'"
    "\<not> ss_events_taken S' \<Longrightarrow> fresh_layer (ss_signaling S) \<Longrightarrow> ss_signaling S' = ss_signaling S \<and> \<not> ss_events_taken S"
proof -
  show "ss_events_taken S'" if "ss_events_taken S"
    using assms
  proof cases
    case (own_connect N now rnd)
    then show ?thesis by (cases rule: session_connect_cases [of P N now rnd S]) (use that in auto)
  qed (use that in \<open>simp_all add: session_close_frame session_drop_def\<close>)
  show "ss_signaling S' = ss_signaling S \<and> \<not> ss_events_taken S"
    if "\<not> ss_events_taken S'" "fresh_layer (ss_signaling S)"
    using assms
  proof cases
    case (own_connect N now rnd)
    then show ?thesis by (cases rule: session_connect_cases [of P N now rnd S]) (use that in auto)
  next
    case (own_close N W rnd ends)
    then show ?thesis
      using that session_close_frame [of P N W rnd ends S] fresh_layer_quiet(1) [OF that(2)] by auto
  qed (use that fresh_layer_quiet [OF that(2)] in \<open>auto simp: session_drop_def\<close>)
qed

lemma session_step_taken:
  assumes "session_step P (S, n) (S', n')" "ss_events_taken S"
  shows "ss_events_taken S'"
  using assms(1)
proof cases
  case sess_own
  then show ?thesis using own_step_taken(1) assms(2) by blast
next
  case (sess_transport_event ev N now rnd uuid)
  then show ?thesis using assms(2) by (cases ev) (auto simp: on_transport_event_def)
qed (use assms(2) in simp_all)

lemma session_fresh_step:
  assumes "session_step P (S, n) (S', n')" "\<not> ss_events_taken S'" "fresh_layer (ss_signaling S)"
  shows "ss_signaling S' = ss_signaling S \<and> \<not> ss_events_taken S"
  using assms(1)
proof cases
  case sess_own
  then show ?thesis using own_step_taken(2) assms(2,3) by blast
next
  case (sess_transport_event ev N now rnd uuid)
  then show ?thesis
    using assms(2) fresh_layer_quiet(4) [OF assms(3)]
    by (cases ev) (auto simp: on_transport_event_def)
qed (use assms(2) in simp_all)

subsection \<open>The transport\<close>

text \<open>Before its setup has begun, a transport has no connection and no events.\<close>

definition transport_inv :: "transport \<Rightarrow> bool" where
  "transport_inv T \<longleftrightarrow> setup_begun T \<or> (tp_events T = [] \<and> peer_connection T = None)"

definition quiet_change :: "transport \<Rightarrow> transport \<Rightarrow> bool" where
  "quiet_change T T' \<longleftrightarrow> setup_begun T' = setup_begun T \<and> (transport_inv T \<longrightarrow> transport_inv T')"

lemma quiet_change_refl [simp]: "quiet_change T T"
  by (simp add: quiet_change_def)

lemma quiet_change_trans: "quiet_change T U \<Longrightarrow> quiet_change U V \<Longrightarrow> quiet_change T V"
  by (simp add: quiet_change_def)

lemma quiet_t_send: "quiet_change T (snd (t_send W T payload))"
  by (simp add: quiet_change_def transport_inv_def setup_begun_def t_send_def split: sum.splits)

lemma quiet_t_teardown: "quiet_change T (snd (t_teardown W T))"
  by (auto simp: quiet_change_def transport_inv_def setup_begun_def t_teardown_def t_set_state_def Let_def
      split: option.splits sum.splits)

lemma begun_t_setup: "setup_begun (snd (t_setup W T))"
  by (auto simp: setup_begun_def t_setup_def t_set_state_def host_offer_def store_and_poll_dc_def emit_def Let_def
      split: sum.splits prod.splits if_splits)

lemma flush_state_tx [simp]: "tp_state_tx (snd (snd (flush_pending_candidates W calls T))) = tp_state_tx T"
  by (simp add: flush_pending_candidates_def split: prod.splits)

lemma apply_remote_state_tx [simp]: "tp_state_tx (snd (snd (apply_remote W calls p T))) = tp_state_tx T"
  by (simp add: apply_remote_def split: sum.splits)

lemma on_offer_state_tx [simp]: "tp_state_tx (snd (snd (on_offer W calls p T))) = tp_state_tx T"
proof (cases "apply_remote W calls p T")
  case (fields r calls' T')
  then have "tp_state_tx T' = tp_state_tx T" using apply_remote_state_tx [of W calls p T] by simp
  with fields show ?thesis by (simp add: on_offer_def emit_def split: sum.splits)
qed

lemma quiet_t_handle: "quiet_change T (snd (t_handle W T m))"
proof (cases "peer_connection T")
  case None
  then show ?thesis by (simp add: t_handle_def)
next
  case (Some calls)
  have "tp_state_tx (snd (snd (on_candidate W calls p T))) = tp_state_tx T" for p
    by (simp add: on_candidate_def split: sum.splits)
  then have "tp_state_tx (snd (t_handle W T m)) = tp_state_tx T"
    using Some on_offer_state_tx [of W calls "negotiation_payload m" T]
      apply_remote_state_tx [of W calls "negotiation_payload m" T]
    by (simp add: t_handle_def split_beta)
  with Some show ?thesis by (auto simp: quiet_change_def transport_inv_def setup_begun_def)
qed

lemma quiet_callback: "setup_begun T \<Longrightarrow> callback W T T' \<Longrightarrow> quiet_change T T'"
  by (erule callback.cases)
     (auto simp: quiet_change_def transport_inv_def setup_begun_def on_ice_candidate_def emit_def
       on_connection_state_change_def t_set_state_def on_data_channel_def store_and_poll_dc_def dc_turn_def
       split: option.splits dc_event.splits)

lemma begun_setup_build: "setup_begun (snd (setup_build W T))"
  by (auto simp: setup_begun_def setup_build_def t_set_state_def Let_def split: sum.splits)

lemma quiet_setup_next: "setup_begun T \<Longrightarrow> quiet_change T (snd (setup_next W T))"
  by (auto simp: quiet_change_def transport_inv_def setup_begun_def setup_next_def setup_open_def setup_describe_def
      setup_store_def store_and_poll_dc_def emit_def t_set_state_def Let_def split: option.splits setup_point.splits sum.splits)

lemma quiet_setup_dropped [simp]: "quiet_change T (T\<lparr>tp_setup := None\<rparr>)"
  by (simp add: quiet_change_def transport_inv_def setup_begun_def)

lemma quiet_message: "quiet_change (ss_transport S) (ss_transport (snd (send_session_message P W rnd S m)))"
proof (cases "rbind (ok_or (Err (Session ''relying party public key not found'')) (relying_key (ss_signaling S)))
    (\<lambda>k. peer_encrypt P rnd (ss_decryption_key S) (json_print P (session_message_to_value m)) k)")
  case (Inr e)
  then show ?thesis
    using quiet_t_send [of "ss_transport S" W e] by (simp add: send_session_message_def Let_def split_beta)
qed (simp add: send_session_message_def Let_def)

lemma quiet_send:
  "quiet_change (ss_transport S) (ss_transport (snd (send_with_timeouts P W rnd uuid mx start turns S v a b)))"
  using send_with_timeouts_shape [of S P W rnd uuid v mx start turns a b] quiet_message [of "admitted S"] by auto

lemma quiet_close: "quiet_change (ss_transport S) (ss_transport (snd (session_close P N W rnd ends S)))"
proof (cases rule: session_close_shape_cases [of P N W rnd ends S])
  case waiting
  then show ?thesis using quiet_message [of "on_control close_control S"] by simp
next
  case (closed r)
  then show ?thesis
    using quiet_change_trans [OF quiet_message [of "on_control close_control S"] quiet_t_teardown] by simp
qed simp

text \<open>Only the signal that the layer is encrypted starts the transport.\<close>

lemma own_transport_step:
  assumes "own_step P S S'"
  shows "quiet_change (ss_transport S) (ss_transport S') \<or>
    S_Encrypted \<in> set (state_tx (ss_signaling S)) \<and> setup_begun (ss_transport S')"
  using assms
proof cases
  case (own_connect N now rnd)
  then show ?thesis by (cases rule: session_connect_cases [of P N now rnd S]) auto
next
  case (own_signal_state st W)
  then show ?thesis
    using on_signal_state_transport(1) [of W st S] on_signal_state_transport(2) [of st W S] begun_t_setup [of W "ss_transport S"]
    by (cases "st = S_Encrypted") auto
next
  case (own_signal_message v W)
  then show ?thesis
    using on_signal_message_transport [of W v S] quiet_t_handle by auto
qed (simp_all add: quiet_close quiet_callback quiet_setup_next begun_setup_build session_drop_def)

lemma quiet_channel_message: "setup_begun T \<Longrightarrow> quiet_change T (snd (dc_turn (OnMessage d) T))"
  by (simp add: quiet_change_def transport_inv_def setup_begun_def dc_turn_def)

lemma session_transport_step:
  assumes "session_step P (S, n) (S', n')"
  shows "quiet_change (ss_transport S) (ss_transport S') \<or>
    S_Encrypted \<in> set (state_tx (ss_signaling S)) \<and> setup_begun (ss_transport S')"
  using assms
proof cases
  case sess_own
  then show ?thesis by (simp add: own_transport_step)
next
  case (sess_transport_event ev N now rnd uuid)
  then show ?thesis by (cases ev) (auto simp: on_transport_event_def)
qed (simp_all add: quiet_message quiet_send quiet_channel_message)

section \<open>What holds in every session\<close>

definition session_inv :: "platform \<Rightarrow> session \<times> nat \<Rightarrow> bool" where
  "session_inv P s \<longleftrightarrow>
     (let S = fst s; L = ss_signaling S; T = ss_transport S in
      (\<not> ss_events_taken S \<longrightarrow> fresh_layer L) \<and> layer_inv P L \<and> announced_inv L \<and>
      ss_decryption_key S = sp_decryption_key (props L) \<and>
      transport_inv T \<and> (setup_begun T \<longrightarrow> relying_key L \<noteq> None))"

lemma own_step_decryption_key:
  assumes "own_step P S S'"
  shows "ss_decryption_key S' = ss_decryption_key S"
  using assms
proof cases
  case (own_connect N now rnd)
  then show ?thesis by (cases rule: session_connect_cases [of P N now rnd S]) auto
qed (simp_all add: session_close_frame session_drop_def)

lemma session_step_decryption_key:
  assumes "session_step P (S, n) (S', n')"
  shows "ss_decryption_key S' = ss_decryption_key S"
  using assms
proof cases
  case (sess_transport_event ev N now rnd uuid)
  then show ?thesis by (cases ev) (auto simp: on_transport_event_def)
qed (simp_all add: own_step_decryption_key)

lemma session_step_props:
  assumes "session_inv P (S, n)" "session_step P (S, n) (S', n')"
  shows "props (ss_signaling S') = props (ss_signaling S)"
proof -
  have "\<not> ss_events_taken S \<Longrightarrow> fresh_layer (ss_signaling S)" "layer_inv P (ss_signaling S)"
    using assms(1) by (simp_all add: session_inv_def Let_def)
  with session_layer_step [OF assms(2)] grows_step show ?thesis by (auto simp: grows_def)
qed

lemma session_inv_step:
  assumes "session_inv P (S, n)" "session_step P (S, n) (S', n')"
  shows "session_inv P (S', n')"
proof -
  let ?L = "ss_signaling S" and ?L' = "ss_signaling S'"
  from assms(1) have inv: "\<not> ss_events_taken S \<Longrightarrow> fresh_layer ?L" "layer_inv P ?L" "announced_inv ?L"
      "ss_decryption_key S = sp_decryption_key (props ?L)" "transport_inv (ss_transport S)"
      "setup_begun (ss_transport S) \<Longrightarrow> relying_key ?L \<noteq> None"
    by (simp_all add: session_inv_def Let_def)
  have step: "?L' = ?L \<or> layer_step P ?L ?L'" using session_layer_step [OF assms(2) inv(1)] by blast
  then have grow: "grows ?L ?L'" using grows_step [OF inv(2)] by auto
  from step have "layer_inv P ?L'" "announced_inv ?L'"
    using layer_inv_step [OF inv(2)] announced_step [OF _ inv(2,3)] inv(2,3) by auto
  moreover have "\<not> ss_events_taken S' \<longrightarrow> fresh_layer ?L'"
  proof
    assume fresh: "\<not> ss_events_taken S'"
    show "fresh_layer ?L'"
    proof (cases "ss_events_taken S")
      case False
      then show ?thesis using session_fresh_step [OF assms(2) fresh] inv(1) by simp
    qed (use session_step_taken [OF assms(2)] fresh in blast)
  qed
  moreover have "ss_decryption_key S' = sp_decryption_key (props ?L')"
    using grow inv(4) session_step_decryption_key [OF assms(2)] by (simp add: grows_def)
  moreover have "transport_inv (ss_transport S') \<and> (setup_begun (ss_transport S') \<longrightarrow> relying_key ?L' \<noteq> None)"
    using session_transport_step [OF assms(2)] inv(3,5,6) grow
    by (auto simp: quiet_change_def transport_inv_def announced_inv_def grows_def)
  ultimately show ?thesis by (simp add: session_inv_def Let_def)
qed

interpretation session_layer: refinement fresh_session "session_step P" "session_inv P"
  fresh_layer "layer_step P" "\<lambda>s. ss_signaling (fst s)" for P
proof
  fix s s' :: "session \<times> nat"
  show "fresh_layer (ss_signaling (fst s))" if "fresh_session s"
    using that by (auto simp: fresh_session_def build_session_def)
  show "session_inv P s" if "fresh_session s"
  proof -
    from that obtain uri h ct p ch where s: "s = (build_session uri h (new_layer ct p) ch (sp_decryption_key p), 0)"
      by (auto simp: fresh_session_def)
    have "layer_inv P (new_layer ct p)" by (rule layer_sys.inv_init) blast
    with s show ?thesis
      by (simp add: session_inv_def build_session_def announced_inv_def transport_inv_def
          setup_begun_def new_transport_def Let_def) (simp add: new_layer_def)
  qed
  show "session_inv P s'" if "session_inv P s" "session_step P s s'"
    using that session_inv_step by (cases s; cases s') simp
  show "(layer_step P)\<^sup>*\<^sup>* (ss_signaling (fst s)) (ss_signaling (fst s'))" if "session_inv P s" "session_step P s s'"
    using that session_layer_step [of P "fst s" "snd s" "fst s'" "snd s'"]
    by (auto simp: session_inv_def Let_def)
qed

interpretation session_tasks: refinement fresh_session "session_step P" "session_inv P"
  fresh_control control_step "\<lambda>s. (ss_control (fst s), snd s)" for P
proof
  fix s s' :: "session \<times> nat"
  show "fresh_control (ss_control (fst s), snd s)" if "fresh_session s"
    using that by (auto simp: fresh_session_def build_session_def)
  show "control_step\<^sup>*\<^sup>* (ss_control (fst s), snd s) (ss_control (fst s'), snd s')"
    if "session_inv P s" "session_step P s s'"
    using that session_control_step [of P "fst s" "snd s" "fst s'" "snd s'"] by simp
qed



text \<open>
  C5. Nobody but the invited peer is ever heard: in every state a session can be in, a message
  that its transport hands over changes the session only when it was encrypted under the
  peer key the handshake recorded, which on the client's side has the hash of the URL. In
  particular no message is handled before there is such a key, although decryption without
  one would accept any sender.
\<close>

theorem only_the_peer_is_heard:
  assumes "reachable fresh_session (session_step P) (S, n)" "Message raw \<in> set (tp_events (ss_transport S))"
    "snd (handle_transport_payload P S raw) \<noteq> S"
  shows "\<exists>k b plain. relying_key (ss_signaling S) = Some k \<and>
    (\<not> sp_is_host (props (ss_signaling S)) \<longrightarrow> hash_public_key P k = sp_h (props (ss_signaling S))) \<and>
    from_base64 P raw = Ok b \<and> take PUBLIC_KEY_BYTES b = public_key k \<and>
    peer_decrypt P (sp_decryption_key (props (ss_signaling S))) raw (Some k) = Ok plain \<and>
    handle_transport_payload P S raw = handle_session_frame P S plain"
proof -
  have inv: "session_inv P (S, n)" by (rule session_layer.reachable_inv [OF assms(1)])
  then have "relying_key (ss_signaling S) \<noteq> None"
    using assms(2) by (auto simp: session_inv_def transport_inv_def Let_def)
  then obtain k where k: "relying_key (ss_signaling S) = Some k" by blast
  from payload_sender [OF k assms(3)] k inv show ?thesis
    by (auto simp: session_inv_def layer_inv_def key_inv_def Let_def)
qed

end
