(* ===== verification/Speaking.thy ===== *)
theory Speaking
  imports Session_System
begin

text \<open>
  What a session says. A party is a session together with the handler tasks it runs and a
  log of what its program asked for and its handlers answered. Every ciphertext that leaves
  a party was made by its own \<open>encrypt\<close> from a message of this log, from its key or its
  capabilities, or from a negotiation message of its transport.
\<close>

section \<open>Parties\<close>

record party =
  pt_session :: session
  pt_jobs :: "(string \<times> json) list"
  pt_asked :: "(string \<times> json) list"
  pt_answered :: "(string \<times> json \<times> json res) list"

datatype input = Broker string | Channel bytes | Inner

text \<open>The request that an event of the transport admits, with its id, for the task that is spawned.\<close>

definition accepted_request :: "platform \<Rightarrow> session \<Rightarrow> transport_event \<Rightarrow> (string \<times> json) list" where
  "accepted_request P S ev =
     (case ev of
        Negotiation _ \<Rightarrow> []
      | Message raw \<Rightarrow>
        (case rbind (peer_decrypt P (ss_decryption_key S) raw (relying_key (ss_signaling S)))
                (session_message_from_str P) of
           Inl _ \<Rightarrow> []
         | Inr m \<Rightarrow>
           (case m of
              Request mid v \<Rightarrow> if is_ok (fst (dispatch_request S v)) then [(mid, v)] else []
            | _ \<Rightarrow> [])))"

inductive party_step :: "platform \<Rightarrow> input \<Rightarrow> party \<Rightarrow> party \<Rightarrow> bool" for P :: platform where
  party_own: "own_step P (pt_session p) S' \<Longrightarrow> party_step P Inner p (p\<lparr>pt_session := S'\<rparr>)"
| party_frame: "ss_events_taken (pt_session p) \<Longrightarrow>
    party_step P (Broker payload) p (p\<lparr>pt_session := receiving P N now rnd payload (pt_session p)\<rparr>)"
| party_message: "setup_begun (ss_transport (pt_session p)) \<Longrightarrow>
    party_step P (Channel d) p (p\<lparr>pt_session := channel_message d (pt_session p)\<rparr>)"
| party_event: "ev \<in> set (tp_events (ss_transport (pt_session p))) \<Longrightarrow>
    party_step P Inner p
      (p\<lparr>pt_session := on_transport_event P N now rnd uuid ev (pt_session p),
         pt_jobs := pt_jobs p @ accepted_request P (pt_session p) ev\<rparr>)"
| party_ask: "party_step P Inner p
    (p\<lparr>pt_session := snd (send_with_timeouts P W rnd uuid mx start turns (pt_session p) message ack_ms resp_ms),
       pt_asked := pt_asked p @ [(uuid, message)]\<rparr>)"
| party_ack: "(mid, v) \<in> set (pt_jobs p) \<Longrightarrow>
    party_step P Inner p (p\<lparr>pt_session := snd (send_session_message P W rnd (pt_session p) (Ack mid))\<rparr>)"
| party_answer: "pt_jobs p = as @ (mid, v) # bs \<Longrightarrow>
    party_step P Inner p
      (p\<lparr>pt_session := on_control drop_permit (snd (send_session_message P W rnd (pt_session p) (reply mid outcome))),
         pt_jobs := as @ bs, pt_answered := pt_answered p @ [(mid, v, outcome)]\<rparr>)"
| party_cancelled: "pt_jobs p = as @ j # bs \<Longrightarrow>
    party_step P Inner p (p\<lparr>pt_session := on_control drop_permit (pt_session p), pt_jobs := as @ bs\<rparr>)"

text \<open>A party is a session with as many permits as it has tasks.\<close>

lemma dispatch_permits: "new_permits S (snd (dispatch_request S v)) = (if is_ok (fst (dispatch_request S v)) then 1 else 0)"
proof -
  let ?c = "ss_control S"
  consider "closed_flag ?c" | "\<not> closed_flag ?c" "256 \<le> active_handlers ?c"
    | "\<not> closed_flag ?c" "active_handlers ?c < 256" by fastforce
  then show ?thesis
    by cases (simp_all add: dispatch_request_def admit_handler_def new_permits_def spawn_control_def
        observe_request_def MAX_ACTIVE_HANDLERS_def is_ok_def Let_def)
qed

lemma accepted_permits:
  "new_permits S (on_transport_event P N now rnd uuid ev S) = length (accepted_request P S ev)"
proof (cases ev)
  case (Negotiation n)
  then show ?thesis by (simp add: on_transport_event_def accepted_request_def)
next
  case (Message raw)
  show ?thesis
  proof (cases "peer_decrypt P (ss_decryption_key S) raw (relying_key (ss_signaling S))")
    case (Inl e)
    with Message show ?thesis
      by (simp add: on_transport_event_def accepted_request_def handle_transport_payload_def)
  next
    case (Inr plain)
    with Message show ?thesis
      by (cases "session_message_from_str P plain"; cases "projr (session_message_from_str P plain)")
         (simp_all add: on_transport_event_def accepted_request_def handle_transport_payload_def
            handle_session_frame_def dispatch_permits Let_def)
  qed
qed

lemma party_session_step:
  assumes "party_step P ev p p'"
  shows "session_step P (pt_session p, length (pt_jobs p)) (pt_session p', length (pt_jobs p'))"
  using assms
proof cases
  case (party_event ev' N now rnd uuid)
  then show ?thesis
    using sess_transport_event [OF party_event(3) refl, where P = P and N = N and now = now and rnd = rnd
        and uuid = uuid and n = "length (pt_jobs p)"]
    by (simp add: accepted_permits)
next
  case (party_ack mid v W rnd)
  then obtain n where "length (pt_jobs p) = Suc n" by (cases "pt_jobs p") auto
  with party_ack show ?thesis by (simp add: sess_ack)
next
  case (party_answer as mid v bs outcome W rnd)
  then show ?thesis
    using sess_reply [of P "pt_session p" "length (as @ bs)" W rnd mid outcome] by simp
qed (simp_all add: sess_own sess_frame sess_message sess_send sess_cancelled)

section \<open>What the signaling layer says\<close>

text \<open>
  A layer says the messages in \<open>M\<close>: each of its frames under peer encryption was made by its
  own \<open>encrypt\<close> from one of them, for the peer it has recorded, and so were the messages its
  tasks send again.
\<close>

definition own_signals :: "signaling_properties \<Rightarrow> signaling_message set" where
  "own_signals p = range (Pubkey \<lparr>public_key_text = ek_serialized (sp_encryption_key p)\<rparr>) \<union>
     range (Capabilities (sp_capabilities p))"

definition frame_said :: "platform \<Rightarrow> signaling_message set \<Rightarrow> layer \<Rightarrow> string \<Rightarrow> bool" where
  "frame_said P M L c \<longleftrightarrow>
     (\<exists>k n m. relying_key L = Some k \<and> m \<in> M \<and>
        peer_encrypt P n (sp_decryption_key (props L)) (json_print P (signaling_message_to_value m)) k = Ok c)"

definition resends :: "layer \<Rightarrow> signaling_message set" where
  "resends L = {m. \<exists>i r. live_tasks L i = Some (Resend Encrypted r m)}"

definition layer_says :: "platform \<Rightarrow> signaling_message set \<Rightarrow> layer \<Rightarrow> bool" where
  "layer_says P M L \<longleftrightarrow>
     (\<forall>r c. compose_frame Encrypted r c \<in> set (outbox L) \<longrightarrow> frame_said P M L c) \<and> resends L \<subseteq> M"

lemma layer_says_mono: "layer_says P M L \<Longrightarrow> M \<subseteq> M' \<Longrightarrow> layer_says P M' L"
  unfolding layer_says_def frame_said_def by blast

lemma layer_says_new: "layer_says P M (new_layer ct p)"
  by (simp add: layer_says_def new_layer_def resends_def)

text \<open>Only frames, tasks and the recorded key matter, and a recorded key stays.\<close>

lemma layer_says_cong:
  assumes "layer_says P M L" "props L' = props L" "outbox L' = outbox L" "resends L' \<subseteq> resends L"
    "relying_key L = None \<or> relying_key L' = relying_key L"
  shows "layer_says P M L'"
  using assms unfolding layer_says_def frame_said_def by (metis option.distinct(1) order_trans)

lemma resends_stop [simp]:
  "resends (stop_repeating L) \<subseteq> resends L" "resends (stop_handshake_tasks L) \<subseteq> resends L"
proof -
  show rep: "resends (stop_repeating L) \<subseteq> resends L" for L
    by (auto simp: resends_def stop_repeating_def abort_task_def split: option.splits if_splits)
  have "resends (stop_handshake_tasks L) \<subseteq> resends (stop_repeating L)"
    by (auto simp: resends_def stop_handshake_tasks_def abort_task_def Let_def split: option.splits if_splits)
  with rep show "resends (stop_handshake_tasks L) \<subseteq> resends L" by blast
qed

lemma resends_abort [simp]: "resends (abort_task i L) \<subseteq> resends L"
  by (auto simp: resends_def abort_task_def split: if_splits)

lemma resends_set_state [simp]: "resends (set_state s L) \<subseteq> resends L"
  using resends_stop(2) [of "L\<lparr>sl_state := s\<rparr>"] by (auto simp: set_state_def Let_def resends_def)

lemma resends_deadline [simp]: "resends (start_handshake_deadline L) \<subseteq> resends L"
  by (auto simp: resends_def start_handshake_deadline_def spawn_task_def split: if_splits)

lemma resends_fields [simp]:
  "resends (store_peer_capabilities c L) = resends L" "resends (L\<lparr>relying_key := rk\<rparr>) = resends L"
  "resends (L\<lparr>message_tx := vs\<rparr>) = resends L" "resends (L\<lparr>outbox := fs\<rparr>) = resends L"
  by (simp_all add: resends_def store_peer_capabilities_def)

lemma abort_task_frame [simp]:
  "props (abort_task i L) = props L" "outbox (abort_task i L) = outbox L"
  "relying_key (abort_task i L) = relying_key L"
  by (simp_all add: abort_task_def)

lemma says_quiet [simp]:
  assumes "layer_says P M L"
  shows "layer_says P M (stop_repeating L)" "layer_says P M (stop_handshake_tasks L)"
    "layer_says P M (set_state s L)" "layer_says P M (start_handshake_deadline L)"
    "layer_says P M (store_peer_capabilities c L)" "layer_says P M (abort_task i L)"
    "relying_key L = None \<Longrightarrow> layer_says P M (L\<lparr>relying_key := Some k\<rparr>)"
    "layer_says P M (L\<lparr>message_tx := vs\<rparr>)"
  by (rule layer_says_cong [OF assms]; simp)+

text \<open>Sending a message of \<open>M\<close>, once or again and again.\<close>

lemma compose_frame_inject [simp]:
  "compose_frame p r c = compose_frame p' r' c' \<longleftrightarrow> p = p' \<and> r = r' \<and> c = c'"
  by (cases p; cases p'; cases r; cases r')
     (simp_all add: compose_frame_def HANDSHAKE_PREFIX_def ENCRYPTED_PREFIX_def)

lemma message_frame_said:
  assumes "message_frame P rnd L p r m = Ok (compose_frame Encrypted r' c)" "p = Encrypted \<Longrightarrow> m \<in> M"
  shows "frame_said P M L c"
  using assms by (cases p) (auto simp: message_frame_def frame_said_def Let_def, blast)

lemma says_send_message:
  assumes "layer_says P M L" "p = Encrypted \<Longrightarrow> m \<in> M"
  shows "layer_says P M (snd (send_message P rnd pub L p r m))"
proof (cases "message_frame P rnd L p r m")
  case (Inr f)
  have "frame_said P M (L\<lparr>outbox := outbox L @ [f]\<rparr>) c = frame_said P M L c" for c
    by (simp add: frame_said_def)
  with Inr assms message_frame_said [of P rnd L p r m] show ?thesis
    by (auto simp: send_message_def layer_says_def)
qed (use assms(1) in \<open>simp add: send_message_def\<close>)

lemma says_start_repeating:
  assumes "layer_says P M L" "p = Encrypted \<Longrightarrow> m \<in> M"
  shows "layer_says P M (start_repeating p r m L)"
proof -
  have "resends (start_repeating p r m L) \<subseteq> resends L \<union> {m'. p = Encrypted \<and> m' = m}"
    by (auto simp: resends_def start_repeating_def spawn_task_def split: if_splits)
  with assms show ?thesis by (auto simp: layer_says_def frame_said_def)
qed

lemma says_send_repeating:
  assumes "layer_says P M L" "p = Encrypted \<Longrightarrow> m \<in> M"
  shows "layer_says P M (snd (send_repeating P rnd pub L p r m))"
proof -
  obtain r' L' where sent: "send_message P rnd pub (stop_repeating L) p r m = (r', L')"
    by (cases "send_message P rnd pub (stop_repeating L) p r m")
  have "layer_says P M (snd (send_message P rnd pub (stop_repeating L) p r m))"
    using assms by (intro says_send_message) simp_all
  with assms(2) show ?thesis by (cases r') (simp_all add: send_repeating_def sent says_start_repeating)
qed

definition action_says :: "signaling_message set \<Rightarrow> action \<Rightarrow> bool" where
  "action_says M a \<longleftrightarrow>
     (case a of
        Return _ \<Rightarrow> True
      | Send_repeating p _ m \<Rightarrow> p = Encrypted \<longrightarrow> m \<in> M
      | Send_message p _ m \<Rightarrow> p = Encrypted \<longrightarrow> m \<in> M)"

lemma says_run_action:
  "layer_says P M (fst La) \<Longrightarrow> action_says M (snd La) \<Longrightarrow> layer_says P M (snd (run_action P rnd pub La))"
  by (auto simp: run_action_def action_says_def split: action.splits intro: says_send_message says_send_repeating)

lemma says_dispatch:
  assumes "layer_says P M L" "own_signals (props L) \<subseteq> M"
  shows "layer_says P M (fst (dispatch P now L frame message)) \<and> action_says M (snd (dispatch P now L frame message))"
proof -
  have M: "Pubkey \<lparr>public_key_text = ek_serialized (sp_encryption_key (props L))\<rparr> t \<in> M"
    "Capabilities (sp_capabilities (props L)) t \<in> M" for t
    using assms(2) by (auto simp: own_signals_def)
  note defs = action_says_def pubkey_message_def capabilities_message_def store_relying_key_def Let_def
  show ?thesis
  proof (cases rule: dispatch_cases [of frame L P now message])
    case (host_pubkey payload t)
    then show ?thesis using assms(1) M by (simp add: on_host_pubkey_def defs split: sum.splits bool.splits)
  next
    case (client_pubkey payload t)
    then show ?thesis using assms(1) M by (simp add: on_client_pubkey_def defs split: sum.splits)
  qed (use assms(1) M in \<open>simp_all add: on_flash_def on_capabilities_def defs\<close>)
qed

lemma says_setup:
  assumes "layer_says P M L"
  shows "layer_says P M (snd (layer_setup P now rnd pub r1 r2 L))"
proof -
  have "layer_says P M (fst (setup_tail now (set_state S_Connecting L))) \<and> action_says M (snd (setup_tail now (set_state S_Connecting L)))"
    using assms by (simp add: setup_tail_def action_says_def Let_def)
  with assms show ?thesis by (simp add: layer_setup_def says_run_action Let_def split: sum.splits)
qed

lemma says_receive:
  assumes "layer_says P M L" "own_signals (props L) \<subseteq> M"
  shows "layer_says P M (snd (handle_receive P now rnd pub L payload))"
proof (cases rule: handle_receive_sync_cases [of P now L payload])
  case (dropped r)
  with assms show ?thesis by (simp add: handle_receive_def run_action_def)
next
  case (accepted frame plain message)
  with says_dispatch [OF assms] show ?thesis by (simp add: handle_receive_def says_run_action)
qed

lemma says_resend:
  assumes "layer_says P M L"
  shows "layer_says P M (resend P rnd pub i L)"
proof (cases "live_tasks L i")
  case (Some t)
  show ?thesis
  proof (cases t)
    case (Resend p r m)
    with Some have "p = Encrypted \<Longrightarrow> m \<in> resends L" by (auto simp: resends_def)
    with assms have "p = Encrypted \<Longrightarrow> m \<in> M" by (auto simp: layer_says_def)
    with Some Resend assms show ?thesis by (simp add: resend_def says_send_message)
  qed (use Some assms in \<open>simp add: resend_def\<close>)
qed (use assms in \<open>simp add: resend_def\<close>)

lemma says_send:
  "layer_says P M L \<Longrightarrow> Data v now \<in> M \<Longrightarrow> layer_says P M (snd (layer_send P now rnd pub L v))"
  by (simp add: layer_send_def says_send_message)

lemma says_deadline: "layer_says P M L \<Longrightarrow> layer_says P M (deadline_expired i L)"
  by (simp add: deadline_expired_def)

section \<open>What a session says\<close>

subsection \<open>Its transport\<close>

text \<open>
  Apart from sending, the transport neither puts anything on the data channel nor takes an
  event back, and it announces only negotiation messages of its own.
\<close>

definition emits :: "transport \<Rightarrow> transport \<Rightarrow> bool" where
  "emits T T' \<longleftrightarrow> dc_sent T' = dc_sent T \<and> (\<exists>ns. tp_events T' = tp_events T @ map Negotiation ns)"

lemma emits_refl [simp]: "emits T T"
  by (simp add: emits_def exI [of _ "[]"])

lemma emits_trans: "emits T U \<Longrightarrow> emits U V \<Longrightarrow> emits T V"
  by (fastforce simp: emits_def simp flip: map_append)

lemma emits_same: "dc_sent T' = dc_sent T \<Longrightarrow> tp_events T' = tp_events T \<Longrightarrow> emits T T'"
  by (simp add: emits_def exI [of _ "[]"])

lemma emits_emit: "emits T U \<Longrightarrow> emits T (emit ty x U)"
  by (fastforce simp: emits_def emit_def intro: exI [of _ "ns @ [\<lparr>message_type = ty, negotiation_payload = x\<rparr>]" for ns])

lemma emits_update:
  "emits T U \<Longrightarrow> emits T (t_set_state st U)" "emits T U \<Longrightarrow> emits T (store_and_poll_dc U)"
  "emits T U \<Longrightarrow> emits T (U\<lparr>peer_connection := pc\<rparr>)" "emits T U \<Longrightarrow> emits T (U\<lparr>data_channel := dc\<rparr>)"
  "emits T U \<Longrightarrow> emits T (U\<lparr>pending_candidates := cs\<rparr>)" "emits T U \<Longrightarrow> emits T (U\<lparr>unflushed := b\<rparr>)"
  by (simp_all add: emits_def t_set_state_def store_and_poll_dc_def)

lemmas emits_intros = emits_refl emits_emit emits_update

lemma emits_t_setup: "emits T (snd (t_setup W T))"
  by (auto simp: t_setup_def host_offer_def Let_def split: sum.splits prod.splits if_splits intro!: emits_intros)

lemma emits_setup_stages:
  "emits T (snd (setup_build W T))" "emits T (snd (setup_next W T))" "emits T (T\<lparr>tp_setup := None\<rparr>)"
proof -
  show "emits T (snd (setup_build W T))"
    by (auto simp: setup_build_def t_set_state_def emits_def Let_def split: sum.splits)
  show "emits T (snd (setup_next W T))"
    by (auto simp: setup_next_def setup_open_def setup_describe_def setup_store_def store_and_poll_dc_def t_set_state_def
        emits_def emit_def Let_def split: option.splits setup_point.splits sum.splits intro: exI [of _ "[]"] exI [of _ "[_]"])
qed (simp add: emits_def exI [of _ "[]"])

lemma emits_t_teardown: "emits T (snd (t_teardown W T))"
  by (auto simp: t_teardown_def Let_def split: sum.splits option.splits intro!: emits_intros)

lemma emits_apply_remote: "emits T (snd (snd (apply_remote W calls x T)))"
  by (auto simp: apply_remote_def flush_pending_candidates_def split: sum.splits prod.splits intro!: emits_intros)

lemma emits_on_offer: "emits T (snd (snd (on_offer W calls x T)))"
proof (cases "apply_remote W calls x T")
  case (fields r calls' T')
  then have "emits T T'" using emits_apply_remote [of T W calls x] by simp
  with fields show ?thesis by (auto simp: on_offer_def split: sum.splits intro!: emits_intros)
qed

lemma emits_on_candidate: "emits T (snd (snd (on_candidate W calls x T)))"
  by (auto simp: on_candidate_def split: sum.splits intro!: emits_intros)

lemma emits_t_handle: "emits T (snd (t_handle W T m))"
  using emits_on_offer [of T W] emits_apply_remote [of T W] emits_on_candidate [of T W]
  by (auto simp: t_handle_def split_beta split: option.splits intro!: emits_intros)

lemma emits_callback: "callback W T T' \<Longrightarrow> emits T T'"
  by (erule callback.cases)
     (auto simp: on_ice_candidate_def on_connection_state_change_def on_data_channel_def dc_turn_def
        split: option.splits dc_event.splits intro!: emits_intros)

subsection \<open>Its data channel\<close>

definition channel_says :: "platform \<Rightarrow> session_message set \<Rightarrow> session \<Rightarrow> bool" where
  "channel_says P Q S \<longleftrightarrow>
     (\<forall>c \<in> set (dc_sent (ss_transport S)). \<exists>k n m. relying_key (ss_signaling S) = Some k \<and> m \<in> Q \<and>
        peer_encrypt P n (ss_decryption_key S) (json_print P (session_message_to_value m)) k = Ok c)"

lemma channel_says_mono: "channel_says P Q S \<Longrightarrow> Q \<subseteq> Q' \<Longrightarrow> channel_says P Q' S"
  unfolding channel_says_def by blast

lemma channel_says_cong:
  assumes "channel_says P Q S" "dc_sent (ss_transport S') = dc_sent (ss_transport S)"
    "ss_decryption_key S' = ss_decryption_key S"
    "relying_key (ss_signaling S) = None \<or> relying_key (ss_signaling S') = relying_key (ss_signaling S)"
  shows "channel_says P Q S'"
  using assms unfolding channel_says_def by fastforce

lemma send_session_message_cases:
  obtains (unsent) "ss_transport (snd (send_session_message P W rnd S m)) = ss_transport S"
  | (sent) k c where "relying_key (ss_signaling S) = Some k"
      "peer_encrypt P rnd (ss_decryption_key S) (json_print P (session_message_to_value m)) k = Ok c"
      "ss_transport (snd (send_session_message P W rnd S m)) =
         (ss_transport S)\<lparr>dc_sent := dc_sent (ss_transport S) @ [c], unflushed := True\<rparr>"
proof -
  let ?e = "rbind (ok_or (Err (Session ''relying party public key not found'')) (relying_key (ss_signaling S)))
      (\<lambda>k. peer_encrypt P rnd (ss_decryption_key S) (json_print P (session_message_to_value m)) k)"
  show ?thesis
  proof (cases ?e)
    case (Inl e)
    then show ?thesis by (intro unsent) (simp add: send_session_message_def Let_def)
  next
    case (Inr c)
    then have T: "ss_transport (snd (send_session_message P W rnd S m)) = snd (t_send W (ss_transport S) c)"
      by (simp add: send_session_message_def Let_def split_beta)
    from Inr obtain k where "relying_key (ss_signaling S) = Some k"
        "peer_encrypt P rnd (ss_decryption_key S) (json_print P (session_message_to_value m)) k = Ok c"
      by auto
    with T show ?thesis
      using unsent sent by (auto simp: t_send_def split: sum.splits if_splits)
  qed
qed

lemma send_session_message_events [simp]:
  "tp_events (ss_transport (snd (send_session_message P W rnd S m))) = tp_events (ss_transport S)"
  by (cases rule: send_session_message_cases [of P W rnd S m]) simp_all

lemma says_session_message:
  assumes "channel_says P Q S" "m \<in> Q"
  shows "channel_says P Q (snd (send_session_message P W rnd S m))"
  by (cases rule: send_session_message_cases [of P W rnd S m])
     (use assms in \<open>force simp: channel_says_def\<close>)+

subsection \<open>Its own steps\<close>

lemma own_emits:
  assumes "own_step P S S'"
  obtains (quiet) "emits (ss_transport S) (ss_transport S')"
  | (closing) N W rnd ends where "S' = snd (session_close P N W rnd ends S)"
  using assms
proof cases
  case (own_connect N now rnd)
  then show ?thesis by (cases rule: session_connect_cases [of P N now rnd S]) (use quiet in auto)
next
  case (own_signal_state st W)
  then show ?thesis
    using quiet on_signal_state_transport(1) [of W st S] emits_t_setup [of "ss_transport S" W] by auto
next
  case (own_signal_message v W)
  then show ?thesis
    using quiet on_signal_message_transport [of W v S] emits_t_handle [of "ss_transport S" W] by auto
qed (use quiet closing emits_callback emits_setup_stages in \<open>auto simp: session_drop_def\<close>)

lemma close_transport:
  fixes S :: session
  defines "S0 \<equiv> on_control close_control S"
  shows "tp_events (ss_transport (snd (session_close P N W rnd ends S))) = tp_events (ss_transport S)"
    "dc_sent (ss_transport (snd (session_close P N W rnd ends S))) \<in>
       {dc_sent (ss_transport S), dc_sent (ss_transport (snd (send_session_message P W rnd S0 Close)))}"
proof -
  have "dc_sent (snd (t_teardown W T)) = dc_sent T" "tp_events (snd (t_teardown W T)) = tp_events T" for T
    by (auto simp: t_teardown_def t_set_state_def Let_def split: option.splits sum.splits)
  then show "tp_events (ss_transport (snd (session_close P N W rnd ends S))) = tp_events (ss_transport S)"
    "dc_sent (ss_transport (snd (session_close P N W rnd ends S))) \<in>
       {dc_sent (ss_transport S), dc_sent (ss_transport (snd (send_session_message P W rnd S0 Close)))}"
    by (cases rule: session_close_shape_cases [of P N W rnd ends S]; simp add: S0_def)+
qed

lemma own_events:
  assumes "own_step P S S'"
  shows "\<exists>ns. tp_events (ss_transport S') = tp_events (ss_transport S) @ map Negotiation ns"
  using assms
proof (cases rule: own_emits)
  case (closing N W rnd ends)
  then show ?thesis using close_transport(1) [of P N W rnd ends S] by (intro exI [of _ "[]"]) simp
qed (simp add: emits_def)

text \<open>A key that is recorded stays, whatever a session does.\<close>

lemma session_grows:
  assumes "session_inv P (S, n)" "session_step P (S, n) (S', n')"
  shows "grows (ss_signaling S) (ss_signaling S')"
proof -
  have inv: "\<not> ss_events_taken S \<Longrightarrow> fresh_layer (ss_signaling S)" "layer_inv P (ss_signaling S)"
    using assms(1) by (simp_all add: session_inv_def Let_def)
  from session_layer_step [OF assms(2) inv(1)] show ?thesis using grows_step [OF inv(2)] by auto
qed

lemma session_key_stays:
  assumes "session_inv P (S, n)" "session_step P (S, n) (S', n')"
  shows "relying_key (ss_signaling S) = None \<or> relying_key (ss_signaling S') = relying_key (ss_signaling S)"
  using session_grows [OF assms] by (auto simp: grows_def)

lemma own_channel_says:
  assumes "own_step P S S'" "session_inv P (S, n)" "channel_says P Q S" "Close \<in> Q"
  shows "channel_says P Q S'"
proof -
  note key = session_key_stays [OF assms(2) sess_own [OF assms(1)]]
  note dk = own_step_decryption_key [OF assms(1)]
  show ?thesis
    using assms(1)
  proof (cases rule: own_emits)
    case quiet
    then show ?thesis using dk key by (intro channel_says_cong [OF assms(3)]) (simp_all add: emits_def)
  next
    case (closing N W rnd ends)
    let ?S1 = "snd (send_session_message P W rnd (on_control close_control S) Close)"
    have "channel_says P Q (on_control close_control S)" by (rule channel_says_cong [OF assms(3)]) simp_all
    then have sent: "channel_says P Q ?S1" using assms(4) by (rule says_session_message)
    from closing close_transport(2) [of P N W rnd ends S]
    have "dc_sent (ss_transport S') \<in> {dc_sent (ss_transport S), dc_sent (ss_transport ?S1)}" by simp
    then show ?thesis
    proof
      assume "dc_sent (ss_transport S') = dc_sent (ss_transport S)"
      then show ?thesis using dk key by (rule channel_says_cong [OF assms(3)])
    next
      assume "dc_sent (ss_transport S') \<in> {dc_sent (ss_transport ?S1)}"
      then show ?thesis using dk key by (intro channel_says_cong [OF sent]) simp_all
    qed
  qed
qed

lemma own_layer_says:
  assumes "own_step P S S'" "layer_says P M (ss_signaling S)"
  shows "layer_says P M (ss_signaling S')"
  using assms(1)
proof cases
  case (own_connect N now rnd)
  show ?thesis
  proof (cases rule: session_connect_cases [of P N now rnd S])
    case (refused i)
    with own_connect assms(2) show ?thesis by auto
  next
    case (started i S1)
    with own_connect assms(2) signaling_setup_frame(5) [of P N now rnd "looping (admitted S)"] show ?thesis
      by (auto simp: says_setup)
  qed
next
  case (own_close N W rnd ends)
  then show ?thesis using assms(2) session_close_frame(3) [of P N W rnd ends S] by auto
qed (use assms(2) in \<open>simp_all add: says_resend says_deadline session_drop_def\<close>)

section \<open>What a party says\<close>

abbreviation party_layer :: "party \<Rightarrow> layer" where
  "party_layer p \<equiv> ss_signaling (pt_session p)"

abbreviation party_events :: "party \<Rightarrow> transport_event list" where
  "party_events p \<equiv> tp_events (ss_transport (pt_session p))"

abbreviation relayed_value :: "string \<Rightarrow> negotiation \<Rightarrow> json" where
  "relayed_value uuid x \<equiv> session_message_to_value (Request uuid (negotiation_to_value x))"

definition session_said :: "party \<Rightarrow> session_message set" where
  "session_said p = (\<lambda>(mid, v). Request mid v) ` set (pt_asked p) \<union> range Ack \<union>
     (\<lambda>(mid, v, outcome). reply mid outcome) ` set (pt_answered p) \<union> {Close}"

definition signaling_said :: "party \<Rightarrow> signaling_message set" where
  "signaling_said p = own_signals (props (party_layer p)) \<union>
     {Data (relayed_value uuid x) now | uuid x now. Negotiation x \<in> set (party_events p)}"

definition party_inv :: "platform \<Rightarrow> party \<Rightarrow> bool" where
  "party_inv P p \<longleftrightarrow> session_inv P (pt_session p, length (pt_jobs p)) \<and>
     layer_says P (signaling_said p) (party_layer p) \<and> channel_says P (session_said p) (pt_session p)"

text \<open>Events come from the transport itself, or are what the channel has brought.\<close>

lemma on_transport_event_transport [simp]:
  "ss_transport (on_transport_event P N now rnd uuid ev S) = ss_transport S"
  by (cases ev) (simp_all add: on_transport_event_def)

lemma send_with_timeouts_events [simp]:
  "tp_events (ss_transport (snd (send_with_timeouts P W rnd uuid mx start turns S v a b))) = tp_events (ss_transport S)"
  using send_with_timeouts_shape [of S P W rnd uuid v mx start turns a b] by auto

lemma party_events_step:
  assumes "party_step P ev p p'"
  shows "\<exists>es. party_events p' = party_events p @ es \<and> (\<forall>raw. Message raw \<in> set es \<longrightarrow> ev = Channel raw)"
  using assms
proof cases
  case (party_own S')
  from own_events [OF party_own(3)] obtain ns where "tp_events (ss_transport S') = party_events p @ map Negotiation ns"
    by blast
  with party_own show ?thesis by auto
qed (simp_all add: dc_turn_def)

lemma party_said_step:
  assumes "party_inv P p" "party_step P ev p p'"
  shows "session_said p \<subseteq> session_said p'" "signaling_said p \<subseteq> signaling_said p'"
    "props (party_layer p') = props (party_layer p)"
proof -
  show props: "props (party_layer p') = props (party_layer p)"
    using session_grows [OF _ party_session_step [OF assms(2)]] assms(1) by (simp add: party_inv_def grows_def)
  show "session_said p \<subseteq> session_said p'"
    using assms(2) by cases (simp_all add: session_said_def, blast+)
  show "signaling_said p \<subseteq> signaling_said p'"
    using party_events_step [OF assms(2)] props by (fastforce simp: signaling_said_def)
qed

lemma send_with_timeouts_says:
  assumes "channel_says P Q S" "Request uuid v \<in> Q"
  shows "channel_says P Q (snd (send_with_timeouts P W rnd uuid mx start turns S v a b))"
proof -
  have adm: "channel_says P Q (admitted S)" by (rule channel_says_cong [OF assms(1)]) simp_all
  note sent = says_session_message [OF this assms(2), where W = W and rnd = rnd]
  from send_with_timeouts_shape [of S P W rnd uuid v mx start turns a b] show ?thesis
    by (auto intro: channel_says_cong [OF adm] channel_says_cong [OF sent])
qed

lemma transport_event_says:
  assumes "layer_says P M (ss_signaling S)" "\<And>x t. ev = Negotiation x \<Longrightarrow> Data (relayed_value uuid x) now \<in> M"
  shows "layer_says P M (ss_signaling (on_transport_event P N now rnd uuid ev S))"
  using assms by (cases ev) (simp_all add: on_transport_event_def says_send)

lemma layer_says_step:
  assumes "party_inv P p" "party_step P ev p p'"
  shows "layer_says P (signaling_said p') (party_layer p')"
proof -
  have says: "layer_says P (signaling_said p') (party_layer p)"
    using assms(1) layer_says_mono party_said_step(2) [OF assms] unfolding party_inv_def by blast
  have own: "own_signals (props (party_layer p)) \<subseteq> signaling_said p'"
    using party_said_step(3) [OF assms] by (simp add: signaling_said_def)
  show ?thesis
    using assms(2)
  proof cases
    case (party_own S')
    with own_layer_says [OF party_own(3) says] show ?thesis by simp
  next
    case (party_frame payload N now rnd)
    with says_receive [OF says own] show ?thesis by simp
  next
    case (party_event ev' N now rnd uuid)
    have "Data (relayed_value uuid x) now \<in> signaling_said p'" if "ev' = Negotiation x" for x
      using party_event that by (auto simp: signaling_said_def)
    from transport_event_says [OF says this] party_event show ?thesis by simp
  qed (use says in simp_all)
qed

lemma channel_says_step:
  assumes "party_inv P p" "party_step P ev p p'"
  shows "channel_says P (session_said p') (pt_session p')"
proof -
  have says: "channel_says P (session_said p') (pt_session p)"
    using assms(1) channel_says_mono party_said_step(1) [OF assms] unfolding party_inv_def by blast
  have inv: "session_inv P (pt_session p, length (pt_jobs p))" using assms(1) by (simp add: party_inv_def)
  note step = party_session_step [OF assms(2)]
  note same = channel_says_cong [OF says _ session_step_decryption_key [OF step] session_key_stays [OF inv step]]
  show ?thesis
    using assms(2)
  proof cases
    case (party_own S')
    with own_channel_says [OF party_own(3) inv says] show ?thesis by (simp add: session_said_def)
  next
    case (party_ask W rnd uuid mx start turns message ack_ms resp_ms)
    with send_with_timeouts_says [OF says] show ?thesis by (simp add: session_said_def)
  next
    case (party_ack mid v W rnd)
    with says_session_message [OF says] show ?thesis by (simp add: session_said_def)
  next
    case (party_answer as mid v bs outcome W rnd)
    then have "reply mid outcome \<in> session_said p'" by (simp add: session_said_def)
    note sent = says_session_message [OF says this, where W = W and rnd = rnd]
    have "channel_says P (session_said p') (on_control drop_permit (snd (send_session_message P W rnd (pt_session p) (reply mid outcome))))"
      by (rule channel_says_cong [OF sent]) simp_all
    with party_answer(2) show ?thesis by simp
  qed (rule same, simp add: dc_turn_def)+
qed

lemma party_inv_step:
  assumes "party_inv P p" "party_step P ev p p'"
  shows "party_inv P p'"
  using layer_says_step [OF assms] channel_says_step [OF assms] assms(1)
    session_inv_step [OF _ party_session_step [OF assms(2)]]
  by (simp add: party_inv_def)

end
