(* ===== verification/Adversary.thy ===== *)
theory Adversary
  imports Speaking
begin

text \<open>
  Two sessions and everybody else. Whoever runs the broker or sits on the data channel may
  drop, delay, repeat, redirect and invent what the two sessions receive. The only thing it
  cannot do is make a ciphertext: what decrypts under a key of the two parties is a
  ciphertext that one of them has sent under this key. Under this law a session whose
  recorded peer key is the key of the other side takes over only what the other side said.
\<close>

section \<open>The network\<close>

abbreviation public_of :: "party \<Rightarrow> bytes" where
  "public_of p \<equiv> own_public_key (ss_decryption_key (pt_session p))"

abbreviation secret_of :: "party \<Rightarrow> bytes" where
  "secret_of p \<equiv> secret_key (ss_decryption_key (pt_session p))"

text \<open>What has left a party under peer encryption, on the broker or on the data channel.\<close>

definition ciphertexts :: "party \<Rightarrow> string set" where
  "ciphertexts p = set (dc_sent (ss_transport (pt_session p))) \<union>
     {c. \<exists>r. compose_frame Encrypted r c \<in> set (outbox (party_layer p))}"

text \<open>A party has sent a nonce and ciphertext under the key derived from a secret and an info.\<close>

definition sealed :: "platform \<Rightarrow> party \<Rightarrow> bytes \<Rightarrow> bytes \<Rightarrow> bytes \<Rightarrow> bytes \<Rightarrow> bool" where
  "sealed P p secret key_info nonce ct \<longleftrightarrow>
     (\<exists>k. relying_key (party_layer p) = Some k \<and> secret = x25519 P (secret_of p) (public_key k) \<and>
        key_info = KEY_INFO @ public_of p @ public_key k \<and>
        to_base64 P (public_of p @ nonce @ ct) \<in> ciphertexts p)"

text \<open>
  The integrity of the encryption between two parties: a text that names \<open>A\<close> as its sender
  and that \<open>B\<close> can decrypt was sealed by one of them under the same secret and info.
\<close>

definition unforged :: "platform \<Rightarrow> party \<Rightarrow> party \<Rightarrow> string \<Rightarrow> bool" where
  "unforged P A B c \<longleftrightarrow>
     (\<forall>b t. from_base64 P c = Ok b \<longrightarrow> take PUBLIC_KEY_BYTES b = public_of A \<longrightarrow>
        (let nonce = take NONCE_BYTES (drop PUBLIC_KEY_BYTES b);
             ct = drop NONCE_BYTES (drop PUBLIC_KEY_BYTES b);
             secret = x25519 P (secret_of B) (public_of A);
             key_info = KEY_INFO @ public_of A @ public_of B in
         aes256_decrypt P (hkdf_expand P secret key_info) nonce ct = Inr t \<longrightarrow>
         sealed P A secret key_info nonce ct \<or> sealed P B secret key_info nonce ct))"

fun admissible :: "platform \<Rightarrow> party \<Rightarrow> party \<Rightarrow> input \<Rightarrow> bool" where
  "admissible P A B (Broker payload) =
     (\<forall>f. parse_frame payload = Ok f \<longrightarrow> prefix f = Encrypted \<longrightarrow> unforged P A B (ciphertext f))"
| "admissible P A B (Channel d) = unforged P A B d"
| "admissible P A B Inner = True"

inductive net_step :: "platform \<Rightarrow> party \<times> party \<Rightarrow> party \<times> party \<Rightarrow> bool" for P :: platform where
  net_first: "party_step P ev A A' \<Longrightarrow> admissible P B A ev \<Longrightarrow> net_step P (A, B) (A', B)"
| net_second: "party_step P ev B B' \<Longrightarrow> admissible P A B ev \<Longrightarrow> net_step P (A, B) (A, B')"

inductive_cases party_frameE: "party_step P (Broker payload) p p'"
inductive_cases party_messageE: "party_step P (Channel d) p p'"

definition fresh_party :: "key_pair \<Rightarrow> party \<Rightarrow> bool" where
  "fresh_party a p \<longleftrightarrow> fresh_session (pt_session p, 0) \<and> ss_decryption_key (pt_session p) = kp_decryption_key a \<and>
     pt_jobs p = [] \<and> pt_asked p = [] \<and> pt_answered p = []"

definition fresh_net :: "key_pair \<Rightarrow> key_pair \<Rightarrow> party \<times> party \<Rightarrow> bool" where
  "fresh_net a b N \<longleftrightarrow> fresh_party a (fst N) \<and> fresh_party b (snd N)"

section \<open>Only the peer can have said it\<close>

text \<open>Reading a text back gives the value it was written from, if it gives any.\<close>

definition json_sound :: "platform \<Rightarrow> bool" where
  "json_sound P \<longleftrightarrow> (\<forall>v w. json_parse P (json_print P v) = Inr w \<longrightarrow> w = v)"

definition trusts :: "party \<Rightarrow> party \<Rightarrow> bool" where
  "trusts A B \<longleftrightarrow> (\<exists>k. relying_key (party_layer A) = Some k \<and> public_key k = public_of B)"

definition text_said :: "platform \<Rightarrow> party \<Rightarrow> string \<Rightarrow> bool" where
  "text_said P p t \<longleftrightarrow> (\<exists>m \<in> session_said p. t = json_print P (session_message_to_value m)) \<or>
     (\<exists>m \<in> signaling_said p. t = json_print P (signaling_message_to_value m))"

lemma ciphertext_said:
  assumes "party_inv P p" "c \<in> ciphertexts p"
  obtains k n t where "relying_key (party_layer p) = Some k"
    "peer_encrypt P n (ss_decryption_key (pt_session p)) t k = Ok c" "text_said P p t"
proof -
  have dk: "ss_decryption_key (pt_session p) = sp_decryption_key (props (party_layer p))"
    using assms(1) by (simp add: party_inv_def session_inv_def Let_def)
  from assms show ?thesis
    unfolding ciphertexts_def party_inv_def layer_says_def channel_says_def frame_said_def text_said_def dk
    using that [unfolded dk text_said_def] by blast
qed

lemma peer_encrypt_Ok:
  assumes "peer_encrypt P rnd dk t k = Ok c"
  obtains nonce ct where "length nonce = NONCE_BYTES" "length (public_key k) = PUBLIC_KEY_BYTES"
    "contributory P (x25519 P (secret_key dk) (public_key k))"
    "aes256_encrypt P (hkdf_expand P (x25519 P (secret_key dk) (public_key k)) (KEY_INFO @ own_public_key dk @ public_key k))
       nonce t = Inr ct"
    "c = to_base64 P (own_public_key dk @ nonce @ ct)"
  using assms that [of "fill_bytes NONCE_BYTES rnd"]
  by (auto simp: peer_encrypt_def peer_cipher_def Let_def split: if_splits)

lemma peer_decrypt_Ok:
  assumes "peer_decrypt P dk c rk = Ok t"
  obtains b where "from_base64 P c = Ok b" "length b > PUBLIC_KEY_BYTES + NONCE_BYTES"
    "\<And>k. rk = Some k \<Longrightarrow> public_key k = take PUBLIC_KEY_BYTES b"
    "aes256_decrypt P (hkdf_expand P (x25519 P (secret_key dk) (take PUBLIC_KEY_BYTES b))
         (KEY_INFO @ take PUBLIC_KEY_BYTES b @ own_public_key dk))
       (take NONCE_BYTES (drop PUBLIC_KEY_BYTES b)) (drop NONCE_BYTES (drop PUBLIC_KEY_BYTES b)) = Inr t"
  using assms
  by (auto simp: peer_decrypt_def peer_cipher_def from_utf8_def Let_def split: if_splits option.splits)

text \<open>
  What \<open>B\<close> decrypts as coming from \<open>A\<close> was said by \<open>A\<close>, to \<open>B\<close>: the info of the key names both
  sides in the order of the direction, so that nothing \<open>B\<close> has sealed itself comes back.
\<close>

lemma decrypted_said:
  assumes "platform_ok P" "is_key_pair P a" "is_key_pair P b"
    and keys: "ss_decryption_key (pt_session A) = kp_decryption_key a"
      "ss_decryption_key (pt_session B) = kp_decryption_key b" "public_of A \<noteq> public_of B"
    and "party_inv P A" "unforged P A B c"
    and dec: "peer_decrypt P (ss_decryption_key (pt_session B)) c (Some k) = Ok t" "public_key k = public_of A"
  shows "text_said P A t \<and> trusts A B"
proof -
  have ok: "base64_ok P" "x25519_ok P" "aead_ok (aes256_encrypt P) (aes256_decrypt P)"
    using assms(1) by (simp_all add: platform_ok_def)
  have len: "length (public_of A) = PUBLIC_KEY_BYTES" "length (public_of B) = PUBLIC_KEY_BYTES"
    using key_pair_public_length [OF ok(2)] is_key_pairD(3) assms(2,3) keys by (simp_all add: PUBLIC_KEY_BYTES_def)
  have secret: "x25519 P (secret_of A) (public_of B) = x25519 P (secret_of B) (public_of A)"
    using is_key_pairD [OF assms(2)] is_key_pairD [OF assms(3)] keys ok(2) by (simp add: x25519_ok_def)
  obtain b where b: "from_base64 P c = Ok b" "length b > PUBLIC_KEY_BYTES + NONCE_BYTES"
      "public_key k = take PUBLIC_KEY_BYTES b"
      "aes256_decrypt P (hkdf_expand P (x25519 P (secret_of B) (take PUBLIC_KEY_BYTES b))
           (KEY_INFO @ take PUBLIC_KEY_BYTES b @ public_of B))
         (take NONCE_BYTES (drop PUBLIC_KEY_BYTES b)) (drop NONCE_BYTES (drop PUBLIC_KEY_BYTES b)) = Inr t"
    using dec(1) by (rule peer_decrypt_Ok) blast
  define n ct where "n = take NONCE_BYTES (drop PUBLIC_KEY_BYTES b)" and "ct = drop NONCE_BYTES (drop PUBLIC_KEY_BYTES b)"
  define s i where "s = x25519 P (secret_of B) (public_of A)" and "i = KEY_INFO @ public_of A @ public_of B"
  have sender: "take PUBLIC_KEY_BYTES b = public_of A" using b(3) dec(2) by simp
  then have open_ct: "aes256_decrypt P (hkdf_expand P s i) n ct = Inr t" using b(4) by (simp add: n_def ct_def s_def i_def)
  have "length n = NONCE_BYTES" using b(2) by (simp add: n_def)
  have "sealed P A s i n ct \<or> sealed P B s i n ct"
    using assms(8) b(1) sender open_ct unfolding unforged_def Let_def n_def ct_def s_def i_def by blast
  moreover have "\<not> sealed P B s i n ct"
    using len keys(3) by (auto simp: sealed_def i_def append_eq_append_conv)
  ultimately obtain k' where k': "relying_key (party_layer A) = Some k'" "public_key k' = public_of B"
      "to_base64 P (public_of A @ n @ ct) \<in> ciphertexts A"
    by (auto simp: sealed_def i_def)
  obtain r t' where t':
      "peer_encrypt P r (ss_decryption_key (pt_session A)) t' k' = Ok (to_base64 P (public_of A @ n @ ct))"
      "text_said P A t'"
    by (rule ciphertext_said [OF assms(7) k'(3)]) (use k'(1) in auto)
  from t'(1) obtain n' ct' where e: "length n' = NONCE_BYTES"
      "aes256_encrypt P (hkdf_expand P s i) n' t' = Inr ct'"
      "to_base64 P (public_of A @ n @ ct) = to_base64 P (public_of A @ n' @ ct')"
    by (rule peer_encrypt_Ok) (simp add: k'(2) secret s_def i_def)
  have "public_of A @ n @ ct = public_of A @ n' @ ct'"
    using from_base64_to_base64 [OF ok(1)] e(3) by (metis sum.inject(2))
  with e(1) \<open>length n = NONCE_BYTES\<close> have "n' = n" "ct' = ct" by simp_all
  with e(2) open_ct ok(3) have "t' = t" by (auto simp: aead_ok_def)
  with t'(2) k' show ?thesis by (auto simp: trusts_def)
qed

text \<open>The two kinds of messages under the same keys do not pass for each other.\<close>

lemma signal_not_session:
  "session_message_from_value (signaling_message_to_value m) = Some m' \<Longrightarrow> m' = Unknown"
  by (cases m) (auto simp: session_message_from_value_def split: if_splits)

lemma session_not_signal: "signaling_message_from_value (session_message_to_value m) = None"
  by (cases m) (simp_all add: signaling_message_from_value_def)

lemma session_text_said:
  assumes "json_sound P" "text_said P p t" "session_message_from_str P t = Ok m"
  shows "m \<in> session_said p \<or> m = Unknown"
proof -
  from assms(3) obtain v where v: "json_parse P t = Inr v" "session_message_from_value v = Some m"
    by (auto simp: session_message_from_str_def map_err_def ok_or_def split: sum.splits option.splits)
  from assms(2) show ?thesis
    unfolding text_said_def
  proof
    assume "\<exists>m \<in> session_said p. t = json_print P (session_message_to_value m)"
    then obtain m' where m': "m' \<in> session_said p" "t = json_print P (session_message_to_value m')" by blast
    with assms(1) v have "v = session_message_to_value m'" by (simp add: json_sound_def)
    with v(2) m'(1) show ?thesis by (simp del: session_message_to_value.simps)
  next
    assume "\<exists>m \<in> signaling_said p. t = json_print P (signaling_message_to_value m)"
    then obtain m' where "t = json_print P (signaling_message_to_value m')" by blast
    with assms(1) v have "v = signaling_message_to_value m'" by (simp add: json_sound_def)
    with v(2) signal_not_session show ?thesis by blast
  qed
qed

lemma signaling_text_said:
  assumes "json_sound P" "text_said P p t" "message_from_str P t = Ok m"
  shows "m \<in> signaling_said p"
proof -
  from assms(3) obtain v where v: "json_parse P t = Inr v" "signaling_message_from_value v = Some m"
    by (auto simp: message_from_str_def map_err_def ok_or_def split: sum.splits option.splits)
  from assms(2) show ?thesis
    unfolding text_said_def
  proof
    assume "\<exists>m \<in> session_said p. t = json_print P (session_message_to_value m)"
    then obtain m' where "t = json_print P (session_message_to_value m')" by blast
    with assms(1) v have "v = session_message_to_value m'" by (simp add: json_sound_def)
    with v(2) session_not_signal [of m'] show ?thesis by (simp del: session_message_to_value.simps)
  next
    assume "\<exists>m \<in> signaling_said p. t = json_print P (signaling_message_to_value m)"
    then obtain m' where m': "m' \<in> signaling_said p" "t = json_print P (signaling_message_to_value m')" by blast
    with assms(1) v have "v = signaling_message_to_value m'" by (simp add: json_sound_def)
    with v(2) m'(1) show ?thesis by simp
  qed
qed

section \<open>What a session takes over\<close>

definition taken_over :: "session \<Rightarrow> json list \<times> peer_capabilities option \<times> encryption_key option \<times> json list \<times> session_message list" where
  "taken_over S = (message_tx (ss_signaling S), peer_caps (ss_signaling S), relying_key (ss_signaling S),
     ss_request_tx S, ss_response_tx S)"

lemma taken_over_control [simp]: "taken_over (S\<lparr>ss_control := c\<rparr>) = taken_over S"
  by (simp add: taken_over_def)

lemma taken_over_status [simp]: "taken_over (set_status st S) = taken_over S"
  by (simp add: taken_over_def set_status_def Let_def)

lemma taken_over_send [simp]: "taken_over (snd (send_session_message P W rnd S m)) = taken_over S"
  by (simp add: taken_over_def send_session_message_def Let_def split: sum.splits prod.splits)

lemma taken_over_setup:
  "taken_over (snd (signaling_setup P N now rnd S)) = taken_over S"
proof -
  have "message_tx (snd (layer_setup P now rnd pub r1 r2 L)) = message_tx L"
    "peer_caps (snd (layer_setup P now rnd pub r1 r2 L)) = peer_caps L"
    "relying_key (snd (layer_setup P now rnd pub r1 r2 L)) = relying_key L" for pub r1 r2 L
    by (simp_all add: layer_setup_def setup_tail_def Let_def split: sum.splits)
  then show ?thesis
    by (simp add: taken_over_def signaling_setup_def split_beta)
qed

lemma taken_over_connect [simp]: "taken_over (snd (session_connect P N now rnd S)) = taken_over S"
proof (cases rule: session_connect_cases [of P N now rnd S])
  case (started i S1)
  have "taken_over (looping (admitted S)) = taken_over (S\<lparr>ss_events_taken := True\<rparr>)"
    by (simp add: taken_over_def set_status_def Let_def)
  with started taken_over_setup [of P N now rnd "looping (admitted S)"] show ?thesis
    by (auto simp: taken_over_def)
qed auto

lemma taken_over_close [simp]: "taken_over (snd (session_close P N W rnd ends S)) = taken_over S"
proof -
  have down: "taken_over (snd (signaling_teardown N S)) = taken_over S"
    "taken_over (S\<lparr>ss_transport := T\<rparr>) = taken_over S" "taken_over (S\<lparr>ss_close_result := r\<rparr>) = taken_over S" for S T r
    by (simp_all add: taken_over_def signaling_teardown_def layer_teardown_def split_beta)
  show ?thesis
    by (cases rule: session_close_shape_cases [of P N W rnd ends S]) (simp_all add: down)
qed

lemma taken_over_link_loop: "taken_over (snd (link_loop turns S)) = taken_over S"
proof (induction turns S rule: link_loop.induct)
  case (2 r now rest S)
  have "taken_over (set_transport_error S) = taken_over S"
    by (simp add: taken_over_def set_transport_error_def set_error_def)
  with 2 show ?case by (simp add: Let_def split: state_recv.splits transport_state.splits)
qed simp

lemma taken_over_wait [simp]: "taken_over (snd (session_wait_for_link turns S)) = taken_over S"
  using session_wait_for_link_shape [of S turns] taken_over_link_loop [of turns "admitted S"]
  by (auto simp: wait_for_link_def)

lemma taken_over_ask [simp]:
  "taken_over (snd (send_with_timeouts P W rnd uuid mx start turns S v a b)) = taken_over S"
  using send_with_timeouts_shape [of S P W rnd uuid v mx start turns a b] by auto

lemma taken_over_states [simp]:
  "taken_over (on_signal_state W st S) = taken_over S" "taken_over (snd (on_transport_state ts S)) = taken_over S"
proof -
  show "taken_over (on_signal_state W st S) = taken_over S"
    by (auto simp: on_signal_state_def taken_over_def set_error_def set_status_def Let_def
        split: signal_state.splits prod.splits sum.splits fault.splits)
  show "taken_over (snd (on_transport_state ts S)) = taken_over S"
    by (auto simp: on_transport_state_def taken_over_def set_transport_error_def set_error_def set_status_def Let_def
        split: transport_state.splits)
qed

lemma taken_over_setup_outcome [simp]: "taken_over (setup_outcome rT S) = taken_over S"
  by (simp add: taken_over_def setup_outcome_def set_error_def set_status_def Let_def split: prod.splits sum.splits fault.splits)

lemma own_takes_over:
  assumes "own_step P S S'"
  obtains (unchanged) "taken_over S' = taken_over S"
  | (routed) W v where "v \<in> set (message_tx (ss_signaling S))" "S' = on_signal_message W v S"
  using assms
proof cases
  case (own_resend rnd N i)
  show ?thesis
    by (rule unchanged) (simp add: own_resend taken_over_def resend_def split: option.splits task.splits)
next
  case (own_deadline i)
  show ?thesis
    by (rule unchanged) (simp add: own_deadline taken_over_def deadline_expired_def abort_task_def)
qed (use unchanged routed in \<open>simp_all add: session_drop_def, simp_all add: taken_over_def\<close>)

text \<open>From a frame a layer takes over a payload or capabilities, decrypted with the recorded key.\<close>

lemma receive_takes:
  fixes L :: layer and now :: u64 and rnd :: bytes and pub :: "string \<Rightarrow> unit res" and payload :: string
  assumes "key_inv P L"
  defines "L' \<equiv> snd (handle_receive P now rnd pub L payload)"
  obtains (unchanged) "message_tx L' = message_tx L" "peer_caps L' = peer_caps L"
  | (took) frame k plain m where "parse_frame payload = Ok frame" "prefix frame = Encrypted"
      "relying_key L = Some k" "peer_decrypt P (sp_decryption_key (props L)) (ciphertext frame) (Some k) = Ok plain"
      "message_from_str P plain = Ok m"
      "(\<exists>v t. m = Data v t \<and> message_tx L' = message_tx L @ [v] \<and> peer_caps L' = peer_caps L) \<or>
       (\<exists>c t. m = Capabilities c t \<and> message_tx L' = message_tx L \<and> peer_caps L' \<in> {peer_caps L, Some c})"
proof (cases rule: handle_receive_sync_cases [of P now L payload])
  case (dropped r)
  show ?thesis by (rule unchanged) (simp_all add: L'_def handle_receive_def run_action_def dropped)
next
  case (accepted frame plain m)
  have L': "message_tx L' = message_tx (fst (dispatch P now L frame m))" "peer_caps L' = peer_caps (fst (dispatch P now L frame m))"
    by (simp_all add: L'_def handle_receive_def accepted)
  show ?thesis
  proof (cases rule: dispatch_cases [of frame L P now m])
    case (capabilities c t)
    then obtain k where k: "relying_key L = Some k" using assms(1) by (auto simp: key_inv_def)
    have "message_tx (fst (on_capabilities now L c)) = message_tx L" "peer_caps (fst (on_capabilities now L c)) \<in> {peer_caps L, Some c}"
      by (simp_all add: on_capabilities_def Let_def)
    with capabilities accepted(3) L' k show ?thesis
      using took [OF accepted(1) capabilities(1) k _ accepted(4)] by (simp add: decrypt_frame_def)
  next
    case (data v t)
    then obtain k where k: "relying_key L = Some k" using assms(1) by (auto simp: key_inv_def)
    with data accepted(3) L' show ?thesis
      using took [OF accepted(1) data(1) k _ accepted(4)] by (simp add: decrypt_frame_def)
  next
    case (host_pubkey pk t)
    have "message_tx (fst (on_host_pubkey P now L pk)) = message_tx L" "peer_caps (fst (on_host_pubkey P now L pk)) = peer_caps L"
      by (auto simp: on_host_pubkey_def store_relying_key_def Let_def split: sum.splits bool.splits)
    with host_pubkey L' unchanged show ?thesis by simp
  next
    case (client_pubkey pk t)
    have "message_tx (fst (on_client_pubkey P now L frame pk)) = message_tx L"
      "peer_caps (fst (on_client_pubkey P now L frame pk)) = peer_caps L"
      by (auto simp: on_client_pubkey_def store_relying_key_def Let_def split: sum.splits)
    with client_pubkey L' unchanged show ?thesis by simp
  qed (use L' unchanged in \<open>simp_all add: on_flash_def Let_def\<close>)
qed

section \<open>Nothing is heard but what the peer said\<close>

definition decodes :: "platform \<Rightarrow> party \<Rightarrow> string \<Rightarrow> session_message \<Rightarrow> bool" where
  "decodes P A raw m \<longleftrightarrow>
     (\<exists>plain. peer_decrypt P (ss_decryption_key (pt_session A)) raw (relying_key (party_layer A)) = Ok plain \<and>
        session_message_from_str P plain = Ok m)"

definition hears_signals :: "party \<Rightarrow> party \<Rightarrow> bool" where
  "hears_signals A B \<longleftrightarrow>
     (\<forall>v \<in> set (message_tx (party_layer A)). \<exists>uuid x. v = relayed_value uuid x \<and> Negotiation x \<in> set (party_events B)) \<and>
     (\<forall>c. peer_caps (party_layer A) = Some c \<longrightarrow> c = sp_capabilities (props (party_layer B)) \<and> trusts B A)"

definition hears_texts :: "platform \<Rightarrow> party \<Rightarrow> party \<Rightarrow> bool" where
  "hears_texts P A B \<longleftrightarrow>
     (\<forall>raw m. Message raw \<in> set (party_events A) \<longrightarrow> decodes P A raw m \<longrightarrow>
        trusts B A \<and> (m \<in> session_said B \<or> m = Unknown))"

definition hears_messages :: "party \<Rightarrow> party \<Rightarrow> bool" where
  "hears_messages A B \<longleftrightarrow>
     (\<forall>m \<in> set (ss_response_tx (pt_session A)). trusts B A \<and> m \<in> session_said B) \<and>
     (\<forall>v \<in> set (ss_request_tx (pt_session A)). v \<in> snd ` set (pt_asked B)) \<and>
     set (pt_jobs A) \<subseteq> set (pt_asked B) \<and>
     (\<forall>(mid, v, outcome) \<in> set (pt_answered A). (mid, v) \<in> set (pt_asked B))"

definition heard :: "platform \<Rightarrow> party \<Rightarrow> party \<Rightarrow> bool" where
  "heard P A B \<longleftrightarrow> hears_signals A B \<and> hears_texts P A B \<and> hears_messages A B"

text \<open>While the other side moves on, what it has said stays said.\<close>

lemma party_key_stays:
  assumes "party_inv P p" "party_step P ev p p'"
  shows "relying_key (party_layer p) = None \<or> relying_key (party_layer p') = relying_key (party_layer p)"
    "ss_decryption_key (pt_session p') = ss_decryption_key (pt_session p)"
  using session_key_stays [OF _ party_session_step [OF assms(2)]] assms(1)
    session_step_decryption_key [OF party_session_step [OF assms(2)]] by (simp_all add: party_inv_def)

lemma asked_step: "party_step P ev p p' \<Longrightarrow> set (pt_asked p) \<subseteq> set (pt_asked p')"
  by (erule party_step.cases) auto

lemma heard_second:
  assumes "party_inv P B" "party_step P ev B B'" "heard P A B"
  shows "heard P A B'"
proof -
  have trusts: "trusts B A \<Longrightarrow> trusts B' A"
    using party_key_stays(1) [OF assms(1,2)] by (auto simp: trusts_def)
  have events: "set (party_events B) \<subseteq> set (party_events B')"
    using party_events_step [OF assms(2)] by auto
  note said = party_said_step [OF assms(1,2)] asked_step [OF assms(2)]
  have "hears_signals A B'"
    using assms(3) trusts events said(3) unfolding heard_def hears_signals_def by (metis subsetD)
  moreover have "hears_texts P A B'"
    using assms(3) trusts said(1) unfolding heard_def hears_texts_def by blast
  moreover have "hears_messages A B'"
    using assms(3) trusts said(1,4) unfolding heard_def hears_messages_def by fast
  ultimately show ?thesis by (simp add: heard_def)
qed

text \<open>A session that moves takes over nothing else.\<close>

definition keyed :: "platform \<Rightarrow> key_pair \<Rightarrow> party \<Rightarrow> bool" where
  "keyed P a p \<longleftrightarrow> is_key_pair P a \<and> ss_decryption_key (pt_session p) = kp_decryption_key a"

definition bound_to :: "party \<Rightarrow> party \<Rightarrow> bool" where
  "bound_to A B \<longleftrightarrow> (\<forall>k. relying_key (party_layer A) = Some k \<longrightarrow> public_key k = public_of B)"

definition peers :: "platform \<Rightarrow> key_pair \<Rightarrow> key_pair \<Rightarrow> party \<Rightarrow> party \<Rightarrow> bool" where
  "peers P a b A B \<longleftrightarrow> platform_ok P \<and> json_sound P \<and> keyed P a A \<and> keyed P b B \<and> public_of A \<noteq> public_of B \<and>
     party_inv P A \<and> party_inv P B"

lemma peers_said:
  assumes "peers P a b A B" "bound_to A B" "unforged P B A c" "relying_key (party_layer A) = Some k"
    "peer_decrypt P (ss_decryption_key (pt_session A)) c (Some k) = Ok t"
  shows "text_said P B t \<and> trusts B A"
proof -
  have "public_key k = public_of B" using assms(2,4) by (simp add: bound_to_def)
  with assms show ?thesis
    by (intro decrypted_said [of P b a B A c k t]) (auto simp: peers_def keyed_def)
qed

lemma other_steps_signals:
  assumes "party_step P ev p p'" "\<And>x. ev \<noteq> Broker x"
  shows "message_tx (party_layer p') = message_tx (party_layer p) \<and> peer_caps (party_layer p') = peer_caps (party_layer p)"
  using assms(1)
proof cases
  case (party_own S')
  from party_own(3) show ?thesis
  proof (cases rule: own_takes_over)
    case unchanged
    with party_own show ?thesis by (simp add: taken_over_def)
  qed (use party_own in simp)
next
  case (party_event ev' N now rnd uuid)
  then show ?thesis by (cases ev') (simp_all add: on_transport_event_def layer_send_def)
qed (use assms(2) in simp_all)

lemma signaling_saidD:
  "Data v t \<in> signaling_said p \<Longrightarrow> \<exists>uuid x. v = relayed_value uuid x \<and> Negotiation x \<in> set (party_events p)"
  "Capabilities c t \<in> signaling_said p \<Longrightarrow> c = sp_capabilities (props (party_layer p))"
  by (auto simp: signaling_said_def own_signals_def simp del: session_message_to_value.simps)

lemma signals_first:
  assumes "peers P a b A B" "bound_to A B" "party_step P ev A A'" "admissible P B A ev" "hears_signals A B"
  shows "hears_signals A' B"
proof -
  have inv: "party_inv P A" using assms(1) by (simp add: peers_def)
  have pub: "trusts B A' = trusts B A"
    using party_key_stays(2) [OF inv assms(3)] by (simp add: trusts_def)
  show ?thesis
  proof (cases "\<exists>x. ev = Broker x")
    case False
    with other_steps_signals [OF assms(3)] assms(5) pub show ?thesis by (simp add: hears_signals_def)
  next
    case True
    then obtain payload N now rnd where ev: "ev = Broker payload" "A' = A\<lparr>pt_session := receiving P N now rnd payload (pt_session A)\<rparr>"
      using assms(3) by (auto elim!: party_frameE)
    have key: "key_inv P (party_layer A)" and dk: "ss_decryption_key (pt_session A) = sp_decryption_key (props (party_layer A))"
      using inv by (simp_all add: party_inv_def session_inv_def layer_inv_def Let_def)
    let ?pub = "channel_publish P N (ss_channel (pt_session A))"
    show ?thesis
    proof (cases rule: receive_takes [OF key, of now rnd ?pub payload])
      case 1
      with ev assms(5) pub show ?thesis by (simp add: hears_signals_def)
    next
      case (2 frame k plain m)
      have "unforged P B A (ciphertext frame)" using assms(4) ev(1) 2 by simp
      then have said: "text_said P B plain" "trusts B A"
        using peers_said [OF assms(1,2) _ 2(3)] 2(4) dk by simp_all
      have "json_sound P" using assms(1) by (simp add: peers_def)
      then have "m \<in> signaling_said B" using said(1) 2(5) by (rule signaling_text_said)
      with 2(6) ev(2) assms(5) pub said(2) signaling_saidD show ?thesis
        by (auto simp: hears_signals_def simp del: session_message_to_value.simps)
    qed
  qed
qed

lemma texts_first:
  assumes "peers P a b A B" "bound_to A B" "party_step P ev A A'" "admissible P B A ev" "hears_texts P A B"
  shows "hears_texts P A' B"
proof -
  have inv: "party_inv P A" "party_inv P A'" using assms(1) party_inv_step [OF _ assms(3)] by (simp_all add: peers_def)
  have dk: "ss_decryption_key (pt_session A') = ss_decryption_key (pt_session A)"
    by (rule party_key_stays(2) [OF inv(1) assms(3)])
  obtain es where es: "party_events A' = party_events A @ es" "\<And>raw. Message raw \<in> set es \<Longrightarrow> ev = Channel raw"
    using party_events_step [OF assms(3)] by blast
  have known: "relying_key (party_layer A) \<noteq> None" if "setup_begun (ss_transport (pt_session A))"
    using inv(1) that by (simp add: party_inv_def session_inv_def Let_def)
  have "trusts B A' \<and> (m \<in> session_said B \<or> m = Unknown)" if raw: "Message raw \<in> set (party_events A')" "decodes P A' raw m" for raw m
  proof (cases "Message raw \<in> set (party_events A)")
    case True
    then have "relying_key (party_layer A) \<noteq> None"
      using inv(1) by (auto simp: party_inv_def session_inv_def transport_inv_def Let_def)
    with party_key_stays(1) [OF inv(1) assms(3)] dk raw(2) have "decodes P A raw m" by (auto simp: decodes_def)
    with True assms(5) dk show ?thesis by (auto simp: hears_texts_def trusts_def)
  next
    case False
    with raw(1) es have ev: "ev = Channel raw" by auto
    with assms(3) have A': "A' = A\<lparr>pt_session := channel_message raw (pt_session A)\<rparr>" "setup_begun (ss_transport (pt_session A))"
      by (auto elim!: party_messageE)
    from known [OF A'(2)] obtain k where k: "relying_key (party_layer A) = Some k" by blast
    with raw(2) A'(1) obtain plain where p: "peer_decrypt P (ss_decryption_key (pt_session A)) raw (Some k) = Ok plain"
        "session_message_from_str P plain = Ok m" by (auto simp: decodes_def)
    have said: "text_said P B plain" "trusts B A"
      using peers_said [OF assms(1,2) _ k p(1)] assms(4) ev by simp_all
    have "json_sound P" using assms(1) by (simp add: peers_def)
    from session_text_said [OF this said(1) p(2)] said(2) dk show ?thesis by (simp add: trusts_def)
  qed
  then show ?thesis by (simp add: hears_texts_def)
qed

lemma session_saidD:
  "Request mid v \<in> session_said p \<Longrightarrow> (mid, v) \<in> set (pt_asked p)"
  "Response mid r \<in> session_said p \<Longrightarrow> \<exists>v. (mid, v, Inr r) \<in> set (pt_answered p)"
  "Failed mid \<in> session_said p \<Longrightarrow> \<exists>v e. (mid, v, Inl e) \<in> set (pt_answered p)"
  by (auto simp: session_said_def reply_def split: sum.splits, blast)

text \<open>An event with a text of the peer: what it adds to the session.\<close>

lemma payload_taken:
  fixes S :: session
  assumes "hears_texts P A B" "hears_messages A B" "Message raw \<in> set (party_events A)"
  defines "S' \<equiv> snd (handle_transport_payload P (pt_session A) raw)"
  shows "(\<forall>m \<in> set (ss_response_tx S'). trusts B A \<and> m \<in> session_said B) \<and>
    (\<forall>v \<in> set (ss_request_tx S'). v \<in> snd ` set (pt_asked B)) \<and>
    set (accepted_request P (pt_session A) (Message raw)) \<subseteq> set (pt_asked B)"
proof -
  let ?S = "pt_session A"
  have old: "\<forall>m \<in> set (ss_response_tx ?S). trusts B A \<and> m \<in> session_said B"
      "\<forall>v \<in> set (ss_request_tx ?S). v \<in> snd ` set (pt_asked B)"
    using assms(2) by (simp_all add: hears_messages_def)
  show ?thesis
  proof (cases "\<exists>m. decodes P A raw m")
    case False
    then have "S' = ?S" "accepted_request P ?S (Message raw) = []"
      by (auto simp: S'_def decodes_def handle_transport_payload_def handle_session_frame_def accepted_request_def
          split: sum.splits)
    with old show ?thesis by simp
  next
    case True
    then obtain m where m: "decodes P A raw m" by blast
    then have said: "trusts B A" "m \<in> session_said B \<or> m = Unknown"
      using assms(1,3) by (auto simp: hears_texts_def)
    from m obtain plain where p: "peer_decrypt P (ss_decryption_key ?S) raw (relying_key (party_layer A)) = Ok plain"
        "session_message_from_str P plain = Ok m" by (auto simp: decodes_def)
    show ?thesis
    proof (cases m)
      case (Request mid v)
      then have asked: "(mid, v) \<in> set (pt_asked B)" using said(2) session_saidD(1) by auto
      have "ss_response_tx (snd (dispatch_request ?S v)) = ss_response_tx ?S"
        "set (ss_request_tx (snd (dispatch_request ?S v))) \<subseteq> insert v (set (ss_request_tx ?S))"
        by (auto simp: dispatch_request_def observe_request_def Let_def split: prod.splits sum.splits)
      with p Request asked old show ?thesis
        by (force simp: S'_def handle_transport_payload_def handle_session_frame_def accepted_request_def)
    qed (use p said old in \<open>auto simp: S'_def handle_transport_payload_def handle_session_frame_def
          accepted_request_def clear_error_def set_status_def Let_def\<close>)
  qed
qed

lemma messages_first:
  assumes "party_inv P A" "party_step P ev A A'" "hears_signals A B" "hears_texts P A B" "hears_messages A B"
  shows "hears_messages A' B"
proof -
  have pub: "trusts B A' = trusts B A"
    using party_key_stays(2) [OF assms(1,2)] by (simp add: trusts_def)
  show ?thesis
    using assms(2)
  proof cases
    case (party_own S')
    from party_own(3) have "ss_response_tx S' = ss_response_tx (pt_session A) \<and> ss_request_tx S' = ss_request_tx (pt_session A)"
    proof (cases rule: own_takes_over)
      case (routed W v)
      then obtain uuid x where "v = relayed_value uuid x" using assms(3) by (auto simp: hears_signals_def)
      with routed(2) show ?thesis
        by (simp add: on_signal_message_def signal_negotiation_relayed del: session_message_to_value.simps)
    qed (simp add: taken_over_def)
    with party_own assms(5) pub show ?thesis by (simp add: hears_messages_def)
  next
    case (party_event ev' N now rnd uuid)
    show ?thesis
    proof (cases ev')
      case (Negotiation x)
      then have "ss_response_tx (on_transport_event P N now rnd uuid ev' (pt_session A)) = ss_response_tx (pt_session A)"
        "ss_request_tx (on_transport_event P N now rnd uuid ev' (pt_session A)) = ss_request_tx (pt_session A)"
        by (simp_all add: on_transport_event_def relay_negotiation_def Let_def split: prod.splits)
      with party_event Negotiation assms(5) pub show ?thesis by (simp add: hears_messages_def accepted_request_def)
    next
      case (Message raw)
      with payload_taken [OF assms(4,5), of raw] party_event assms(5) pub show ?thesis
        by (simp add: hears_messages_def on_transport_event_def)
    qed
  next
    case (party_answer as mid v bs outcome W rnd)
    have "(mid, v) \<in> set (pt_asked B)" using party_answer(3) assms(5) by (simp add: hears_messages_def)
    moreover have "taken_over (pt_session A') = taken_over (pt_session A)" using party_answer(2) by simp
    ultimately show ?thesis using party_answer(2,3) assms(5) pub by (simp add: hears_messages_def taken_over_def)
  next
    case (party_ask W rnd uuid mx start turns message ack_ms resp_ms)
    then have "taken_over (pt_session A') = taken_over (pt_session A)" by simp
    with party_ask(2) assms(5) pub show ?thesis by (simp add: hears_messages_def taken_over_def)
  next
    case (party_ack mid v W rnd)
    then have "taken_over (pt_session A') = taken_over (pt_session A)" by simp
    with party_ack(2) assms(5) pub show ?thesis by (simp add: hears_messages_def taken_over_def)
  qed (use assms(5) pub in \<open>simp_all add: hears_messages_def\<close>)
qed

lemma heard_first:
  assumes "peers P a b A B" "party_step P ev A A'" "admissible P B A ev" "bound_to A' B" "bound_to A B \<Longrightarrow> heard P A B"
  shows "heard P A' B"
proof -
  have inv: "party_inv P A" using assms(1) by (simp add: peers_def)
  then have "bound_to A B" using assms(4) party_key_stays(1) [OF _ assms(2)] by (auto simp: bound_to_def)
  moreover from this assms(5) have "hears_signals A B" "hears_texts P A B" "hears_messages A B"
    by (simp_all add: heard_def)
  ultimately show ?thesis
    using signals_first [OF assms(1) _ assms(2,3)] texts_first [OF assms(1) _ assms(2,3)] messages_first [OF inv assms(2)]
    by (simp add: heard_def)
qed

section \<open>Every reachable network\<close>

definition net_inv :: "platform \<Rightarrow> key_pair \<Rightarrow> key_pair \<Rightarrow> party \<times> party \<Rightarrow> bool" where
  "net_inv P a b N \<longleftrightarrow> (case N of (A, B) \<Rightarrow>
     keyed P a A \<and> keyed P b B \<and> party_inv P A \<and> party_inv P B \<and>
     (bound_to A B \<longrightarrow> heard P A B) \<and> (bound_to B A \<longrightarrow> heard P B A))"

text \<open>The two key pairs of a network, and the laws its primitives obey.\<close>

definition distinct_pairs :: "platform \<Rightarrow> key_pair \<Rightarrow> key_pair \<Rightarrow> bool" where
  "distinct_pairs P a b \<longleftrightarrow> platform_ok P \<and> json_sound P \<and> is_key_pair P a \<and> is_key_pair P b \<and>
     public_key (kp_encryption_key a) \<noteq> public_key (kp_encryption_key b)"

lemma net_peers:
  assumes "distinct_pairs P a b" "net_inv P a b (A, B)"
  shows "peers P a b A B" "peers P b a B A"
  using assms is_key_pairD(3) [of P a] is_key_pairD(3) [of P b]
  by (auto simp: distinct_pairs_def net_inv_def peers_def keyed_def)

lemma fresh_party_inv:
  assumes "fresh_party a p" "is_key_pair P a"
  shows "keyed P a p" "party_inv P p" "heard P p q"
proof -
  from assms(1) obtain uri h ct pr ch where S: "pt_session p = build_session uri h (new_layer ct pr) ch (sp_decryption_key pr)"
    and jobs: "pt_jobs p = []" "pt_asked p = []" "pt_answered p = []"
    by (auto simp: fresh_party_def fresh_session_def)
  show "keyed P a p" using assms by (simp add: keyed_def fresh_party_def)
  have "session_inv P (pt_session p, 0)"
    using session_layer.inv_init assms(1) by (simp add: fresh_party_def)
  then show "party_inv P p"
    using S jobs by (simp add: party_inv_def build_session_def layer_says_new channel_says_def new_transport_def)
  show "heard P p q"
    using S jobs by (simp add: heard_def hears_signals_def hears_texts_def hears_messages_def build_session_def
        new_layer_def new_transport_def)
qed

lemma net_inv_step:
  assumes "distinct_pairs P a b" "net_inv P a b N" "net_step P N N'"
  shows "net_inv P a b N'"
  using assms(3)
proof cases
  case (net_first ev A A' B)
  have inv: "net_inv P a b (A, B)" using assms(2) net_first by simp
  then have parts: "keyed P a A" "keyed P b B" "party_inv P A" "party_inv P B"
      "bound_to A B \<Longrightarrow> heard P A B" "bound_to B A \<Longrightarrow> heard P B A" by (simp_all add: net_inv_def)
  note dk = party_key_stays(2) [OF parts(3) net_first(3)]
  have "heard P A' B" if "bound_to A' B"
    using heard_first [OF net_peers(1) [OF assms(1) inv] net_first(3,4) that parts(5)] .
  moreover have "heard P B A'" if "bound_to B A'"
    using that parts(6) dk heard_second [OF parts(3) net_first(3)] by (simp add: bound_to_def)
  ultimately show ?thesis
    using parts dk party_inv_step [OF parts(3) net_first(3)] net_first(2) by (simp add: net_inv_def keyed_def)
next
  case (net_second ev B B' A)
  have inv: "net_inv P a b (A, B)" using assms(2) net_second by simp
  then have parts: "keyed P a A" "keyed P b B" "party_inv P A" "party_inv P B"
      "bound_to A B \<Longrightarrow> heard P A B" "bound_to B A \<Longrightarrow> heard P B A" by (simp_all add: net_inv_def)
  note dk = party_key_stays(2) [OF parts(4) net_second(3)]
  have "heard P B' A" if "bound_to B' A"
    using heard_first [OF net_peers(2) [OF assms(1) inv] net_second(3,4) that parts(6)] .
  moreover have "heard P A B'" if "bound_to A B'"
    using that parts(5) dk heard_second [OF parts(4) net_second(3)] by (simp add: bound_to_def)
  ultimately show ?thesis
    using parts dk party_inv_step [OF parts(4) net_second(3)] net_second(2) by (simp add: net_inv_def keyed_def)
qed

text \<open>The laws of the primitives are part of what a run starts from.\<close>

definition started :: "platform \<Rightarrow> key_pair \<Rightarrow> key_pair \<Rightarrow> party \<times> party \<Rightarrow> bool" where
  "started P a b N \<longleftrightarrow> distinct_pairs P a b \<and> fresh_net a b N"

interpretation net_sys: inv_system "started P a b" "net_step P" "\<lambda>N. distinct_pairs P a b \<and> net_inv P a b N" for P a b
proof
  fix N :: "party \<times> party"
  assume "started P a b N"
  then show "distinct_pairs P a b \<and> net_inv P a b N"
    using fresh_party_inv [of a "fst N" P] fresh_party_inv [of b "snd N" P]
    by (cases N) (auto simp: started_def fresh_net_def distinct_pairs_def net_inv_def)
qed (use net_inv_step in blast)

lemma reachable_net:
  assumes "reachable (started P a b) (net_step P) (A, B)"
  shows "distinct_pairs P a b" "net_inv P a b (A, B)"
  using net_sys.reachable_inv [OF assms] by simp_all

text \<open>Which of the two is named first does not matter.\<close>

lemma net_swap:
  assumes "reachable (started P a b) (net_step P) (A, B)"
  shows "reachable (started P b a) (net_step P) (B, A)"
proof -
  have "reachable (started P b a) (net_step P) (prod.swap N)" if "reachable (started P a b) (net_step P) N" for N
    using that
  proof (induction rule: reachable.induct)
    case (reach_init N)
    then have "started P b a (prod.swap N)" by (auto simp: started_def distinct_pairs_def fresh_net_def)
    then show ?case by (rule reachable.reach_init)
  next
    case (reach_step N N')
    from reach_step(2) have "net_step P (prod.swap N) (prod.swap N')" by cases (auto intro: net_step.intros)
    with reach_step(3) show ?case by (rule reachable.reach_step)
  qed
  with assms show ?thesis by fastforce
qed

lemma trusts_bound: "trusts A B \<Longrightarrow> bound_to A B"
  by (auto simp: trusts_def bound_to_def)

lemma reachable_heard:
  assumes "reachable (started P a b) (net_step P) (A, B)"
  shows "trusts A B \<Longrightarrow> heard P A B" "trusts B A \<Longrightarrow> heard P B A"
  using reachable_net(2) [OF assms] trusts_bound by (simp_all add: net_inv_def)

text \<open>
  A client that was given the link of a host. The link pins the key of the host by a hash of
  sixteen hexadecimal digits; the key the client has recorded is no second key with this hash.
\<close>

definition holds_link :: "platform \<Rightarrow> key_pair \<Rightarrow> party \<Rightarrow> bool" where
  "holds_link P a B \<longleftrightarrow> \<not> sp_is_host (props (party_layer B)) \<and>
     sp_h (props (party_layer B)) = hash_public_key P (kp_encryption_key a)"

definition no_collision :: "platform \<Rightarrow> key_pair \<Rightarrow> party \<Rightarrow> bool" where
  "no_collision P a B \<longleftrightarrow> (\<forall>k. relying_key (party_layer B) = Some k \<longrightarrow>
     hash_public_key P k = hash_public_key P (kp_encryption_key a) \<longrightarrow>
     public_key k = public_key (kp_encryption_key a))"

lemma link_bound:
  assumes "reachable (started P a b) (net_step P) (A, B)" "holds_link P a B" "no_collision P a B"
  shows "bound_to B A"
proof -
  have inv: "keyed P a A" "party_inv P B" using reachable_net(2) [OF assms(1)] by (simp_all add: net_inv_def)
  have "key_inv P (party_layer B)" using inv(2) by (simp add: party_inv_def session_inv_def layer_inv_def Let_def)
  then have hashed: "hash_public_key P k = sp_h (props (party_layer B))" if "relying_key (party_layer B) = Some k" for k
    using that assms(2) by (simp add: key_inv_def holds_link_def)
  have "public_key (kp_encryption_key a) = public_of A"
    using inv(1) is_key_pairD(3) [of P a] by (simp add: keyed_def)
  with hashed assms(2,3) show ?thesis unfolding bound_to_def holds_link_def no_collision_def by metis
qed

text \<open>
  C1. A client that was given the link of a host, and whose signaling layer has reached
  \<open>Encrypted\<close> whatever the broker did, shares its keys with that host: it has recorded the
  key of the host, the host has recorded the key of the client, the capabilities it knows are
  those of the host, and each payload it has been handed is a negotiation message that the
  transport of the host has emitted.
\<close>

theorem handshake_authentic:
  assumes "reachable (started P a b) (net_step P) (A, B)" "holds_link P a B" "no_collision P a B"
    "sl_state (party_layer B) = S_Encrypted"
  shows "trusts B A \<and> trusts A B \<and>
    peer_caps (party_layer B) = Some (sp_capabilities (props (party_layer A))) \<and>
    (\<forall>v \<in> set (message_tx (party_layer B)).
       \<exists>uuid x. v = session_message_to_value (Request uuid (negotiation_to_value x)) \<and>
         Negotiation x \<in> set (party_events A))"
proof -
  have bound: "bound_to B A" by (rule link_bound [OF assms(1-3)])
  have inv: "net_inv P a b (A, B)" by (rule reachable_net(2) [OF assms(1)])
  then have "key_inv P (party_layer B)"
    by (simp add: net_inv_def party_inv_def session_inv_def layer_inv_def Let_def)
  with assms(4) obtain k c where known: "relying_key (party_layer B) = Some k" "peer_caps (party_layer B) = Some c"
    by (auto simp: key_inv_def)
  then have "trusts B A" using bound by (auto simp: trusts_def bound_to_def)
  moreover have "hears_signals B A" using inv bound by (simp add: net_inv_def heard_def)
  ultimately show ?thesis using known(2) unfolding hears_signals_def by blast
qed

text \<open>
  C3. Whatever the network does, a session that has recorded the key of its peer runs its
  handler only for requests of the peer, with the ids the peer gave them, and puts nothing
  else on its request stream: no request is made up, altered, redirected from another
  session or reflected to its sender.
\<close>

theorem requests_authentic:
  assumes "reachable (started P a b) (net_step P) (A, B)" "trusts A B"
  shows "set (pt_jobs A) \<subseteq> set (pt_asked B) \<and>
    (\<forall>(mid, v, outcome) \<in> set (pt_answered A). (mid, v) \<in> set (pt_asked B)) \<and>
    set (ss_request_tx (pt_session A)) \<subseteq> snd ` set (pt_asked B)"
  using reachable_heard(1) [OF assms] by (auto simp: heard_def hears_messages_def)

text \<open>A response or a failure that reached the session: the peer's handler gave it, for a request of the session.\<close>

lemma reply_heard:
  assumes "reachable (started P a b) (net_step P) (A, B)" "trusts A B"
  shows "Response mid r \<in> set (ss_response_tx (pt_session A)) \<Longrightarrow>
      \<exists>v. (mid, v) \<in> set (pt_asked A) \<and> (mid, v, Inr r) \<in> set (pt_answered B)"
    "Failed mid \<in> set (ss_response_tx (pt_session A)) \<Longrightarrow>
      \<exists>v e. (mid, v) \<in> set (pt_asked A) \<and> (mid, v, Inl e) \<in> set (pt_answered B)"
proof -
  have said: "trusts B A \<and> m \<in> session_said B" if "m \<in> set (ss_response_tx (pt_session A))" for m
    using reachable_heard(1) [OF assms] that by (auto simp: heard_def hears_messages_def)
  have asked: "(mid, v) \<in> set (pt_asked A)" if "trusts B A" "(mid, v, outcome) \<in> set (pt_answered B)" for mid v outcome
    using reachable_heard(2) [OF assms(1) that(1)] that(2) by (auto simp: heard_def hears_messages_def)
  show "\<exists>v. (mid, v) \<in> set (pt_asked A) \<and> (mid, v, Inr r) \<in> set (pt_answered B)"
    if "Response mid r \<in> set (ss_response_tx (pt_session A))"
    using said [OF that] session_saidD(2) [of mid r B] asked by blast
  show "\<exists>v e. (mid, v) \<in> set (pt_asked A) \<and> (mid, v, Inl e) \<in> set (pt_answered B)"
    if "Failed mid \<in> set (ss_response_tx (pt_session A))"
    using said [OF that] session_saidD(3) [of mid B] asked by blast
qed

text \<open>
  C2. What a caller gets is what the peer's handler answered: when the wait for a response
  over what has reached the session returns a value, the handler of the peer has returned
  this value for the request with this id, which the session itself had sent; and when it
  returns \<open>RequestFailed\<close>, the handler has failed on that request. No network can forge,
  alter or reflect an answer.
\<close>

theorem answers_authentic:
  assumes "reachable (started P a b) (net_step P) (A, B)" "trusts A B"
    "\<And>t m. t \<in> set turns \<Longrightarrow> received_value t = Received m \<Longrightarrow> m \<in> set (ss_response_tx (pt_session A))"
    "receive_response mx start mid ack_ms resp_ms turns = Some outcome"
  shows "(\<forall>r. outcome = Ok r \<longrightarrow> (\<exists>v. (mid, v) \<in> set (pt_asked A) \<and> (mid, v, Inr r) \<in> set (pt_answered B))) \<and>
    (outcome = Fail RequestFailed \<longrightarrow>
       (\<exists>v e. (mid, v) \<in> set (pt_asked A) \<and> (mid, v, Inl e) \<in> set (pt_answered B)))"
  using response_belongs_to_request [OF assms(4)] assms(3) reply_heard [OF assms(1,2), of mid] by blast

end
