(* ===== verification/Linking.thy ===== *)
theory Linking
  imports Session_System
begin

text \<open>
  Two sessions from their creation to a working link: both connect, their frames reach each
  other, the signal that signaling is encrypted starts the transports, and the data channel
  opens. Beside this run stands one in which the client handles the offer before its setup has
  stored the connection. What the network and the WebRTC library are assumed to do is stated by
  \<open>network_ok\<close> and \<open>webrtc_ok\<close>: their calls succeed.
\<close>

section \<open>A working environment\<close>

definition network_ok :: "network \<Rightarrow> bool" where
  "network_ok N \<longleftrightarrow>
     (\<forall>u. ws_request N u = Inr ()) \<and> (\<forall>a. header_value N a = Inr ()) \<and> (\<forall>u a. ws_connect N u a = Inr ()) \<and>
     ntfy_ready N = Opened \<and> (\<forall>u a p. http_post N u a p = Inr ()) \<and>
     (\<forall>s. mqtt_connect N s = Inr ()) \<and> (\<forall>s. mqtt_subscribe N s = Inr ()) \<and> (\<forall>s p. mqtt_send N s p = Inr ())"

text \<open>
  The library makes an offer and an answer, both survive being written and read, and every
  call on a connection and on an open data channel is accepted.
\<close>

definition webrtc_ok :: "webrtc \<Rightarrow> string \<Rightarrow> string \<Rightarrow> string \<Rightarrow> string \<Rightarrow> bool" where
  "webrtc_ok W offer offer_text answer answer_text \<longleftrightarrow>
     rtc_codecs W = Inr () \<and> rtc_interceptors W = Inr () \<and> rtc_runtime W \<and> rtc_build W = Inr () \<and>
     rtc_data_channel W = Inr () \<and> (\<forall>calls c. rtc_answer W calls c = Inr ()) \<and>
     rtc_offer W = Inr offer \<and> sdp_print W offer = Inr offer_text \<and> sdp_parse W offer_text = Inr offer \<and>
     (\<forall>calls. rtc_answer_sdp W calls = Inr answer) \<and> sdp_print W answer = Inr answer_text \<and>
     sdp_parse W answer_text = Inr answer \<and> (\<forall>e. dc_send W e = Inr ())"

lemma sample_environment:
  "network_ok sample_network" "webrtc_ok sample_webrtc ''sdp'' ''sdp'' ''sdp'' ''sdp''"
  by (simp_all add: network_ok_def sample_network_def webrtc_ok_def sample_webrtc_def)

lemma broker_ok: "network_ok N \<Longrightarrow> channel_broker P N c = online"
  by (cases c) (simp_all add: network_ok_def fun_eq_iff)

lemma channel_setup_ok: "network_ok N \<Longrightarrow> fst (channel_setup P N c) = Ok ()"
  by (cases c) (simp_all add: network_ok_def ntfy_setup_def mqtt_setup_def Let_def split: option.splits)

lemma publish_ok:
  assumes "network_ok N"
  shows "channel_publish P N (snd (channel_subscribe (snd (channel_setup P N c)))) = online"
proof -
  obtain c' where "channel_setup P N c = (Ok (), c')"
    using channel_setup_ok [OF assms, of P c] by (cases "channel_setup P N c") simp
  then show ?thesis using boxed.published_after_setup [of P N c c'] broker_ok [OF assms] by auto
qed

section \<open>Connecting\<close>

text \<open>A session as it was built, over the layer and the channel it got.\<close>

abbreviation unconnected :: "session \<Rightarrow> bool" where
  "unconnected S \<equiv> \<not> ss_events_taken S \<and> ss_control S = new_control"

lemma spawn_open:
  assumes "\<not> closed_flag c"
  shows "fst (spawn_control c) = Ok (next_id c)" "\<not> closed_flag (snd (spawn_control c))"
    "active_handlers (snd (spawn_control c)) = active_handlers c"
  using assms by (simp_all add: spawn_control_def Let_def)

lemma spawn_loops_open:
  assumes "\<not> closed_flag c"
  shows "fst (spawn_loops k c) = Ok () \<and> \<not> closed_flag (snd (spawn_loops k c)) \<and>
    active_handlers (snd (spawn_loops k c)) = active_handlers c"
  using assms
proof (induction k arbitrary: c)
  case (Suc k)
  obtain c1 where "spawn_control c = (Ok (next_id c), c1)"
    using spawn_open(1) [OF Suc.prems] by (cases "spawn_control c") simp
  with Suc.IH [of c1] spawn_open [OF Suc.prems] show ?case by simp
qed simp

lemma connect_unconnected:
  fixes P :: platform and now :: u64 and rnd :: bytes
  assumes "network_ok N" "unconnected S"
  defines "S' \<equiv> snd (session_connect P N now rnd S)"
  shows "ss_signaling S' = snd (layer_setup P now rnd online (Ok ()) (Ok ()) (ss_signaling S))"
    "ss_events_taken S'" "channel_publish P N (ss_channel S') = online" "ss_transport S' = ss_transport S"
    "\<not> closed_flag (ss_control S')" "active_handlers (ss_control S') = 0"
    "ss_decryption_key S' = ss_decryption_key S" "ss_is_host S' = ss_is_host S" "ss_response_tx S' = ss_response_tx S"
proof -
  obtain i c where c: "spawn_control (ss_control S) = (Ok i, c)" "\<not> closed_flag c" "active_handlers c = 0"
    using assms(2) by (simp add: spawn_control_def new_control_def Let_def)
  obtain c2 where c2: "spawn_loops 4 c = (Ok (), c2)" "\<not> closed_flag c2" "active_handlers c2 = 0"
    using spawn_loops_open [OF c(2), of 4] c(3) by (cases "spawn_loops 4 c") simp
  define S1 where "S1 = (set_status Signaling_up (S\<lparr>ss_control := c, ss_events_taken := True\<rparr>))\<lparr>ss_control := c2\<rparr>"
  obtain c' where ch: "channel_setup P N (ss_channel S) = (Ok (), c')"
    using channel_setup_ok [OF assms(1), of P "ss_channel S"] by (cases "channel_setup P N (ss_channel S)") simp
  obtain c'' where sub: "channel_subscribe c' = (Ok (), c'')"
    using boxed.subscribe_ok [of c'] by (cases "channel_subscribe c'") simp
  have pub: "channel_publish P N c'' = online" using publish_ok [OF assms(1), of P "ss_channel S"] ch sub by simp
  obtain r L where L: "layer_setup P now rnd online (Ok ()) (Ok ()) (ss_signaling S) = (r, L)"
    by (cases "layer_setup P now rnd online (Ok ()) (Ok ()) (ss_signaling S)")
  have "start_event_loops (set_status Signaling_up (S\<lparr>ss_control := c, ss_events_taken := True\<rparr>)) = (Ok (), S1)"
    by (simp add: start_event_loops_def c2(1) S1_def)
  moreover have "signaling_setup P N now rnd S1 = (r, S1\<lparr>ss_channel := c'', ss_signaling := L\<rparr>)"
    by (simp add: signaling_setup_def S1_def ch sub pub L)
  ultimately have "S' = finished i (S1\<lparr>ss_channel := c'', ss_signaling := L\<rparr>)"
    using assms(2) c(1) by (simp add: S'_def session_connect_def in_operation_def)
  then show "ss_signaling S' = snd (layer_setup P now rnd online (Ok ()) (Ok ()) (ss_signaling S))"
    "ss_events_taken S'" "channel_publish P N (ss_channel S') = online" "ss_transport S' = ss_transport S"
    "\<not> closed_flag (ss_control S')" "active_handlers (ss_control S') = 0"
    "ss_decryption_key S' = ss_decryption_key S" "ss_is_host S' = ss_is_host S" "ss_response_tx S' = ss_response_tx S"
    using L pub c2 by (simp_all add: S1_def abort_handle_def end_task_def set_status_def Let_def)
qed

section \<open>The run of two sessions\<close>

definition incoming :: "platform \<Rightarrow> network \<Rightarrow> u64 \<Rightarrow> bytes \<Rightarrow> session \<Rightarrow> string \<Rightarrow> session" where
  "incoming P N now rnd S frame =
     on_layer (\<lambda>L. snd (handle_receive P now rnd (channel_publish P N (ss_channel S)) L frame)) S"

abbreviation sent :: "session \<Rightarrow> string" where
  "sent S \<equiv> last (outbox (ss_signaling S))"

definition session_run ::
  "platform \<Rightarrow> network \<Rightarrow> (nat \<Rightarrow> u64) \<Rightarrow> (nat \<Rightarrow> bytes) \<Rightarrow> session \<Rightarrow> session \<Rightarrow> session \<times> session" where
  "session_run P N t n H C =
     (let H1 = snd (session_connect P N (t 0) (n 0) H);
          C1 = snd (session_connect P N (t 0) (n 0) C);
          H2 = incoming P N (t 1) (n 1) H1 (sent C1);
          C2 = incoming P N (t 2) (n 2) C1 (sent H2);
          H3 = incoming P N (t 3) (n 3) H2 (sent C2);
          C3 = incoming P N (t 4) (n 4) C2 (sent H3);
          H4 = incoming P N (t 5) (n 5) H3 (sent C3)
      in (H4, C3))"

text \<open>A session that has connected and only receives frames; everything but its layer stays.\<close>

definition running :: "platform \<Rightarrow> network \<Rightarrow> session \<Rightarrow> session \<Rightarrow> bool" where
  "running P N S S' \<longleftrightarrow>
     ss_events_taken S' \<and> channel_publish P N (ss_channel S') = online \<and> ss_transport S' = ss_transport S \<and>
     \<not> closed_flag (ss_control S') \<and> active_handlers (ss_control S') = 0 \<and>
     ss_decryption_key S' = ss_decryption_key S \<and> ss_is_host S' = ss_is_host S \<and>
     ss_response_tx S' = ss_response_tx S"

lemma running_connect:
  "network_ok N \<Longrightarrow> unconnected S \<Longrightarrow> running P N S (snd (session_connect P N now rnd S))"
  using connect_unconnected [of N S P now rnd] by (simp add: running_def)

lemma incoming_channel [simp]: "ss_channel (incoming P N now rnd S frame) = ss_channel S"
  by (simp add: incoming_def)

lemma incoming_layer:
  "channel_publish P N (ss_channel S) = online \<Longrightarrow>
   ss_signaling (incoming P N now rnd S frame) = receive P now rnd (ss_signaling S) frame"
  by (simp add: incoming_def)

lemma running_incoming: "running P N S S' \<Longrightarrow> running P N S (incoming P N now rnd S' frame)"
  by (simp add: running_def incoming_def)

lemma session_run_layers:
  assumes "network_ok N" "unconnected H" "unconnected C" "session_run P N t n H C = (H', C')"
  shows "running P N H H'" "running P N C C'"
    "handshake_run P t n (ss_signaling H) (ss_signaling C) = (ss_signaling H', ss_signaling C')"
proof -
  show "running P N H H'" "running P N C C'"
    using assms(4) running_connect [OF assms(1,2)] running_connect [OF assms(1,3)]
    by (auto simp: session_run_def Let_def intro!: running_incoming)
  note con = connect_unconnected [OF assms(1,2), of P "t 0" "n 0"] connect_unconnected [OF assms(1,3), of P "t 0" "n 0"]
  show "handshake_run P t n (ss_signaling H) (ss_signaling C) = (ss_signaling H', ss_signaling C')"
    using assms(4) con by (auto simp: session_run_def handshake_run_def Let_def incoming_layer)
qed

section \<open>Negotiation\<close>

text \<open>The host's offer and the client's answer cross over signaling.\<close>

definition exchange_descriptions ::
  "platform \<Rightarrow> network \<Rightarrow> webrtc \<Rightarrow> (nat \<Rightarrow> u64) \<Rightarrow> (nat \<Rightarrow> bytes) \<Rightarrow> (nat \<Rightarrow> string) \<Rightarrow> session \<Rightarrow> session
    \<Rightarrow> session \<times> session" where
  "exchange_descriptions P N W t n u H C =
     (let H1 = on_transport_event P N (t 6) (n 6) (u 0) (last (tp_events (ss_transport H))) H;
          C1 = incoming P N (t 6) (n 6) C (sent H1);
          C2 = on_signal_message W (last (message_tx (ss_signaling C1))) C1;
          C3 = on_transport_event P N (t 7) (n 7) (u 1) (last (tp_events (ss_transport C2))) C2;
          H2 = incoming P N (t 7) (n 7) H1 (sent C3);
          H3 = on_signal_message W (last (message_tx (ss_signaling H2))) H2
      in (H3, C3))"

text \<open>Both sides are told that signaling is encrypted and set up their transports before that.\<close>

definition negotiate ::
  "platform \<Rightarrow> network \<Rightarrow> webrtc \<Rightarrow> (nat \<Rightarrow> u64) \<Rightarrow> (nat \<Rightarrow> bytes) \<Rightarrow> (nat \<Rightarrow> string) \<Rightarrow> session \<Rightarrow> session
    \<Rightarrow> session \<times> session" where
  "negotiate P N W t n u H C =
     exchange_descriptions P N W t n u (on_signal_state W S_Encrypted H) (on_signal_state W S_Encrypted C)"

text \<open>The data channel appears at the client, opens, and the session notices.\<close>

definition open_channel :: "session \<Rightarrow> session" where
  "open_channel S =
     (let S1 = S\<lparr>ss_transport := (if tp_is_host (ss_transport S) then ss_transport S else on_data_channel (ss_transport S))\<rparr>;
          S2 = S1\<lparr>ss_transport := snd (dc_turn OnOpen (ss_transport S1))\<rparr>
      in snd (on_transport_state T_Connected S2))"

abbreviation offer_message :: "string \<Rightarrow> negotiation" where
  "offer_message x \<equiv> \<lparr>message_type = ''offer'', negotiation_payload = x\<rparr>"

abbreviation answer_message :: "string \<Rightarrow> negotiation" where
  "answer_message x \<equiv> \<lparr>message_type = ''answer'', negotiation_payload = x\<rparr>"

abbreviation relayed :: "string \<Rightarrow> negotiation \<Rightarrow> json" where
  "relayed uuid m \<equiv> session_message_to_value (Request uuid (negotiation_to_value m))"

text \<open>The transports on the way.\<close>

definition transport_at ::
  "bool \<Rightarrow> transport_state list \<Rightarrow> negotiation list \<Rightarrow> rtc_call list \<Rightarrow> bool \<Rightarrow> transport" where
  "transport_at host states ms calls dc =
     (new_transport host)\<lparr>tp_state := last states, tp_state_tx := states, tp_events := map Negotiation ms,
        peer_connection := Some calls, data_channel := dc\<rparr>"

lemma transports_set_up:
  assumes "webrtc_ok W off offt ans anst"
  shows "t_setup W (new_transport True) =
      (Ok (), transport_at True [T_Connecting, T_Ready] [offer_message offt] [Set_local off] True)"
    "t_setup W (new_transport False) = (Ok (), transport_at False [T_Connecting, T_Ready] [] [] False)"
  using assms
  by (simp_all add: webrtc_ok_def t_setup_def host_offer_def store_and_poll_dc_def emit_def t_set_state_def
      new_transport_def transport_at_def Let_def)

lemma descriptions_cross:
  assumes "webrtc_ok W off offt ans anst"
  shows "snd (t_handle W (transport_at False ss [] [] False) (offer_message offt)) =
      transport_at False ss [answer_message anst] [Set_remote off, Set_local ans] False"
    "snd (t_handle W (transport_at True ss [offer_message offt] [Set_local off] True) (answer_message anst)) =
      transport_at True ss [offer_message offt] [Set_local off, Set_remote ans] True"
  using assms
  by (simp_all add: webrtc_ok_def t_handle_def on_offer_def apply_remote_def flush_pending_candidates_def pc_call_def
      emit_def new_transport_def transport_at_def)

text \<open>
  The host's offer while the client's setup is still under way: the connection is built, and
  the offer is handled before it is stored.
\<close>

definition setup_stage :: "webrtc \<Rightarrow> session \<Rightarrow> session" where
  "setup_stage W S = setup_outcome (setup_next W (ss_transport S)) S"

definition negotiate_unready ::
  "platform \<Rightarrow> network \<Rightarrow> webrtc \<Rightarrow> (nat \<Rightarrow> u64) \<Rightarrow> (nat \<Rightarrow> bytes) \<Rightarrow> (nat \<Rightarrow> string) \<Rightarrow> session \<Rightarrow> session
    \<Rightarrow> session \<times> session" where
  "negotiate_unready P N W t n u H C =
     (let H1 = on_signal_state W S_Encrypted H;
          C1 = setup_outcome (setup_build W (ss_transport C)) C;
          H2 = on_transport_event P N (t 6) (n 6) (u 0) (last (tp_events (ss_transport H1))) H1;
          C2 = incoming P N (t 6) (n 6) C1 (sent H2);
          C3 = on_signal_message W (last (message_tx (ss_signaling C2))) C2
      in (H2, setup_stage W C3))"

definition client_building :: transport where
  "client_building = (new_transport False)\<lparr>tp_state := T_Connecting, tp_state_tx := [T_Connecting],
     tp_setup := Some (At_described None)\<rparr>"

lemma client_built:
  "webrtc_ok W off offt ans anst \<Longrightarrow> setup_build W (new_transport False) = (Ok (), client_building)"
  by (simp add: webrtc_ok_def setup_build_def client_building_def new_transport_def t_set_state_def Let_def)

lemma client_building_drops:
  "t_handle W client_building m = (Fail (Transport ''peer connection not found''), client_building)"
  by (simp add: t_handle_def client_building_def new_transport_def)

lemma client_stored:
  "setup_next W client_building = (Ok (), transport_at False [T_Connecting, T_Ready] [] [] False)"
  by (simp add: setup_next_def setup_store_def client_building_def new_transport_def t_set_state_def transport_at_def)

text \<open>A session whose signaling is encrypted between its own key pair and the peer's.\<close>

definition secured :: "platform \<Rightarrow> network \<Rightarrow> bool \<Rightarrow> key_pair \<Rightarrow> key_pair \<Rightarrow> session \<Rightarrow> bool" where
  "secured P N host a b S \<longleftrightarrow>
     ss_events_taken S \<and> channel_publish P N (ss_channel S) = online \<and>
     sl_state (ss_signaling S) = S_Encrypted \<and> relying_key (ss_signaling S) = Some (kp_encryption_key b) \<and>
     sp_decryption_key (props (ss_signaling S)) = kp_decryption_key a \<and> sp_is_host (props (ss_signaling S)) = host \<and>
     ss_decryption_key S = kp_decryption_key a \<and> select_transport S = Some ''wrtc'' \<and>
     \<not> closed_flag (ss_control S) \<and> active_handlers (ss_control S) = 0"

lemma secured_cong:
  assumes "ss_events_taken S' = ss_events_taken S" "ss_channel S' = ss_channel S" "ss_is_host S' = ss_is_host S"
    "sl_state (ss_signaling S') = sl_state (ss_signaling S)" "relying_key (ss_signaling S') = relying_key (ss_signaling S)"
    "props (ss_signaling S') = props (ss_signaling S)" "peer_caps (ss_signaling S') = peer_caps (ss_signaling S)"
    "ss_decryption_key S' = ss_decryption_key S" "ss_control S' = ss_control S"
  shows "secured P N host a b S' = secured P N host a b S"
  using assms by (simp add: secured_def select_transport_def)

lemma signal_encrypted:
  assumes "secured P N host a b S" "t_setup W (ss_transport S) = (Ok (), T)"
  shows "on_signal_state W S_Encrypted S = S\<lparr>ss_transport := T\<rparr>"
  using assms by (simp add: on_signal_state_def secured_def)

text \<open>A side that is told of the encryption has its transport set up.\<close>

lemma set_up:
  assumes "webrtc_ok W off offt ans anst" "ss_transport S = new_transport host" "secured P N host a b S"
  shows "on_signal_state W S_Encrypted S = S\<lparr>ss_transport := transport_at host [T_Connecting, T_Ready]
      (if host then [offer_message offt] else []) (if host then [Set_local off] else []) host\<rparr>"
  using signal_encrypted [OF assms(3)] transports_set_up [OF assms(1)] assms(2) by (cases host) simp_all

lemma layer_send_fields:
  "props (snd (layer_send P now rnd pub L v)) = props L" "sl_state (snd (layer_send P now rnd pub L v)) = sl_state L"
  "relying_key (snd (layer_send P now rnd pub L v)) = relying_key L"
  "peer_caps (snd (layer_send P now rnd pub L v)) = peer_caps L"
  by (simp_all add: layer_send_def)

lemma negotiation_crosses:
  fixes uuid :: string and m :: negotiation and W :: webrtc and now' :: u64 and rnd' :: bytes
  assumes "platform_ok P" "honest_pair P a b" "length rnd = 12" "secured P N host a b A" "secured P N (\<not> host) b a B"
    "text_ok P (Data (relayed uuid m) now)"
  defines "A' \<equiv> on_transport_event P N now rnd uuid (Negotiation m) A"
  defines "B1 \<equiv> incoming P N now' rnd' B (sent A')"
  defines "B' \<equiv> on_signal_message W (last (message_tx (ss_signaling B1))) B1"
  shows "secured P N host a b A' \<and> secured P N (\<not> host) b a B' \<and>
    last (message_tx (ss_signaling B1)) \<in> set (message_tx (ss_signaling B1)) \<and>
    ss_transport A' = ss_transport A \<and> ss_transport B' = snd (t_handle W (ss_transport B) m) \<and>
    ss_response_tx A' = ss_response_tx A \<and> ss_response_tx B' = ss_response_tx B \<and> outbox (ss_signaling A') \<noteq> [] \<and>
    last (message_tx (ss_signaling B')) = relayed uuid m"
proof -
  obtain r where r: "relay_negotiation P N now rnd uuid A m = (r, A')"
    by (simp add: A'_def on_transport_event_def) (metis prod.collapse)
  have A': "A' = A\<lparr>ss_signaling := snd (layer_send P now rnd online (ss_signaling A) (relayed uuid m))\<rparr>"
    using r assms(4) by (auto simp: relay_negotiation_def secured_def Let_def split: prod.splits)
  then have c1: "ss_transport A' = ss_transport A" "ss_response_tx A' = ss_response_tx A" by simp_all
  have c2: "secured P N host a b A'"
    using assms(4) A' by (subst secured_cong [of A' A]) (simp_all add: layer_send_fields)
  have pub: "channel_publish P N (ss_channel A) f = Ok ()" for f using assms(4) by (simp add: secured_def)
  have d: "r = Ok () \<and> handle_receive P now' rnd' online (ss_signaling B) (sent A') =
      (Ok (), (ss_signaling B)\<lparr>message_tx := message_tx (ss_signaling B) @ [relayed uuid m]\<rparr>) \<and>
      on_signal_message W (relayed uuid m) B = B\<lparr>ss_transport := snd (t_handle W (ss_transport B) m)\<rparr>"
    by (rule negotiation_delivered [OF assms(1,2,3) pub _ _ _ _ _ _ refl assms(6) r])
       (use assms(4,5) in \<open>auto simp: secured_def\<close>)
  moreover have "r = fst (layer_send P now rnd online (ss_signaling A) (relayed uuid m))"
    using r assms(4) by (auto simp: relay_negotiation_def secured_def Let_def split: prod.splits)
  ultimately have c0: "outbox (ss_signaling A') \<noteq> []"
    unfolding A' by (auto simp: layer_send_def send_message_def split: if_splits sum.splits)
  from d have "handle_receive P now' rnd' online (ss_signaling B) (sent A') =
      (Ok (), (ss_signaling B)\<lparr>message_tx := message_tx (ss_signaling B) @ [relayed uuid m]\<rparr>)" by blast
  then have B1: "B1 = B\<lparr>ss_signaling := (ss_signaling B)\<lparr>message_tx := message_tx (ss_signaling B) @ [relayed uuid m]\<rparr>\<rparr>"
    using assms(5) by (simp add: B1_def incoming_def secured_def)
  then have c3: "last (message_tx (ss_signaling B1)) \<in> set (message_tx (ss_signaling B1))" by simp
  have B': "B' = B1\<lparr>ss_transport := snd (t_handle W (ss_transport B) m)\<rparr>"
    by (simp add: B'_def B1 on_signal_message_def signal_negotiation_relayed del: session_message_to_value.simps)
  then have c4: "ss_transport B' = snd (t_handle W (ss_transport B) m)"
      "ss_response_tx B' = ss_response_tx B" "last (message_tx (ss_signaling B')) = relayed uuid m" by (simp_all add: B1)
  have c5: "secured P N (\<not> host) b a B'"
    using assms(5) B' B1 by (subst secured_cong [of B' B]) simp_all
  from c0 c1 c2 c3 c4 c5 show ?thesis by blast
qed

section \<open>Every step is one a session can make\<close>

abbreviation session_reachable :: "platform \<Rightarrow> session \<Rightarrow> bool" where
  "session_reachable P S \<equiv> reachable fresh_session (session_step P) (S, 0)"

lemma reach_own: "session_reachable P S \<Longrightarrow> own_step P S S' \<Longrightarrow> session_reachable P S'"
  by (blast intro: reach_step sess_own)

lemma reach_incoming:
  "session_reachable P S \<Longrightarrow> ss_events_taken S \<Longrightarrow> session_reachable P (incoming P N now rnd S frame)"
  unfolding incoming_def by (erule reach_step) (rule sess_frame)

lemma reach_event:
  assumes "session_reachable P S" "Negotiation m \<in> set (tp_events (ss_transport S))"
  shows "session_reachable P (on_transport_event P N now rnd uuid (Negotiation m) S)"
proof -
  let ?S = "on_transport_event P N now rnd uuid (Negotiation m) S"
  have "session_step P (S, 0) (?S, 0 + new_permits S ?S)" by (rule sess_transport_event [OF assms(2) refl])
  moreover have "new_permits S ?S = 0" by (simp add: on_transport_event_def)
  ultimately show ?thesis using reach_step [OF assms(1)] by simp
qed

lemma reach_channel_message:
  "session_reachable P S \<Longrightarrow> setup_begun (ss_transport S) \<Longrightarrow> session_reachable P (channel_message d S)"
  by (blast intro: reach_step sess_message)

text \<open>
  A relation on pairs of sessions that holds when both are new and that every step of a run
  keeps: a step of one session itself, a frame of the other one, a negotiation event.
\<close>

locale session_pair =
  fixes P :: platform and a b :: key_pair and R :: "session \<Rightarrow> session \<Rightarrow> bool"
  assumes start: "fresh_session (S, 0) \<Longrightarrow> fresh_session (M, 0) \<Longrightarrow> ss_decryption_key S = kp_decryption_key a \<Longrightarrow>
      ss_decryption_key M = kp_decryption_key b \<Longrightarrow> R S M"
    and own_first: "R S M \<Longrightarrow> own_step P S S' \<Longrightarrow> R S' M"
    and own_second: "R S M \<Longrightarrow> own_step P M M' \<Longrightarrow> R S M'"
    and frame_first: "R S M \<Longrightarrow> ss_events_taken S \<Longrightarrow> f \<in> set (outbox (ss_signaling M)) \<Longrightarrow>
      R (incoming P N now rnd S f) M"
    and frame_second: "R S M \<Longrightarrow> ss_events_taken M \<Longrightarrow> f \<in> set (outbox (ss_signaling S)) \<Longrightarrow>
      R S (incoming P N now rnd M f)"
    and event_first: "R S M \<Longrightarrow> Negotiation x \<in> set (tp_events (ss_transport S)) \<Longrightarrow>
      R (on_transport_event P N now rnd uuid (Negotiation x) S) M"
    and event_second: "R S M \<Longrightarrow> Negotiation x \<in> set (tp_events (ss_transport M)) \<Longrightarrow>
      R S (on_transport_event P N now rnd uuid (Negotiation x) M)"
    and both_reachable: "R S M \<Longrightarrow> session_reachable P S \<and> session_reachable P M"
begin

lemma sent_first:
  "R S M \<Longrightarrow> ss_events_taken S \<Longrightarrow> outbox (ss_signaling M) \<noteq> [] \<Longrightarrow> R (incoming P N now rnd S (sent M)) M"
  by (rule frame_first) simp_all

lemma sent_second:
  "R S M \<Longrightarrow> ss_events_taken M \<Longrightarrow> outbox (ss_signaling S) \<noteq> [] \<Longrightarrow> R S (incoming P N now rnd M (sent S))"
  by (rule frame_second) simp_all

lemma announced:
  assumes "session_reachable P S" "sl_state (ss_signaling S) = S_Encrypted"
  shows "S_Encrypted \<in> set (state_tx (ss_signaling S))" "own_step P S (on_signal_state W S_Encrypted S)"
proof -
  show sent: "S_Encrypted \<in> set (state_tx (ss_signaling S))"
    using session_layer.reachable_inv [OF assms(1)] assms(2) by (simp add: session_inv_def announced_inv_def Let_def)
  then show "own_step P S (on_signal_state W S_Encrypted S)" by (rule own_signal_state)
qed

lemma run_kept:
  assumes env: "network_ok N" "unconnected H" "unconnected C" "session_run P N t n H C = (H', C')"
    and ok: "session_ok P kh kc hcaps ccaps" "list_all (text_ok P) (handshake_messages kh kc hcaps ccaps t)"
      "\<And>i. length (n i) = 12"
    and layers: "ss_signaling H = new_layer ct (host_props P hk kh hcaps)"
      "ss_signaling C = new_layer ct' (client_props P hk kh kc ccaps)"
    and R: "R H C"
  shows "R H' C'"
proof -
  define H1 where "H1 = snd (session_connect P N (t 0) (n 0) H)"
  define C1 where "C1 = snd (session_connect P N (t 0) (n 0) C)"
  define H2 where "H2 = incoming P N (t 1) (n 1) H1 (sent C1)"
  define C2 where "C2 = incoming P N (t 2) (n 2) C1 (sent H2)"
  define H3 where "H3 = incoming P N (t 3) (n 3) H2 (sent C2)"
  define C3 where "C3 = incoming P N (t 4) (n 4) C2 (sent H3)"
  define H4 where "H4 = incoming P N (t 5) (n 5) H3 (sent C3)"
  have "session_run P N t n H C = (H4, C3)"
    unfolding session_run_def Let_def H4_def C3_def H3_def C2_def H2_def C1_def H1_def by (rule refl)
  then have eq: "H' = H4" "C' = C3" using env(4) by simp_all
  have run: "running P N H H1" "running P N C C1"
    unfolding H1_def C1_def using running_connect env(1-3) by simp_all
  note con = connect_unconnected(1) [OF env(1,2), of P "t 0" "n 0", folded H1_def]
    connect_unconnected(1) [OF env(1,3), of P "t 0" "n 0", folded C1_def]
  have online: "channel_publish P N (ss_channel S) = online" "ss_events_taken S" if "running P N S0 S" for S0 S
    using that by (simp_all add: running_def)
  have taken: "ss_events_taken H1" "ss_events_taken C1" "ss_events_taken H2" "ss_events_taken C2" "ss_events_taken H3"
    using online(2) [OF run(1)] online(2) [OF run(2)] by (simp_all add: H2_def C2_def H3_def incoming_def)
  note inc = incoming_layer [OF online(1)]
  note st = handshake_stages(3) [where hk = hk and ct' = ct' and n = n, OF ok, folded layers, folded con]
    handshake_stages(4-7) [where hk = hk and ct = ct and ct' = ct' and n = n, OF ok, folded layers, folded con]
  have box: "outbox (ss_signaling C1) \<noteq> []" "outbox (ss_signaling H2) \<noteq> []" "outbox (ss_signaling C2) \<noteq> []"
      "outbox (ss_signaling H3) \<noteq> []" "outbox (ss_signaling C3) \<noteq> []"
    using st unfolding C3_def H3_def C2_def H2_def
    by (simp_all add: inc [OF run(1)] inc [OF run(2)] inc [OF running_incoming [OF run(1)]] inc [OF running_incoming [OF run(2)]]
        del: One_nat_def)
  have "R H1 C1" unfolding H1_def C1_def by (rule own_second [OF own_first [OF R own_connect] own_connect])
  then have "R H2 C1" unfolding H2_def using taken(1) box(1) by (rule sent_first)
  then have "R H2 C2" unfolding C2_def using taken(2) box(2) by (rule sent_second)
  then have "R H3 C2" unfolding H3_def using taken(3) box(3) by (rule sent_first)
  then have "R H3 C3" unfolding C3_def using taken(4) box(4) by (rule sent_second)
  then have "R H4 C3" unfolding H4_def using taken(5) box(5) by (rule sent_first)
  with eq show ?thesis by simp
qed

text \<open>The two sessions after the descriptions have crossed.\<close>

lemma descriptions_exchanged:
  fixes H C :: session
  assumes ok: "platform_ok P" "honest_pair P kh kc" "honest_pair P kc kh" "\<And>j. length (n j) = 12"
    and HC: "secured P N True kh kc H" "secured P N False kc kh C"
    and texts: "text_ok P (Data (relayed (u 0) off) (t 6))" "text_ok P (Data (relayed (u 1) ans) (t 7))"
    and events: "tp_events (ss_transport H) = [Negotiation off]"
      "tp_events (snd (t_handle W (ss_transport C) off)) = [Negotiation ans]"
    and run: "exchange_descriptions P N W t n u H C = (H', C')" and R: "R H C"
  shows "R H' C'" "secured P N True kh kc H'" "secured P N False kc kh C'"
    "ss_response_tx H' = ss_response_tx H" "ss_response_tx C' = ss_response_tx C"
    "ss_transport H' = snd (t_handle W (ss_transport H) ans)" "ss_transport C' = snd (t_handle W (ss_transport C) off)"
    "last (message_tx (ss_signaling H')) = relayed (u 1) ans"
proof -
  define H1 where "H1 = on_transport_event P N (t 6) (n 6) (u 0) (Negotiation off) H"
  define C1 where "C1 = incoming P N (t 6) (n 6) C (sent H1)"
  define C2 where "C2 = on_signal_message W (last (message_tx (ss_signaling C1))) C1"
  have HC': "secured P N (\<not> True) kc kh C" using HC(2) by simp
  note x1 = negotiation_crosses [where now' = "t 6" and rnd' = "n 6" and W = W, OF ok(1,2) ok(4) [of 6] HC(1) HC' texts(1),
      folded H1_def, folded C1_def, folded C2_def]
  define C3 where "C3 = on_transport_event P N (t 7) (n 7) (u 1) (Negotiation ans) C2"
  define H2 where "H2 = incoming P N (t 7) (n 7) H1 (sent C3)"
  define H3 where "H3 = on_signal_message W (last (message_tx (ss_signaling H2))) H2"
  have s2: "secured P N False kc kh C2" "secured P N (\<not> False) kh kc H1" using x1 by simp_all
  note x2 = negotiation_crosses [where now' = "t 7" and rnd' = "n 7" and W = W, OF ok(1,3) ok(4) [of 7] s2 texts(2),
      folded C3_def, folded H2_def, folded H3_def]
  have T2: "tp_events (ss_transport C2) = [Negotiation ans]" using x1 events(2) by simp
  have "exchange_descriptions P N W t n u H C = (H3, C3)"
    using T2 events(1) by (simp add: exchange_descriptions_def Let_def H1_def [symmetric] C1_def [symmetric] C2_def [symmetric])
       (simp add: H3_def H2_def C3_def)
  with run have eq: "H' = H3" "C' = C3" by simp_all
  have "R H1 C" unfolding H1_def using R by (rule event_first) (simp add: events(1))
  then have "R H1 C1" unfolding C1_def by (rule sent_second) (use HC x1 in \<open>simp_all add: secured_def\<close>)
  then have "R H1 C2" unfolding C2_def by (rule own_second [OF _ own_signal_message]) (use x1 in blast)
  then have "R H1 C3" unfolding C3_def by (rule event_second) (simp add: T2)
  then have "R H2 C3" unfolding H2_def by (rule sent_first) (use s2 x2 in \<open>simp_all add: secured_def\<close>)
  then have "R H3 C3" unfolding H3_def by (rule own_first [OF _ own_signal_message]) (use x2 in blast)
  with eq x1 x2 show "R H' C'" "secured P N True kh kc H'" "secured P N False kc kh C'"
    "ss_response_tx H' = ss_response_tx H" "ss_response_tx C' = ss_response_tx C"
    "ss_transport H' = snd (t_handle W (ss_transport H) ans)" "ss_transport C' = snd (t_handle W (ss_transport C) off)"
    "last (message_tx (ss_signaling H')) = relayed (u 1) ans"
    by simp_all
qed

lemma negotiate_ends:
  fixes H C :: session
  assumes ok: "platform_ok P" "honest_pair P kh kc" "honest_pair P kc kh" "webrtc_ok W off offt ans anst"
      "\<And>j. length (n j) = 12"
    and H: "secured P N True kh kc H" "ss_transport H = new_transport True"
    and C: "secured P N False kc kh C" "ss_transport C = new_transport False"
    and texts: "text_ok P (Data (relayed (u 0) (offer_message offt)) (t 6))"
      "text_ok P (Data (relayed (u 1) (answer_message anst)) (t 7))"
    and run: "negotiate P N W t n u H C = (H', C')" and R: "R H C"
  shows "R H' C'"
    "secured P N True kh kc H' \<and> ss_response_tx H' = ss_response_tx H \<and>
      ss_transport H' = transport_at True [T_Connecting, T_Ready] [offer_message offt] [Set_local off, Set_remote ans] True"
    "secured P N False kc kh C' \<and> ss_response_tx C' = ss_response_tx C \<and>
      ss_transport C' = transport_at False [T_Connecting, T_Ready] [answer_message anst] [Set_remote off, Set_local ans] False"
proof -
  define H1 where "H1 = on_signal_state W S_Encrypted H"
  define C1 where "C1 = on_signal_state W S_Encrypted C"
  note H1 = set_up [OF ok(4) H(2,1), folded H1_def] and C1 = set_up [OF ok(4) C(2,1), folded C1_def]
  have s1: "secured P N True kh kc H1" "secured P N False kc kh C1"
    using H(1) C(1) by (simp_all add: H1 C1 secured_def select_transport_def)
  have "R H1 C" unfolding H1_def by (rule own_first [OF R announced(2)]) (use both_reachable [OF R] H(1) in \<open>simp_all add: secured_def\<close>)
  then have R1: "R H1 C1" unfolding C1_def by (rule own_second [OF _ announced(2)]) (use both_reachable [OF R] C(1) in \<open>simp_all add: secured_def\<close>)
  note cross = descriptions_cross [OF ok(4)]
  have events: "tp_events (ss_transport H1) = [Negotiation (offer_message offt)]"
    "tp_events (snd (t_handle W (ss_transport C1) (offer_message offt))) = [Negotiation (answer_message anst)]"
    using cross(1) by (simp_all add: H1 C1) (simp_all add: transport_at_def)
  have "exchange_descriptions P N W t n u H1 C1 = (H', C')" using run by (simp add: negotiate_def H1_def C1_def)
  note x = descriptions_exchanged [OF ok(1-3,5) s1 texts events this R1]
  show "R H' C'" by (rule x)
  show "secured P N True kh kc H' \<and> ss_response_tx H' = ss_response_tx H \<and>
      ss_transport H' = transport_at True [T_Connecting, T_Ready] [offer_message offt] [Set_local off, Set_remote ans] True"
    using x cross(2) by (simp add: H1)
  show "secured P N False kc kh C' \<and> ss_response_tx C' = ss_response_tx C \<and>
      ss_transport C' = transport_at False [T_Connecting, T_Ready] [answer_message anst] [Set_remote off, Set_local ans] False"
    using x cross(1) by (simp add: C1)
qed

text \<open>An offer that reaches the client while its setup is under way is dropped there.\<close>

lemma unready_ends:
  fixes H C :: session
  assumes ok: "platform_ok P" "honest_pair P kh kc" "webrtc_ok W off offt ans anst" "\<And>j. length (n j) = 12"
    and H: "secured P N True kh kc H" "ss_transport H = new_transport True"
    and C: "secured P N False kc kh C" "ss_transport C = new_transport False"
    and texts: "text_ok P (Data (relayed (u 0) (offer_message offt)) (t 6))"
    and run: "negotiate_unready P N W t n u H C = (H', C')" and R: "R H C"
  shows "R H' C'" "ss_transport H' = transport_at True [T_Connecting, T_Ready] [offer_message offt] [Set_local off] True"
    "ss_transport C' = transport_at False [T_Connecting, T_Ready] [] [] False"
    "last (message_tx (ss_signaling C')) = relayed (u 0) (offer_message offt)"
proof -
  define H1 where "H1 = on_signal_state W S_Encrypted H"
  define C1 where "C1 = setup_outcome (setup_build W (ss_transport C)) C"
  note H1 = set_up [OF ok(3) H(2,1), folded H1_def]
  have C1: "C1 = C\<lparr>ss_transport := client_building\<rparr>"
    by (simp add: C1_def C(2) client_built [OF ok(3)] setup_outcome_def)
  have s1: "secured P N True kh kc H1" "secured P N (\<not> True) kc kh C1"
    using H(1) C(1) by (simp_all add: H1 C1 secured_def select_transport_def)
  define H2 where "H2 = on_transport_event P N (t 6) (n 6) (u 0) (Negotiation (offer_message offt)) H1"
  define C2 where "C2 = incoming P N (t 6) (n 6) C1 (sent H2)"
  define C3 where "C3 = on_signal_message W (last (message_tx (ss_signaling C2))) C2"
  note x = negotiation_crosses [where now' = "t 6" and rnd' = "n 6" and W = W, OF ok(1,2) ok(4) [of 6] s1 texts,
      folded H2_def, folded C2_def, folded C3_def]
  have events: "tp_events (ss_transport H1) = [Negotiation (offer_message offt)]" by (simp add: H1 transport_at_def)
  have "negotiate_unready P N W t n u H C = (H2, setup_stage W C3)"
    by (simp add: negotiate_unready_def Let_def H1_def [symmetric] C1_def [symmetric] events)
       (simp add: C3_def C2_def H2_def)
  with run have eq: "H' = H2" "C' = setup_stage W C3" by simp_all
  have T: "ss_transport C3 = client_building" using x by (simp add: C1 client_building_drops)
  show "ss_transport H' = transport_at True [T_Connecting, T_Ready] [offer_message offt] [Set_local off] True"
    using x by (simp add: eq H1)
  show "ss_transport C' = transport_at False [T_Connecting, T_Ready] [] [] False"
    "last (message_tx (ss_signaling C')) = relayed (u 0) (offer_message offt)"
    using x by (simp_all add: eq setup_stage_def T client_stored setup_outcome_def)
  have reach: "session_reachable P H" "session_reachable P C" using both_reachable [OF R] by blast+
  have "R H1 C" unfolding H1_def by (rule own_first [OF R announced(2) [OF reach(1)]]) (use H(1) in \<open>simp add: secured_def\<close>)
  then have "R H1 C1"
    unfolding C1_def by (rule own_second [OF _ own_setup_begin])
      (use announced(1) [OF reach(2)] C in \<open>simp_all add: secured_def new_transport_def\<close>)
  then have "R H2 C1" unfolding H2_def by (rule event_first) (simp add: events)
  then have "R H2 C2" unfolding C2_def by (rule sent_second) (use s1 x in \<open>simp_all add: secured_def\<close>)
  then have "R H2 C3" unfolding C3_def by (rule own_second [OF _ own_signal_message]) (use x in blast)
  then show "R H' C'"
    unfolding eq setup_stage_def by (rule own_second [OF _ own_setup_next]) (simp_all add: T client_building_def setup_begun_def)
qed

end

lemma open_channel_linked:
  assumes "secured P N host a b S" "ss_transport S = transport_at h states ms calls h"
  shows "linked P a b (open_channel S)" "ss_status (open_channel S) = Connected"
    "ss_signaling (open_channel S) = ss_signaling S" "ss_control (open_channel S) = ss_control S"
    "ss_response_tx (open_channel S) = ss_response_tx S" "peer_connection (ss_transport (open_channel S)) = Some calls"
    "dc_sent (ss_transport (open_channel S)) = []" "T_Connecting \<in> set states \<Longrightarrow> setup_begun (ss_transport (open_channel S))"
  using assms
  by (simp_all add: setup_begun_def open_channel_def on_data_channel_def store_and_poll_dc_def dc_turn_def t_set_state_def
      on_transport_state_def linked_def secured_def transport_at_def new_transport_def set_status_def Let_def)

text \<open>What a session sends over the data channel is text.\<close>

lemma sent_utf8:
  assumes "base64_ok P" "send_session_message P W rnd S m = (Ok (), sending S e)"
  shows "utf8_valid e"
proof -
  let ?x = "rbind (ok_or (Err (Session ''relying party public key not found'')) (relying_key (ss_signaling S)))
      (\<lambda>k. peer_encrypt P rnd (ss_decryption_key S) (json_print P (session_message_to_value m)) k)"
  obtain x T where x: "?x = Ok x" "t_send W (ss_transport S) x = (Ok (), T)" "S\<lparr>ss_transport := T\<rparr> = sending S e"
    using assms(2) by (cases ?x) (auto simp: send_session_message_def Let_def split: prod.splits)
  have "T = ss_transport (S\<lparr>ss_transport := T\<rparr>)" by simp
  also have "\<dots> = ss_transport (sending S e)" by (simp only: x(3))
  finally have T: "T = ss_transport (sending S e)" .
  have "dc_sent (snd (t_send W (ss_transport S) x)) = dc_sent (ss_transport S) @ [x]"
    using x(2) by (auto simp: t_send_def split: if_splits sum.splits)
  then have "e = x" using x(2) T by simp
  moreover from x(1) obtain b where "x = to_base64 P b" by (auto simp: peer_encrypt_def Let_def)
  ultimately show ?thesis using assms(1) by (simp add: base64_ok_def to_base64_def list_all_iff utf8_valid_ascii)
qed

section \<open>From an invitation to a link\<close>

text \<open>The messages both sides have to be able to write down.\<close>

definition link_messages ::
  "key_pair \<Rightarrow> key_pair \<Rightarrow> peer_capabilities \<Rightarrow> peer_capabilities \<Rightarrow> (nat \<Rightarrow> u64) \<Rightarrow> (nat \<Rightarrow> string) \<Rightarrow> string \<Rightarrow> string
    \<Rightarrow> signaling_message list" where
  "link_messages kh kc hcaps ccaps t u offt anst =
     handshake_messages kh kc hcaps ccaps t @
     [Data (relayed (u 0) (offer_message offt)) (t 6), Data (relayed (u 1) (answer_message anst)) (t 7)]"

lemma select_own:
  "select_transport_id is_host [''wrtc''] (transports (own_capabilities i)) = Some ''wrtc''"
  by (simp add: select_transport_id_def own_capabilities_def)

lemma running_secured:
  assumes "running P N S S'" "phase (ss_signaling S') p S_Encrypted (Some (kp_encryption_key b)) (Some (own_capabilities i))"
    "sp_decryption_key p = kp_decryption_key a" "ss_decryption_key S = kp_decryption_key a" "sp_is_host p = host"
  shows "secured P N host a b S'"
  using assms by (simp add: running_def phase_def secured_def select_transport_def select_own)

lemma created_shape:
  assumes "create_session P E rid rkp rhk i = Ok S" "generate_key_pair P rkp = Ok kp"
  shows "unconnected S" "ss_transport S = new_transport True" "ss_decryption_key S = kp_decryption_key kp"
    "ss_response_tx S = []"
  using assms by (auto simp: create_session_def build_session_def Let_def)

lemma connected_shape:
  assumes "connect_session_with_info P E rkp url i = Ok S" "generate_key_pair P rkp = Ok kp"
  shows "unconnected S" "ss_transport S = new_transport (ss_is_host S)" "ss_decryption_key S = kp_decryption_key kp"
    "ss_response_tx S = []"
  using assms by (auto simp: connect_session_with_info_def build_session_def split: session_uri.splits)

text \<open>A session that can serve requests of its peer, and ask it.\<close>

definition serving :: "platform \<Rightarrow> key_pair \<Rightarrow> key_pair \<Rightarrow> session \<Rightarrow> bool" where
  "serving P a b S \<longleftrightarrow> linked P a b S \<and> ss_status S = Connected \<and> sl_state (ss_signaling S) = S_Encrypted \<and>
     \<not> closed_flag (ss_control S) \<and> active_handlers (ss_control S) = 0 \<and> ss_response_tx S = [] \<and>
     dc_sent (ss_transport S) = [] \<and> setup_begun (ss_transport S) \<and> session_reachable P S"

lemma open_channel_serving:
  assumes "secured P N host a b S" "session_reachable P (open_channel S)" "ss_response_tx S = []"
    "ss_transport S = transport_at h [T_Connecting, T_Ready] ms calls h"
  shows "serving P a b (open_channel S)" "peer_connection (ss_transport (open_channel S)) = Some calls"
  using open_channel_linked [OF assms(1,4)] assms(1-3) by (simp_all add: serving_def secured_def)

text \<open>The opening of the channel is three steps of the session itself.\<close>

lemma open_channel_steps:
  assumes "setup_begun (ss_transport S)"
  shows "(own_step P)\<^sup>*\<^sup>* S (open_channel S)"
proof -
  define S1 where "S1 = S\<lparr>ss_transport := (if tp_is_host (ss_transport S) then ss_transport S else on_data_channel (ss_transport S))\<rparr>"
  define S2 where "S2 = S1\<lparr>ss_transport := snd (dc_turn OnOpen (ss_transport S1))\<rparr>"
  have "(own_step P)\<^sup>*\<^sup>* S S1"
    using own_callback [OF assms cb_channel] by (cases "tp_is_host (ss_transport S)") (auto simp: S1_def)
  moreover have "setup_begun (ss_transport S1)"
    using assms by (simp add: S1_def setup_begun_def on_data_channel_def store_and_poll_dc_def)
  then have "own_step P S1 S2" unfolding S2_def by (rule own_callback [OF _ cb_event]) simp
  moreover have "T_Connected \<in> set (tp_state_tx (ss_transport S2))"
    by (simp add: S2_def dc_turn_def t_set_state_def)
  then have "own_step P S2 (snd (on_transport_state T_Connected S2))" by (rule own_transport_state)
  ultimately have "(own_step P)\<^sup>*\<^sup>* S (snd (on_transport_state T_Connected S2))" by simp
  then show ?thesis by (simp add: open_channel_def S2_def S1_def Let_def)
qed

context session_pair
begin

lemma opened:
  assumes "R S M" "setup_begun (ss_transport S)" "setup_begun (ss_transport M)"
  shows "R (open_channel S) (open_channel M)"
proof -
  have first: "R S' M" if "(own_step P)\<^sup>*\<^sup>* S S'" for S'
    using that by induction (use assms(1) own_first in blast)+
  have "R (open_channel S) M'" if "(own_step P)\<^sup>*\<^sup>* M M'" for M'
    using that by induction (use first [OF open_channel_steps [OF assms(2)]] own_second in blast)+
  then show ?thesis using open_channel_steps [OF assms(3)] by blast
qed

text \<open>The two sessions of an invitation once the handshake is through.\<close>

lemma invited_sessions_secured:
  assumes host: "create_session P E rid rkp rhk i = Ok H" "valid_init i" "length rid = 16" "form_ok E"
      "\<And>x. length (sha256 P x) = 32"
    and keys: "generate_key_pair P rkp = Ok a" "generate_key_pair P rkp' = Ok b"
      "hash_public_key P (kp_encryption_key b) \<noteq> hash_public_key P (kp_encryption_key a)"
    and ok: "session_ok P a b (own_capabilities (si_info i)) (own_capabilities pinfo)"
      "list_all (text_ok P) (link_messages a b (own_capabilities (si_info i)) (own_capabilities pinfo) t u offt anst)"
      "\<And>j. length (n j) = 12"
    and env: "network_ok N"
  obtains C H1 C1 where "connect_session_with_info P E rkp' (to_connection_url E (ss_uri H)) pinfo = Ok C"
    "session_run P N t n H C = (H1, C1)" "R H1 C1" "secured P N True a b H1" "secured P N False b a C1"
    "ss_transport H1 = new_transport True" "ss_transport C1 = new_transport False"
    "ss_response_tx H1 = []" "ss_response_tx C1 = []"
    "text_ok P (Data (relayed (u 0) (offer_message offt)) (t 6))" "text_ok P (Data (relayed (u 1) (answer_message anst)) (t 7))"
proof -
  obtain C hk ct where C: "connect_session_with_info P E rkp' (to_connection_url E (ss_uri H)) pinfo = Ok C"
    "\<not> ss_is_host C" "ss_signaling H = new_layer ct (host_props P hk a (own_capabilities (si_info i)))"
    "ss_signaling C = new_layer ct (client_props P hk a b (own_capabilities pinfo))"
    using invited_client [OF host keys, of pinfo] by blast
  note H = created_shape [OF host(1) keys(1)] and C' = connected_shape [OF C(1) keys(2)]
  obtain H1 C1 where run: "session_run P N t n H C = (H1, C1)" by fastforce
  note layers = session_run_layers [OF env H(1) C'(1) run]
  have texts: "list_all (text_ok P) (handshake_messages a b (own_capabilities (si_info i)) (own_capabilities pinfo) t)"
    "text_ok P (Data (relayed (u 0) (offer_message offt)) (t 6))"
    "text_ok P (Data (relayed (u 1) (answer_message anst)) (t 7))"
    using ok(2) by (simp_all add: link_messages_def)
  note ends = handshake_run_ends [OF ok(1) texts(1) ok(3) layers(3) [unfolded C(3,4)]]
  have sec: "secured P N True a b H1" "secured P N False b a C1"
    by (rule running_secured [OF layers(1) ends [THEN conjunct1]], use H in \<open>simp_all add: party_props_def\<close>)
       (rule running_secured [OF layers(2) ends [THEN conjunct2]], use C' in \<open>simp_all add: party_props_def\<close>)
  have shape: "ss_transport H1 = new_transport True" "ss_transport C1 = new_transport False"
    "ss_response_tx H1 = []" "ss_response_tx C1 = []"
    using layers(1,2) H C' C(2) by (simp_all add: running_def)
  have "R H C" using start created_fresh [OF host(1)] connected_fresh [OF C(1)] H(3) C'(3) by blast
  then have R1: "R H1 C1" by (rule run_kept [OF env H(1) C'(1) run ok(1) texts(1) ok(3) C(3,4)])
  then show ?thesis by (rule that [OF C(1) run _ sec shape texts(2,3)])
qed

lemma invited_sessions_serve:
  assumes host: "create_session P E rid rkp rhk i = Ok H" "valid_init i" "length rid = 16" "form_ok E"
      "\<And>x. length (sha256 P x) = 32"
    and keys: "generate_key_pair P rkp = Ok a" "generate_key_pair P rkp' = Ok b"
      "hash_public_key P (kp_encryption_key b) \<noteq> hash_public_key P (kp_encryption_key a)"
    and ok: "session_ok P a b (own_capabilities (si_info i)) (own_capabilities pinfo)"
      "list_all (text_ok P) (link_messages a b (own_capabilities (si_info i)) (own_capabilities pinfo) t u offt anst)"
      "\<And>j. length (n j) = 12"
    and env: "network_ok N" "webrtc_ok W off offt ans anst"
  obtains C H1 C1 H2 C2 where "connect_session_with_info P E rkp' (to_connection_url E (ss_uri H)) pinfo = Ok C"
    "session_run P N t n H C = (H1, C1)" "negotiate P N W t n u H1 C1 = (H2, C2)"
    "serving P a b (open_channel H2)" "serving P b a (open_channel C2)"
    "peer_connection (ss_transport (open_channel H2)) = Some [Set_local off, Set_remote ans]"
    "peer_connection (ss_transport (open_channel C2)) = Some [Set_remote off, Set_local ans]"
    "R (open_channel H2) (open_channel C2)" "\<not> sp_is_host (props (ss_signaling (open_channel C2)))"
proof -
  obtain C H1 C1 where C: "connect_session_with_info P E rkp' (to_connection_url E (ss_uri H)) pinfo = Ok C"
      "session_run P N t n H C = (H1, C1)" "R H1 C1"
    and sec: "secured P N True a b H1" "secured P N False b a C1"
    and shape: "ss_transport H1 = new_transport True" "ss_transport C1 = new_transport False"
      "ss_response_tx H1 = []" "ss_response_tx C1 = []"
    and texts: "text_ok P (Data (relayed (u 0) (offer_message offt)) (t 6))"
      "text_ok P (Data (relayed (u 1) (answer_message anst)) (t 7))"
    by (rule invited_sessions_secured [OF host keys ok env(1)])
  obtain H2 C2 where neg: "negotiate P N W t n u H1 C1 = (H2, C2)" by fastforce
  note neg' = negotiate_ends [OF session_okD(1-3) [OF ok(1)] env(2) ok(3) sec(1) shape(1) sec(2) shape(2) texts neg C(3)]
  have H2: "secured P N True a b H2" "ss_response_tx H2 = []"
    "ss_transport H2 = transport_at True [T_Connecting, T_Ready] [offer_message offt] [Set_local off, Set_remote ans] True"
    using neg'(2) shape(3) by simp_all
  have C2: "secured P N False b a C2" "ss_response_tx C2 = []"
    "ss_transport C2 = transport_at False [T_Connecting, T_Ready] [answer_message anst] [Set_remote off, Set_local ans] False"
    using neg'(3) shape(4) by simp_all
  have R2: "R (open_channel H2) (open_channel C2)"
    by (rule opened [OF neg'(1)]) (simp_all add: H2(3) C2(3) setup_begun_def transport_at_def)
  note reach = both_reachable [OF R2]
  have client: "\<not> sp_is_host (props (ss_signaling (open_channel C2)))"
    using C2(1) open_channel_linked(3) [OF C2(1,3)] by (simp add: secured_def)
  show ?thesis
    by (rule that [OF C(1,2) neg open_channel_serving(1) [OF H2(1) _ H2(2,3)] open_channel_serving(1) [OF C2(1) _ C2(2,3)]
          open_channel_serving(2) [OF H2(1) _ H2(2,3)] open_channel_serving(2) [OF C2(1) _ C2(2,3)] R2 client])
       (use reach in blast)+
qed

lemma invited_sessions_unready:
  assumes host: "create_session P E rid rkp rhk i = Ok H" "valid_init i" "length rid = 16" "form_ok E"
      "\<And>x. length (sha256 P x) = 32"
    and keys: "generate_key_pair P rkp = Ok a" "generate_key_pair P rkp' = Ok b"
      "hash_public_key P (kp_encryption_key b) \<noteq> hash_public_key P (kp_encryption_key a)"
    and ok: "session_ok P a b (own_capabilities (si_info i)) (own_capabilities pinfo)"
      "list_all (text_ok P) (link_messages a b (own_capabilities (si_info i)) (own_capabilities pinfo) t u offt anst)"
      "\<And>j. length (n j) = 12"
    and env: "network_ok N" "webrtc_ok W off offt ans anst"
  obtains C H1 C1 H2 C2 where "connect_session_with_info P E rkp' (to_connection_url E (ss_uri H)) pinfo = Ok C"
    "session_run P N t n H C = (H1, C1)" "negotiate_unready P N W t n u H1 C1 = (H2, C2)" "R H2 C2"
    "ss_transport H2 = transport_at True [T_Connecting, T_Ready] [offer_message offt] [Set_local off] True"
    "ss_transport C2 = transport_at False [T_Connecting, T_Ready] [] [] False"
    "last (message_tx (ss_signaling C2)) = relayed (u 0) (offer_message offt)"
proof -
  obtain C H1 C1 where C: "connect_session_with_info P E rkp' (to_connection_url E (ss_uri H)) pinfo = Ok C"
      "session_run P N t n H C = (H1, C1)" "R H1 C1" "secured P N True a b H1" "secured P N False b a C1"
      "ss_transport H1 = new_transport True" "ss_transport C1 = new_transport False"
      "text_ok P (Data (relayed (u 0) (offer_message offt)) (t 6))"
    by (rule invited_sessions_secured [OF host keys ok env(1)])
  obtain H2 C2 where neg: "negotiate_unready P N W t n u H1 C1 = (H2, C2)" by fastforce
  note ends = unready_ends [OF session_okD(1,2) [OF ok(1)] env(2) ok(3) C(4,6,5,7,8) neg C(3)]
  show ?thesis by (rule that [OF C(1,2) neg ends])
qed

end

text \<open>Two sessions that are each in a reachable state are such a pair.\<close>

interpretation reachable_pair: session_pair P a b "\<lambda>S M. session_reachable P S \<and> session_reachable P M" for P a b
  by unfold_locales (blast intro: reach_init reach_own reach_incoming reach_event)+

end
