(* ===== verification/Delivery.thy ===== *)
theory Delivery
  imports Adversary Linking
begin

text \<open>
  A network that only carries: it may lose, delay, repeat and reorder, but what it hands to
  one session the other one has sent. Its runs are runs of the network of any behaviour, so
  that the way two sessions take from an invitation to an answer is one of them.
\<close>

section \<open>Carrying\<close>

fun carried :: "party \<Rightarrow> input \<Rightarrow> bool" where
  "carried p (Broker payload) = (payload \<in> set (outbox (party_layer p)))"
| "carried p (Channel d) = (d \<in> set (dc_sent (ss_transport (pt_session p))))"
| "carried p Inner = True"

inductive carry_step :: "platform \<Rightarrow> party \<times> party \<Rightarrow> party \<times> party \<Rightarrow> bool" for P :: platform where
  carry_first: "party_step P ev A A' \<Longrightarrow> carried B ev \<Longrightarrow> carry_step P (A, B) (A', B)"
| carry_second: "party_step P ev B B' \<Longrightarrow> carried A ev \<Longrightarrow> carry_step P (A, B) (A, B')"

text \<open>What a party has sent is no forgery.\<close>

lemma sent_unforged:
  assumes "peers P a b A B" "bound_to A B" "c \<in> ciphertexts A"
  shows "unforged P A B c"
proof -
  have ok: "base64_ok P" "x25519_ok P" and keys: "keyed P a A" "keyed P b B" and inv: "party_inv P A"
    using assms(1) by (simp_all add: peers_def platform_ok_def)
  have secret: "x25519 P (secret_of A) (public_of B) = x25519 P (secret_of B) (public_of A)"
    using is_key_pairD [of P a] is_key_pairD [of P b] keys ok(2) by (simp add: keyed_def x25519_ok_def)
  have len: "length (public_of A) = PUBLIC_KEY_BYTES"
    using key_pair_public_length [OF ok(2)] is_key_pairD(3) keys by (simp add: keyed_def PUBLIC_KEY_BYTES_def)
  obtain k n t where k: "relying_key (party_layer A) = Some k"
      "peer_encrypt P n (ss_decryption_key (pt_session A)) t k = Ok c"
    by (rule ciphertext_said [OF inv assms(3)])
  have pub: "public_key k = public_of B" using assms(2) k(1) by (simp add: bound_to_def)
  from k(2) obtain nonce ct where c: "length nonce = NONCE_BYTES" "c = to_base64 P (public_of A @ nonce @ ct)"
    by (rule peer_encrypt_Ok)
  then have b: "from_base64 P c = Ok (public_of A @ nonce @ ct)" by (simp add: from_base64_to_base64 [OF ok(1)])
  show ?thesis
    unfolding unforged_def Let_def b using c len k(1) pub secret assms(3) by (auto simp: sealed_def)
qed

lemma carried_admissible:
  assumes "peers P a b A B" "bound_to A B" "carried A ev"
  shows "admissible P A B ev"
proof (cases ev)
  case (Broker payload)
  have "ciphertext f \<in> ciphertexts A" if "parse_frame payload = Ok f" "prefix f = Encrypted" for f
    using frame_parsed [OF that(1)] that(2) assms(3) Broker
    by (auto simp: ciphertexts_def frame_string_def intro!: exI [of _ "recipient f"])
  with Broker sent_unforged [OF assms(1,2)] show ?thesis by simp
next
  case (Channel d)
  then have "d \<in> ciphertexts A" using assms(3) by (simp add: ciphertexts_def)
  with Channel sent_unforged [OF assms(1,2)] show ?thesis by simp
qed simp

text \<open>Recorded keys stay, so that the keys at the end tell about every step before.\<close>

lemma bound_before:
  assumes "party_inv P A" "party_step P ev A A'"
  shows "bound_to A' B \<Longrightarrow> bound_to A B" "bound_to B A' \<Longrightarrow> bound_to B A"
  using party_key_stays [OF assms] by (auto simp: bound_to_def)

lemma peers_sym: "peers P a b A B = peers P b a B A"
  by (auto simp: peers_def)

lemma peers_step: "peers P a b A B \<Longrightarrow> party_step P ev A A' \<Longrightarrow> peers P a b A' B"
  using party_key_stays(2) [of P A ev A'] party_inv_step [of P A ev A'] by (auto simp: peers_def keyed_def)

lemma carried_net:
  assumes "peers P a b A B" "carry_step P (A, B) (A', B')"
  shows "peers P a b A' B'" "bound_to A' B' \<Longrightarrow> bound_to B' A' \<Longrightarrow> net_step P (A, B) (A', B') \<and> bound_to A B \<and> bound_to B A"
proof -
  have inv: "party_inv P A" "party_inv P B" and sym: "peers P b a B A"
    using assms(1) peers_sym by (auto simp: peers_def)
  have "peers P a b A' B' \<and> (bound_to A' B' \<longrightarrow> bound_to B' A' \<longrightarrow> net_step P (A, B) (A', B') \<and> bound_to A B \<and> bound_to B A)"
    using assms(2)
  proof cases
    case (carry_first ev)
    have "peers P a b A' B'" using peers_step [OF assms(1) carry_first(2)] carry_first(1) by simp
    with bound_before [OF inv(1) carry_first(2), of B] carried_admissible [OF sym _ carry_first(3)] carry_first
    show ?thesis by (auto intro: net_first)
  next
    case (carry_second ev)
    have "peers P a b A' B'" using peers_step [OF sym carry_second(2)] carry_second(1) peers_sym by auto
    with bound_before [OF inv(2) carry_second(2), of A] carried_admissible [OF assms(1) _ carry_second(3)] carry_second
    show ?thesis by (auto intro: net_second)
  qed
  then show "peers P a b A' B'" "bound_to A' B' \<Longrightarrow> bound_to B' A' \<Longrightarrow> net_step P (A, B) (A', B') \<and> bound_to A B \<and> bound_to B A"
    by simp_all
qed

definition carried_from :: "platform \<Rightarrow> key_pair \<Rightarrow> key_pair \<Rightarrow> party \<Rightarrow> party \<Rightarrow> bool" where
  "carried_from P a b A B \<longleftrightarrow> reachable (started P a b) (carry_step P) (A, B)"

lemma carried_peers:
  assumes "carried_from P a b A B"
  shows "peers P a b A B"
proof -
  have "case N of (A, B) \<Rightarrow> peers P a b A B" if "reachable (started P a b) (carry_step P) N" for N
    using that
  proof (induction rule: reachable.induct)
    case (reach_init N)
    then have "distinct_pairs P a b" "net_inv P a b N" using net_sys.inv_init by blast+
    then show ?case using net_peers(1) by (cases N) auto
  next
    case (reach_step N N')
    then show ?case using carried_net(1) by (cases N; cases N') auto
  qed
  with assms show ?thesis by (auto simp: carried_from_def)
qed

lemma carried_reachable:
  assumes "carried_from P a b A B" "bound_to A B" "bound_to B A"
  shows "reachable (started P a b) (net_step P) (A, B)"
proof -
  have "case N of (A, B) \<Rightarrow> bound_to A B \<longrightarrow> bound_to B A \<longrightarrow> reachable (started P a b) (net_step P) (A, B)"
    if "reachable (started P a b) (carry_step P) N" for N
    using that
  proof (induction rule: reachable.induct)
    case (reach_init N)
    then show ?case by (cases N) (auto intro: reachable.reach_init)
  next
    case (reach_step N N')
    obtain A B A' B' where N: "N = (A, B)" "N' = (A', B')" by (cases N; cases N') auto
    have "peers P a b A B" using reach_step(1) N carried_peers by (simp add: carried_from_def)
    from carried_net(2) [OF this] reach_step N show ?case by (auto intro: reachable.reach_step)
  qed
  with assms show ?thesis by (auto simp: carried_from_def)
qed

section \<open>Steps\<close>

lemma carried_swap:
  assumes "carried_from P a b A B"
  shows "carried_from P b a B A"
proof -
  have "reachable (started P b a) (carry_step P) (prod.swap N)" if "reachable (started P a b) (carry_step P) N" for N
    using that
  proof (induction rule: reachable.induct)
    case (reach_init N)
    then have "started P b a (prod.swap N)" by (auto simp: started_def distinct_pairs_def fresh_net_def)
    then show ?case by (rule reachable.reach_init)
  next
    case (reach_step N N')
    from reach_step(2) have "carry_step P (prod.swap N) (prod.swap N')"
      by cases (auto intro: carry_step.intros)
    with reach_step(3) show ?case by (rule reachable.reach_step)
  qed
  with assms show ?thesis by (fastforce simp: carried_from_def)
qed

lemma carried_step:
  "carried_from P a b A B \<Longrightarrow> party_step P ev B B' \<Longrightarrow> carried A ev \<Longrightarrow> carried_from P a b A B'"
  unfolding carried_from_def by (blast intro: reach_step carry_second)

text \<open>A party whose program has not asked or answered anything yet.\<close>

abbreviation idle :: "session \<Rightarrow> party" where
  "idle S \<equiv> \<lparr>pt_session = S, pt_jobs = [], pt_asked = [], pt_answered = []\<rparr>"

abbreviation crossing :: "platform \<Rightarrow> key_pair \<Rightarrow> key_pair \<Rightarrow> session \<Rightarrow> session \<Rightarrow> bool" where
  "crossing P a b S M \<equiv> carried_from P a b (idle S) (idle M)"

lemma cross_own: "crossing P a b S M \<Longrightarrow> own_step P M M' \<Longrightarrow> crossing P a b S M'"
  using carried_step [OF _ party_own, of P a b "idle S" "idle M" M'] by simp

lemma cross_incoming:
  "crossing P a b S M \<Longrightarrow> ss_events_taken M \<Longrightarrow> f \<in> set (outbox (ss_signaling S)) \<Longrightarrow>
   crossing P a b S (incoming P N now rnd M f)"
  using carried_step [OF _ party_frame [where P = P and p = "idle M" and N = N and now = now and rnd = rnd and payload = f], of a b "idle S"] by (simp add: incoming_def)

lemma cross_negotiation:
  "crossing P a b S M \<Longrightarrow> Negotiation x \<in> set (tp_events (ss_transport M)) \<Longrightarrow>
   crossing P a b S (on_transport_event P N now rnd uuid (Negotiation x) M)"
  using carried_step [OF _ party_event [where P = P and p = "idle M" and N = N and now = now and rnd = rnd and uuid = uuid and ev = "Negotiation x"], of a b "idle S"]
  by (simp add: accepted_request_def)

text \<open>So the run of two sessions from an invitation to a link is carried.\<close>

interpretation carried_pair: session_pair P a b
  "\<lambda>S M. session_reachable P S \<and> session_reachable P M \<and> (distinct_pairs P a b \<longrightarrow> crossing P a b S M)" for P a b
proof (unfold_locales, goal_cases)
  case (1 S M)
  then have "started P a b (idle S, idle M)" if "distinct_pairs P a b"
    using that by (simp add: started_def fresh_net_def fresh_party_def)
  with 1 show ?case by (auto simp: carried_from_def intro: reach_init)
next
  case (2 S M S')
  then show ?case by (auto intro: reach_own carried_swap [OF cross_own [OF carried_swap]])
next
  case (3 S M M')
  then show ?case by (auto intro: reach_own cross_own)
next
  case (4 S M f N now rnd)
  then show ?case by (auto intro: reach_incoming carried_swap [OF cross_incoming [OF carried_swap]])
next
  case (5 S M f N now rnd)
  then show ?case by (auto intro: reach_incoming cross_incoming)
next
  case (6 S M x N now rnd uuid)
  then show ?case by (auto intro: reach_event carried_swap [OF cross_negotiation [OF carried_swap]])
next
  case (7 S M x N now rnd uuid)
  then show ?case by (auto intro: reach_event cross_negotiation)
qed simp

section \<open>A request and its answer are carried\<close>

text \<open>A text on the data channel arrives as an event, and the session takes it.\<close>

lemma carried_text:
  fixes S :: session and m :: session_message
  assumes "carried_from P a b A B" "e \<in> set (dc_sent (ss_transport (pt_session A)))" "utf8_valid e"
    "setup_begun (ss_transport (pt_session B))" "linked P b a (pt_session B)" "session_text_ok P m"
    "peer_decrypt P (kp_decryption_key b) e (Some (kp_encryption_key a)) = Ok (json_print P (session_message_to_value m))"
  defines "S \<equiv> channel_message e (pt_session B)"
  shows "carried_from P a b A
      (B\<lparr>pt_session := snd (handle_session_frame P S (json_print P (session_message_to_value m))),
         pt_jobs := pt_jobs B @ (case m of Request mid v \<Rightarrow> if is_ok (fst (dispatch_request S v)) then [(mid, v)] else [] | _ \<Rightarrow> [])\<rparr>)"
    "linked P b a S"
proof -
  have turn: "snd (dc_turn (OnMessage e) T) = T\<lparr>tp_events := tp_events T @ [Message e]\<rparr>" for T
    using assms(3) by (simp add: dc_turn_def)
  show link: "linked P b a S" using assms(5) by (simp add: S_def turn linked_def)
  have "carried_from P a b A (B\<lparr>pt_session := S\<rparr>)"
    unfolding S_def using assms(2,4) by (intro carried_step [OF assms(1) party_message]) simp_all
  moreover have "Message e \<in> set (tp_events (ss_transport (pt_session (B\<lparr>pt_session := S\<rparr>))))" by (simp add: S_def turn)
  moreover have "on_transport_event P N now rnd uuid (Message e) S =
      snd (handle_session_frame P S (json_print P (session_message_to_value m)))" for N now rnd uuid
    using received_message [OF link assms(6,7)] by (simp add: on_transport_event_def)
  moreover have "accepted_request P S (Message e) =
      (case m of Request mid v \<Rightarrow> if is_ok (fst (dispatch_request S v)) then [(mid, v)] else [] | _ \<Rightarrow> [])"
    using link assms(7) session_message_from_text [OF assms(6)] by (simp add: accepted_request_def linked_def)
  ultimately show "carried_from P a b A
      (B\<lparr>pt_session := snd (handle_session_frame P S (json_print P (session_message_to_value m))),
         pt_jobs := pt_jobs B @ (case m of Request mid v \<Rightarrow> if is_ok (fst (dispatch_request S v)) then [(mid, v)] else [] | _ \<Rightarrow> [])\<rparr>)"
    using carried_step [OF _ party_event [where P = P and p = "B\<lparr>pt_session := S\<rparr>" and ev = "Message e"]] by fastforce
qed

lemma asked_text:
  assumes "platform_ok P" "honest_pair P a b" "serving P a b S" "session_text_ok P (Request mid v)" "length rnd = 12"
    "\<And>e. dc_send W e = Inr ()"
  obtains e c where "snd (send_with_timeouts P W rnd mid mx start turns S v ack_ms resp_ms) = (sending S e)\<lparr>ss_control := c\<rparr>"
    "peer_decrypt P (kp_decryption_key b) e (Some (kp_encryption_key a)) =
       Ok (json_print P (session_message_to_value (Request mid v)))" "utf8_valid e"
proof -
  obtain i c where c: "spawn_control (ss_control S) = (Ok i, c)"
    using assms(3) spawn_open(1) [of "ss_control S"] by (cases "spawn_control (ss_control S)") (simp add: serving_def)
  let ?S = "S\<lparr>ss_control := c\<rparr>"
  have "linked P a b ?S" using assms(3) by (simp add: serving_def)
  then obtain e where e: "send_session_message P W rnd ?S (Request mid v) = (Ok (), sending ?S e)"
      "peer_decrypt P (kp_decryption_key b) e (Some (kp_encryption_key a)) =
         Ok (json_print P (session_message_to_value (Request mid v)))"
    by (rule message_sent [OF assms(1,2) _ assms(4,5,6)])
  have "base64_ok P" using assms(1) by (simp add: platform_ok_def)
  then have utf8: "utf8_valid e" using e(1) by (rule sent_utf8)
  have "send_request P W rnd mid ?S v = (Ok (), sending ?S e)"
    using assms(3) e(1) by (simp add: send_request_def serving_def)
  moreover have "sending ?S e = (sending S e)\<lparr>ss_control := c\<rparr>" by (simp add: sending_def)
  ultimately have "snd (send_with_timeouts P W rnd mid mx start turns S v ack_ms resp_ms) \<in>
      range (\<lambda>c. (sending S e)\<lparr>ss_control := c\<rparr>)"
    using c by (auto simp: send_with_timeouts_def split: option.splits)
  with that e(2) utf8 show ?thesis by blast
qed

lemma dispatch_accepts:
  assumes "linked P a b S" "\<not> closed_flag (ss_control S)" "active_handlers (ss_control S) = 0"
  shows "is_ok (fst (dispatch_request S v))" "linked P a b (snd (dispatch_request S v))"
  using assms
  by (simp_all add: dispatch_request_def admit_handler_def spawn_control_def observe_request_def linked_def is_ok_def
      MAX_ACTIVE_HANDLERS_def Let_def)

lemma linked_trusts:
  assumes "linked P a b (pt_session A)" "keyed P b B"
  shows "trusts A B"
  using assms is_key_pairD(3) [of P b] by (simp add: trusts_def linked_def keyed_def)

text \<open>The first party asks, and the second one admits the request.\<close>

lemma request_carried:
  fixes W :: webrtc and rnd :: bytes
  assumes ok: "platform_ok P" "honest_pair P a b" "\<And>e. dc_send W e = Inr ()" "length rnd = 12"
    and body: "session_text_ok P (Request mid v)"
    and S: "crossing P a b S M" "serving P a b S" "serving P b a M"
  obtains A B where "carried_from P a b A B" "linked P a b (pt_session A)" "linked P b a (pt_session B)"
    "setup_begun (ss_transport (pt_session A))" "party_layer A = ss_signaling S" "party_layer B = ss_signaling M"
    "pt_asked A = [(mid, v)]" "pt_jobs B = [(mid, v)]" "pt_answered B = []" "ss_response_tx (pt_session A) = []"
proof -
  obtain e c where e: "snd (send_with_timeouts P W rnd mid 0 0 [] S v 0 0) = (sending S e)\<lparr>ss_control := c\<rparr>"
      "peer_decrypt P (kp_decryption_key b) e (Some (kp_encryption_key a)) =
         Ok (json_print P (session_message_to_value (Request mid v)))" "utf8_valid e"
    by (rule asked_text [where W = W and rnd = rnd and mx = 0 and start = 0 and turns = "[]" and ack_ms = 0 and resp_ms = 0,
          OF ok(1,2) S(2) body ok(4,3)])
  define A where "A = (idle S)\<lparr>pt_session := (sending S e)\<lparr>ss_control := c\<rparr>, pt_asked := [(mid, v)]\<rparr>"
  have "party_step P Inner (idle S) A"
    using party_ask [where P = P and p = "idle S" and W = W and rnd = rnd and uuid = mid and mx = 0 and start = 0 and turns = "[]"
        and message = v and ack_ms = 0 and resp_ms = 0] by (simp add: A_def e(1))
  then have cA: "carried_from P a b A (idle M)"
    using carried_swap [OF carried_step [OF carried_swap [OF S(1)]]] by simp
  define M1 where "M1 = channel_message e M"
  have "e \<in> set (dc_sent (ss_transport (pt_session A)))" by (simp add: A_def)
  then have t: "carried_from P a b A
      ((idle M)\<lparr>pt_session := snd (handle_session_frame P M1 (json_print P (session_message_to_value (Request mid v)))),
         pt_jobs := (if is_ok (fst (dispatch_request M1 v)) then [(mid, v)] else [])\<rparr>)" "linked P b a M1"
    using carried_text [OF cA _ e(3) _ _ body e(2)] S(3) by (simp_all add: M1_def serving_def)
  have acc: "is_ok (fst (dispatch_request M1 v))" "linked P b a (snd (dispatch_request M1 v))"
    using dispatch_accepts [OF t(2)] S(3) by (simp_all add: M1_def serving_def)
  have "handle_session_frame P M1 (json_print P (session_message_to_value (Request mid v))) = dispatch_request M1 v"
    using session_message_from_text [OF body] by (simp add: handle_session_frame_def)
  with t(1) acc(1) have cB: "carried_from P a b A ((idle M)\<lparr>pt_session := snd (dispatch_request M1 v), pt_jobs := [(mid, v)]\<rparr>)"
    by simp
  have "ss_signaling (snd (dispatch_request M1 v)) = ss_signaling M"
    by (simp add: M1_def dispatch_request_def observe_request_def Let_def split: prod.splits sum.splits)
  moreover have "setup_begun (ss_transport (pt_session A))"
    using S(2) by (simp add: A_def serving_def sending_def setup_begun_def)
  ultimately show ?thesis
    using that [OF cB] acc(2) S(2) by (simp add: A_def serving_def)
qed

text \<open>Its handler returns, and the first party is handed the response.\<close>

lemma answer_carried:
  fixes W :: webrtc and rnd :: bytes
  assumes ok: "platform_ok P" "honest_pair P b a" "\<And>e. dc_send W e = Inr ()" "length rnd = 12"
    and body: "session_text_ok P (Response mid r)"
    and A: "carried_from P a b A B" "linked P a b (pt_session A)" "setup_begun (ss_transport (pt_session A))"
    and B: "linked P b a (pt_session B)" "pt_jobs B = (mid, v) # js"
  obtains A' B' where "carried_from P a b A' B'" "linked P a b (pt_session A')" "linked P b a (pt_session B')"
    "party_layer A' = party_layer A" "party_layer B' = party_layer B" "pt_asked A' = pt_asked A"
    "pt_answered B' = pt_answered B @ [(mid, v, Inr r)]"
    "ss_response_tx (pt_session A') = ss_response_tx (pt_session A) @ [Response mid r]"
proof -
  obtain e where e: "send_session_message P W rnd (pt_session B) (Response mid r) = (Ok (), sending (pt_session B) e)"
      "peer_decrypt P (kp_decryption_key a) e (Some (kp_encryption_key b)) =
         Ok (json_print P (session_message_to_value (Response mid r)))"
    by (rule message_sent [OF ok(1,2) B(1) body ok(4,3)])
  have utf8: "utf8_valid e" by (rule sent_utf8 [OF _ e(1)]) (use ok(1) in \<open>simp add: platform_ok_def\<close>)
  define B' where "B' = B\<lparr>pt_session := on_control drop_permit (sending (pt_session B) e), pt_jobs := js,
      pt_answered := pt_answered B @ [(mid, v, Inr r)]\<rparr>"
  have "party_step P Inner B B'"
    using party_answer [where p = B and as = "[]" and mid = mid and v = v and bs = js and P = P and W = W and rnd = rnd
        and outcome = "Inr r"] B(2) e(1) by (simp add: B'_def reply_def)
  with A(1) have cB: "carried_from P a b A B'" by (rule carried_step) simp
  define S where "S = channel_message e (pt_session A)"
  define A' where "A' = A\<lparr>pt_session := S\<lparr>ss_response_tx := ss_response_tx S @ [Response mid r]\<rparr>\<rparr>"
  have "e \<in> set (dc_sent (ss_transport (pt_session B')))" by (simp add: B'_def)
  then have u: "carried_from P b a B'
      (A\<lparr>pt_session := snd (handle_session_frame P S (json_print P (session_message_to_value (Response mid r)))),
         pt_jobs := pt_jobs A\<rparr>)" "linked P a b S"
    using carried_text [OF carried_swap [OF cB] _ utf8 A(3,2) body e(2)] by (simp_all add: S_def)
  have "snd (handle_session_frame P S (json_print P (session_message_to_value (Response mid r)))) =
      S\<lparr>ss_response_tx := ss_response_tx S @ [Response mid r]\<rparr>"
    using session_message_from_text [OF body] by (simp add: handle_session_frame_def)
  with u(1) have cA: "carried_from P a b A' B'" using carried_swap by (simp add: A'_def)
  show ?thesis
  proof (rule that [OF cA])
    show "linked P a b (pt_session A')" using u(2) by (simp add: A'_def linked_def)
    show "linked P b a (pt_session B')" using B(1) by (simp add: B'_def)
  qed (simp_all add: A'_def B'_def S_def)
qed

end
