(* ===== verification/Provider.thy ===== *)
theory Provider
  imports Json
begin

text \<open>
  The JSON-RPC provider (crates/openlv/src/provider/jsonrpc/mod.rs) and the Alloy transports
  on top of it (alloy_1.rs, alloy_2.rs, which differ only in the version of the library).
  Sending a request over the session is an argument that threads a state; the decoder of a
  response packet belongs to the library and is an argument too.
\<close>

section \<open>Exchange\<close>

definition INTERNAL_ERROR_CODE :: int where "INTERNAL_ERROR_CODE = -32603"

datatype exchange_error = Session_error openlv_error | InvalidResponse string

definition settle :: "json \<Rightarrow> openlv_error + json \<Rightarrow> exchange_error + json" where
  "settle ident outcome =
     (case outcome of
        Inl RequestFailed \<Rightarrow>
          Inr (obj [(''jsonrpc'', JString ''2.0''), (''id'', ident),
                    (''error'', obj [(''code'', JNumber (NegInt INTERNAL_ERROR_CODE)),
                                     (''message'', JString ''Internal error'')])])
      | Inl e \<Rightarrow> Inl (Session_error e)
      | Inr response \<Rightarrow>
          if json_index response ''jsonrpc'' \<noteq> JString ''2.0''
            then Inl (InvalidResponse ''`jsonrpc` is missing or not \"2.0\"'')
          else if json_get response ''id'' \<noteq> Some ident
            then Inl (InvalidResponse ''`id` is missing or differs from the request'')
          else Inr response)"

definition exchange ::
  "('s \<Rightarrow> json \<Rightarrow> (openlv_error + json) \<times> 's) \<Rightarrow> 's \<Rightarrow> json \<Rightarrow> (exchange_error + json) \<times> 's" where
  "exchange send s request =
     (let ident = json_index request ''id'' in
      case send s request of (outcome, s') \<Rightarrow> (settle ident outcome, s'))"

section \<open>The Alloy transport\<close>

datatype transport_failure = Not_json string | Exchange_failed exchange_error | Not_a_response string

definition dispatch_one ::
  "(string \<Rightarrow> string + json) \<Rightarrow> (json \<Rightarrow> string + 'r) \<Rightarrow> ('s \<Rightarrow> json \<Rightarrow> (openlv_error + json) \<times> 's)
    \<Rightarrow> 's \<Rightarrow> string \<Rightarrow> (transport_failure + 'r) \<times> 's" where
  "dispatch_one parse decode send s req =
     (case parse req of
        Inl e \<Rightarrow> (Inl (Not_json e), s)
      | Inr request \<Rightarrow>
        (case exchange send s request of
           (Inl e, s') \<Rightarrow> (Inl (Exchange_failed e), s')
         | (Inr response, s') \<Rightarrow> (map_err Not_a_response (decode response), s')))"

datatype request_packet = Single string | Batch "string list"
datatype 'r response_packet = Single_response 'r | Batch_response "'r list"

fun dispatch_batch ::
  "(string \<Rightarrow> string + json) \<Rightarrow> (json \<Rightarrow> string + 'r) \<Rightarrow> ('s \<Rightarrow> json \<Rightarrow> (openlv_error + json) \<times> 's)
    \<Rightarrow> 's \<Rightarrow> string list \<Rightarrow> (transport_failure + 'r list) \<times> 's" where
  "dispatch_batch parse decode send s [] = (Inr [], s)"
| "dispatch_batch parse decode send s (req # reqs) =
     (case dispatch_one parse decode send s req of
        (Inl e, s') \<Rightarrow> (Inl e, s')
      | (Inr r, s') \<Rightarrow>
        (case dispatch_batch parse decode send s' reqs of
           (Inl e, s'') \<Rightarrow> (Inl e, s'')
         | (Inr rs, s'') \<Rightarrow> (Inr (r # rs), s'')))"

definition call ::
  "(string \<Rightarrow> string + json) \<Rightarrow> (json \<Rightarrow> string + 'r) \<Rightarrow> ('s \<Rightarrow> json \<Rightarrow> (openlv_error + json) \<times> 's)
    \<Rightarrow> 's \<Rightarrow> request_packet \<Rightarrow> (transport_failure + 'r response_packet) \<times> 's" where
  "call parse decode send s req =
     (case req of
        Single r \<Rightarrow>
          (case dispatch_one parse decode send s r of
             (Inl e, s') \<Rightarrow> (Inl e, s') | (Inr x, s') \<Rightarrow> (Inr (Single_response x), s'))
      | Batch rs \<Rightarrow>
          (case dispatch_batch parse decode send s rs of
             (Inl e, s') \<Rightarrow> (Inl e, s') | (Inr xs, s') \<Rightarrow> (Inr (Batch_response xs), s')))"

section \<open>Properties\<close>

lemma settle_response:
  assumes "settle ident outcome = Inr r"
  shows "json_get r ''jsonrpc'' = Some (JString ''2.0'') \<and> json_get r ''id'' = Some ident"
  using assms
  by (auto simp: settle_def json_index_def split: sum.splits openlv_error.splits if_splits option.splits)



text \<open>The states a batch goes through: each request sees the state its predecessors left.\<close>

fun batch_states ::
  "(string \<Rightarrow> string + json) \<Rightarrow> (json \<Rightarrow> string + 'r) \<Rightarrow> ('s \<Rightarrow> json \<Rightarrow> (openlv_error + json) \<times> 's)
    \<Rightarrow> 's \<Rightarrow> string list \<Rightarrow> 's list" where
  "batch_states parse decode send s [] = []"
| "batch_states parse decode send s (req # reqs) =
     s # batch_states parse decode send (snd (dispatch_one parse decode send s req)) reqs"

text \<open>
  A batch is answered in order: the responses are those of its requests, one by one, and a
  request that fails is the last one sent.
\<close>

lemma batch_in_order:
  assumes "dispatch_batch parse decode send s reqs = (Inr rs, s')"
  shows "length rs = length reqs \<and>
    (\<forall>i < length reqs. fst (dispatch_one parse decode send (batch_states parse decode send s reqs ! i) (reqs ! i)) = Inr (rs ! i))"
  using assms
proof (induction reqs arbitrary: s rs)
  case (Cons req reqs)
  from Cons.prems obtain r s1 rs' where r: "dispatch_one parse decode send s req = (Inr r, s1)"
    "dispatch_batch parse decode send s1 reqs = (Inr rs', s')" "rs = r # rs'"
    by (auto split: prod.splits sum.splits)
  from Cons.IH [OF r(2)] r show ?case by (auto simp: nth_Cons split: nat.splits)
qed simp

end
