(* ===== verification/Wallet.thy ===== *)
theory Wallet
  imports Session_System Provider
begin

text \<open>
  The example programs: the wallet (examples/client/main.rs), a handler of JSON-RPC requests
  around a signer and the program that serves it, and the dApp (examples/app/main.rs). The
  signer and the hex decoder are arguments. A program is a step relation: its own next
  call, or a step its session makes meanwhile.
\<close>

section \<open>The wallet's request handler\<close>

record signer =
  address :: string
  sign_message_sync :: "bytes \<Rightarrow> string + string"

definition strip_prefix :: "string \<Rightarrow> string \<Rightarrow> string option" where
  "strip_prefix p s = (if take (length p) s = p then Some (drop (length p) s) else None)"

definition rpc_error :: "json_number \<Rightarrow> string \<Rightarrow> json" where
  "rpc_error code message = obj [(''code'', JNumber code), (''message'', JString message)]"

definition invalid_params :: "string \<Rightarrow> json" where
  "invalid_params message = rpc_error (NegInt (-32602)) message"

definition personal_sign :: "(string \<Rightarrow> string + bytes) \<Rightarrow> json \<Rightarrow> signer \<Rightarrow> json + json" where
  "personal_sign decode request K =
     (case Option.bind (json_get request ''params'') as_array of
        None \<Rightarrow> Inl (invalid_params ''personal_sign requires message and account parameters'')
      | Some [message, account] \<Rightarrow>
          (case (as_str message, as_str account) of
             (Some message, Some account) \<Rightarrow>
               if account \<noteq> address K then
                 Inl (rpc_error (PosInt 4100) ''Requested account is not available'')
               else
                 (case map_option decode (strip_prefix ''0x'' message) of
                    Some (Inr message) \<Rightarrow>
                      (case sign_message_sync K message of
                         Inr signature \<Rightarrow> Inr (JString signature)
                       | Inl _ \<Rightarrow> Inl (rpc_error (NegInt (-32603)) ''Internal error''))
                  | _ \<Rightarrow> Inl (invalid_params ''personal_sign message must be 0x-prefixed hex''))
           | _ \<Rightarrow> Inl (invalid_params ''personal_sign parameters must be strings''))
      | Some _ \<Rightarrow> Inl (invalid_params ''personal_sign requires exactly two parameters''))"

definition rpc_outcome :: "(string \<Rightarrow> string + bytes) \<Rightarrow> json \<Rightarrow> signer \<Rightarrow> json + json" where
  "rpc_outcome decode request K =
     (case Option.bind (json_get request ''method'') as_str of
        Some m \<Rightarrow>
          if m = ''eth_accounts'' then Inr (JArray [JString (address K)])
          else if m = ''eth_chainId'' then Inr (JString ''0x1'')
          else if m = ''personal_sign'' then personal_sign decode request K
          else Inl (rpc_error (NegInt (-32601)) (''Method '' @ m @ '' not found''))
      | None \<Rightarrow> Inl (rpc_error (NegInt (-32600)) ''Invalid request''))"

definition handle_rpc_request :: "(string \<Rightarrow> string + bytes) \<Rightarrow> json \<Rightarrow> signer \<Rightarrow> json" where
  "handle_rpc_request decode request K =
     (let ident = json_index request ''id'' in
      case rpc_outcome decode request K of
        Inr result \<Rightarrow> obj [(''jsonrpc'', JString ''2.0''), (''id'', ident), (''result'', result)]
      | Inl error \<Rightarrow> obj [(''jsonrpc'', JString ''2.0''), (''id'', ident), (''error'', error)])"

text \<open>The handlers the two programs install.\<close>

definition wallet_handler :: "(string \<Rightarrow> string + bytes) \<Rightarrow> signer \<Rightarrow> json \<Rightarrow> json res" where
  "wallet_handler decode K msg = Ok (handle_rpc_request decode msg K)"

definition app_handler :: "json \<Rightarrow> json res" where
  "app_handler msg =
     Ok (obj [(''result'', JString ''ok''), (''id'', json_index msg ''id''), (''jsonrpc'', JString ''2.0'')])"

section \<open>What the wallet answers\<close>

lemma strip_prefix_iff: "strip_prefix p s = Some t \<longleftrightarrow> s = p @ t"
  by (auto simp: strip_prefix_def) (metis append_take_drop_id)

lemma as_str_iff: "as_str v = Some s \<longleftrightarrow> v = JString s"
  by (cases v) simp_all

lemma as_array_iff: "as_array v = Some vs \<longleftrightarrow> v = JArray vs"
  by (cases v) simp_all

lemma personal_sign_Inr:
  "personal_sign decode request K = Inr v \<longleftrightarrow>
     (\<exists>h message signature. json_get request ''params'' = Some (JArray [JString (''0x'' @ h), JString (address K)]) \<and>
        decode h = Inr message \<and> sign_message_sync K message = Inr signature \<and> v = JString signature)"
  (is "_ = ?R")
proof
  show ?R if "personal_sign decode request K = Inr v"
    using that
    by (auto simp: personal_sign_def strip_prefix_iff as_str_iff as_array_iff bind_eq_Some_conv
        split: option.splits list.splits sum.splits if_splits)
  show "personal_sign decode request K = Inr v" if ?R
    using that by (auto simp: personal_sign_def strip_prefix_def)
qed

lemma handle_rpc_request_members:
  "json_get (handle_rpc_request decode request K) ''jsonrpc'' = Some (JString ''2.0'')"
  "json_get (handle_rpc_request decode request K) ''id'' = Some (json_index request ''id'')"
  "json_get (handle_rpc_request decode request K) ''result'' =
     (case rpc_outcome decode request K of Inr v \<Rightarrow> Some v | Inl _ \<Rightarrow> None)"
  "json_get (handle_rpc_request decode request K) ''error'' =
     (case rpc_outcome decode request K of Inr _ \<Rightarrow> None | Inl e \<Rightarrow> Some e)"
  by (simp_all add: handle_rpc_request_def Let_def split: sum.splits)

definition accepted :: "json \<Rightarrow> json \<Rightarrow> bool" where
  "accepted request response \<longleftrightarrow> settle (json_index request ''id'') (Inr response) = Inr response"

lemma handler_accepted:
  "accepted request (handle_rpc_request decode request K)"
  by (simp add: accepted_def settle_def json_index_def handle_rpc_request_members)

text \<open>
  C13. The wallet gives away exactly what it should: a response carries a result in three cases
  only, the accounts, the chain id, or a signature, and the signature is always that of the
  decoded message the request names together with the wallet's own account. Every other
  request is answered with an error. Whatever the request, the provider accepts the
  response as the JSON-RPC 2.0 response to it.
\<close>

theorem wallet_result_cases:
  "accepted request (handle_rpc_request decode request K) \<and>
   (json_get (handle_rpc_request decode request K) ''result'' = Some v \<longleftrightarrow>
     (json_get request ''method'' = Some (JString ''eth_accounts'') \<and> v = JArray [JString (address K)]) \<or>
     (json_get request ''method'' = Some (JString ''eth_chainId'') \<and> v = JString ''0x1'') \<or>
     (json_get request ''method'' = Some (JString ''personal_sign'') \<and>
      (\<exists>h message signature.
         json_get request ''params'' = Some (JArray [JString (''0x'' @ h), JString (address K)]) \<and>
         decode h = Inr message \<and> sign_message_sync K message = Inr signature \<and> v = JString signature))) \<and>
   (json_get (handle_rpc_request decode request K) ''result'' = None \<longleftrightarrow>
     json_get (handle_rpc_request decode request K) ''error'' \<noteq> None)"
proof -
  have "json_get (handle_rpc_request decode request K) ''result'' = Some v \<longleftrightarrow>
     (json_get request ''method'' = Some (JString ''eth_accounts'') \<and> v = JArray [JString (address K)]) \<or>
     (json_get request ''method'' = Some (JString ''eth_chainId'') \<and> v = JString ''0x1'') \<or>
     (json_get request ''method'' = Some (JString ''personal_sign'') \<and> personal_sign decode request K = Inr v)"
    by (auto simp: handle_rpc_request_members rpc_outcome_def as_str_iff bind_eq_Some_conv
        split: sum.splits option.splits if_splits)
  moreover have "json_get (handle_rpc_request decode request K) ''result'' = None \<longleftrightarrow>
     json_get (handle_rpc_request decode request K) ''error'' \<noteq> None"
    by (simp add: handle_rpc_request_members split: sum.splits)
  ultimately show ?thesis using handler_accepted by (simp add: personal_sign_Inr)
qed

section \<open>The programs\<close>

datatype phase_of_main =
    Main_start | Main_created | Main_connected | Main_shown | Main_linked | Main_closing
  | Main_done | Main_failed string | Main_panicked

text \<open>How a call that fails ends \<open>main\<close>, with what the program prints or returns.\<close>

definition after_call :: "string \<Rightarrow> phase_of_main \<Rightarrow> 'a res \<Rightarrow> phase_of_main" where
  "after_call label next_phase r =
     (case r of
        Inr _ \<Rightarrow> next_phase
      | Inl (Err e) \<Rightarrow> Main_failed (label @ error_to_string e)
      | Inl Panic \<Rightarrow> Main_panicked)"

type_synonym main_state = "phase_of_main \<times> (session \<times> nat) option"

definition main_runs :: "phase_of_main \<Rightarrow> bool" where
  "main_runs ph \<longleftrightarrow> ph \<in> {Main_created, Main_connected, Main_shown, Main_linked, Main_closing}"

definition args_nth :: "string list \<Rightarrow> nat \<Rightarrow> string option" where
  "args_nth args i = (if i < length args then Some (args ! i) else None)"

text \<open>
  The wallet. \<open>derived\<close> is the test account or why it cannot be derived. Once it has shown that
  it is connected, it subscribes to the requests its handler answers, and serves: a loop that
  only ends when the channel of requests is closed; a request, a warning that some were
  missed, and the tick every second leave everything as it is.
\<close>

inductive wallet_step :: "platform \<Rightarrow> uri_env \<Rightarrow> string list \<Rightarrow> (string + signer) \<Rightarrow> main_state \<Rightarrow> main_state \<Rightarrow> bool"
  for P :: platform and E :: uri_env and args :: "string list" and derived :: "string + signer" where
  wallet_usage: "args_nth args 1 = None \<Longrightarrow>
    wallet_step P E args derived (Main_start, None) (Main_failed ''usage: client <openlv://...>'', None)"
| wallet_no_account: "args_nth args 1 = Some url \<Longrightarrow> derived = Inl e \<Longrightarrow>
    wallet_step P E args derived (Main_start, None) (Main_failed (''Failed to derive test account: '' @ e), None)"
| wallet_not_created: "args_nth args 1 = Some url \<Longrightarrow> derived = Inr K \<Longrightarrow>
    on_request P E rid rkp rhk (wallet url) = Inl e \<Longrightarrow>
    wallet_step P E args derived (Main_start, None)
      (after_call ''Failed to create session: '' Main_created (Inl e :: unit res), None)"
| wallet_created: "args_nth args 1 = Some url \<Longrightarrow> derived = Inr K \<Longrightarrow>
    on_request P E rid rkp rhk (wallet url) = Ok S \<Longrightarrow>
    wallet_step P E args derived (Main_start, None) (Main_created, Some (S, 0))"
| wallet_connect: "session_connect P N now rnd S = (r, S') \<Longrightarrow>
    wallet_step P E args derived (Main_created, Some (S, n))
      (after_call ''Connection failed: '' Main_connected r, Some (S', n))"
| wallet_wait: "session_wait_for_link turns S = (Some r, S') \<Longrightarrow>
    wallet_step P E args derived (Main_connected, Some (S, n))
      (after_call ''Link failed: '' Main_shown r, Some (S', n))"
| wallet_subscribe: "wallet_step P E args derived (Main_shown, Some (S, n)) (Main_linked, Some (subscribe_requests S, n))"
| wallet_turn: "wallet_step P E args derived (Main_linked, Some s) (Main_linked, Some s)"
| wallet_requests_closed: "wallet_step P E args derived (Main_linked, Some s) (Main_closing, Some s)"
| wallet_close: "session_close P N W rnd ends S = (Some r, S') \<Longrightarrow>
    wallet_step P E args derived (Main_closing, Some (S, n)) (Main_done, Some (S', n))"
| wallet_meanwhile: "main_runs ph \<Longrightarrow> session_step P s s' \<Longrightarrow>
    wallet_step P E args derived (ph, Some s) (ph, Some s')"

definition app_config :: session_config where
  "app_config = config_server ''https://ntfy.sh/'' (config_protocol Ntfy dapp)"

definition app_request :: json where
  "app_request = obj [(''jsonrpc'', JString ''2.0''), (''method'', JString ''eth_chainId''),
     (''params'', JArray []), (''id'', JU64 1)]"

text \<open>The dApp. \<open>qr\<close> is the QR code library, which may refuse the URL.\<close>

inductive app_step :: "platform \<Rightarrow> uri_env \<Rightarrow> (string \<Rightarrow> string option) \<Rightarrow> main_state \<Rightarrow> main_state \<Rightarrow> bool"
  for P :: platform and E :: uri_env and qr :: "string \<Rightarrow> string option" where
  app_not_created: "on_request P E rid rkp rhk app_config = Inl e \<Longrightarrow>
    app_step P E qr (Main_start, None) (after_call [] Main_created (Inl e :: unit res), None)"
| app_created: "on_request P E rid rkp rhk app_config = Ok S \<Longrightarrow>
    app_step P E qr (Main_start, None) (Main_created, Some (S, 0))"
| app_connect: "session_connect P N now rnd S = (r, S') \<Longrightarrow>
    app_step P E qr (Main_created, Some (S, n)) (after_call [] Main_connected r, Some (S', n))"
| app_show: "app_step P E qr (Main_connected, Some (S, n))
    (case qr (session_uri_to_string E (ss_uri S)) of Some e \<Rightarrow> Main_failed e | None \<Rightarrow> Main_shown, Some (S, n))"
| app_wait: "session_wait_for_link turns S = (Some r, S') \<Longrightarrow>
    app_step P E qr (Main_shown, Some (S, n)) (after_call [] Main_linked r, Some (S', n))"
| app_send: "session_send P W rnd uuid mx start turns' S app_request = (Some r, S') \<Longrightarrow>
    app_step P E qr (Main_linked, Some (S, n)) (after_call [] Main_closing r, Some (S', n))"
| app_close: "session_close P N W rnd ends S = (Some r, S') \<Longrightarrow>
    app_step P E qr (Main_closing, Some (S, n)) (after_call [] Main_done r, Some (S', n))"
| app_meanwhile: "main_runs ph \<Longrightarrow> session_step P s s' \<Longrightarrow> app_step P E qr (ph, Some s) (ph, Some s')"

text \<open>What holds of both: the session is one that sessions reach, and \<open>main\<close> returns with it closed.\<close>

definition main_inv :: "platform \<Rightarrow> main_state \<Rightarrow> bool" where
  "main_inv P m \<longleftrightarrow>
     (case snd m of
        None \<Rightarrow> \<not> main_runs (fst m) \<and> fst m \<noteq> Main_done
      | Some s \<Rightarrow> reachable fresh_session (session_step P) s \<and>
          (fst m = Main_done \<longrightarrow> closed_flag (ss_control (fst s)) \<and> ss_close_result (fst s) \<noteq> None))"

abbreviation fresh_main :: "main_state \<Rightarrow> bool" where
  "fresh_main m \<equiv> m = (Main_start, None)"

lemma after_call_done: "after_call label nx r = Main_done \<Longrightarrow> nx = Main_done"
  by (simp add: after_call_def split: sum.splits fault.splits)

lemma after_call_failed: "\<not> main_runs (after_call label nx (Inl e)) \<and> after_call label nx (Inl e) \<noteq> Main_done"
  by (simp add: after_call_def main_runs_def split: fault.splits)

lemma main_inv_call:
  assumes "main_inv P (ph, Some (S, n))" "session_step P (S, n) (S', n')"
    "ph' = Main_done \<Longrightarrow> closed_flag (ss_control S') \<and> ss_close_result S' \<noteq> None"
  shows "main_inv P (ph', Some (S', n'))"
  using assms reach_step [of fresh_session "session_step P" "(S, n)" "(S', n')"] by (simp add: main_inv_def)

lemma main_inv_created: "on_request P E rid rkp rhk c = Ok S \<Longrightarrow> main_inv P (Main_created, Some (S, 0))"
  by (simp add: main_inv_def reach_init on_request_fresh)

lemma closed_flag_close: "closed_flag (close_control c)"
  by (simp add: close_control_def)

lemma closed_flag_wait: "closed_flag (snd (wait_for_tasks ends c)) = closed_flag c"
  by (simp add: wait_for_tasks_def Let_def)

lemma session_close_result:
  assumes "session_close P N W rnd ends S = (Some r, S')"
  shows "closed_flag (ss_control S') \<and> ss_close_result S' \<noteq> None"
proof -
  have "closed_flag (ss_control S')"
    using session_close_frame(4) [of P N W rnd ends S] assms by (auto simp: closed_flag_wait closed_flag_close)
  moreover have "ss_close_result S' \<noteq> None"
    using assms by (auto simp: session_close_def Let_def split: option.splits prod.splits if_splits)
  ultimately show ?thesis ..
qed

lemma main_inv_close:
  "main_inv P (ph, Some (S, n)) \<Longrightarrow> session_close P N W rnd ends S = (Some r, S') \<Longrightarrow> main_inv P (ph', Some (S', n))"
  by (erule main_inv_call) (use sess_close [of P S n N W rnd ends] session_close_result in simp_all)

lemma main_inv_connect:
  "main_inv P (ph, Some (S, n)) \<Longrightarrow> session_connect P N now rnd S = (r, S') \<Longrightarrow> ph' \<noteq> Main_done \<Longrightarrow>
   main_inv P (ph', Some (S', n))"
  by (erule main_inv_call) (use sess_connect [of P S n N now rnd] in simp_all)

lemma main_inv_wait:
  "main_inv P (ph, Some (S, n)) \<Longrightarrow> session_wait_for_link turns S = (r, S') \<Longrightarrow> ph' \<noteq> Main_done \<Longrightarrow>
   main_inv P (ph', Some (S', n))"
  by (erule main_inv_call) (use sess_wait [of P S n turns] in simp_all)

lemma main_inv_send:
  "main_inv P (ph, Some (S, n)) \<Longrightarrow> session_send P W rnd uuid mx start turns S v = (r, S') \<Longrightarrow> ph' \<noteq> Main_done \<Longrightarrow>
   main_inv P (ph', Some (S', n))"
  by (erule main_inv_call)
     (use sess_send [of P S n W rnd uuid mx start turns v DEFAULT_ACK_TIMEOUT_MS DEFAULT_RESPONSE_TIMEOUT_MS]
      in \<open>simp_all add: session_send_def\<close>)

lemma main_inv_subscribe:
  "main_inv P (ph, Some (S, n)) \<Longrightarrow> ph' \<noteq> Main_done \<Longrightarrow> main_inv P (ph', Some (subscribe_requests S, n))"
  by (erule main_inv_call) (use sess_observe [of P S n True] in \<open>simp_all add: subscribe_requests_def\<close>)

lemma main_inv_meanwhile:
  "main_inv P (ph, Some s) \<Longrightarrow> main_runs ph \<Longrightarrow> session_step P s s' \<Longrightarrow> main_inv P (ph, Some s')"
  using main_inv_call [of P ph "fst s" "snd s" "fst s'" "snd s'" ph] by (auto simp: main_runs_def)

lemma main_inv_failed: "main_inv P (Main_failed e, None)" "main_inv P (after_call label nx (Inl f), None)"
  using after_call_failed [of label nx f] by (simp_all add: main_inv_def main_runs_def)

lemmas main_inv_calls = main_inv_failed main_inv_created main_inv_connect main_inv_wait main_inv_send main_inv_close main_inv_meanwhile

interpretation wallet_main: inv_system fresh_main "wallet_step P E args derived" "main_inv P" for P E args derived
proof
  fix m m'
  show "main_inv P m" if "fresh_main m" using that by (simp add: main_inv_def main_runs_def)
  show "main_inv P m'" if inv: "main_inv P m" and step: "wallet_step P E args derived m m'"
    using step
  proof cases
    case (wallet_subscribe S n)
    then show ?thesis using inv main_inv_subscribe [of P Main_shown S n Main_linked] by simp
  qed (use inv in \<open>auto intro: main_inv_calls dest: after_call_done\<close>, auto simp: main_inv_def main_runs_def)
qed

interpretation app_main: inv_system fresh_main "app_step P E qr" "main_inv P" for P E qr
proof
  fix m m'
  show "main_inv P m" if "fresh_main m" using that by (simp add: main_inv_def main_runs_def)
  show "main_inv P m'" if inv: "main_inv P m" and step: "app_step P E qr m m'"
    using step inv
    by cases (auto intro: main_inv_calls dest: after_call_done split: option.splits,
              auto simp: main_inv_def main_runs_def split: option.splits)
qed

text \<open>A session of the wallet is for the host its URL names.\<close>

definition invited :: "platform \<Rightarrow> uri_env \<Rightarrow> string list \<Rightarrow> session \<Rightarrow> bool" where
  "invited P E args S \<longleftrightarrow>
     (\<exists>url u. args_nth args 1 = Some url \<and> session_uri_from_url E url = Ok (Version1 u) \<and>
        sp_h (props (ss_signaling S)) = key_hash u)"

lemma wallet_session_invited:
  assumes "args_nth args 1 = Some url" "on_request P E rid rkp rhk (wallet url) = Ok S"
  shows "invited P E args S"
  using assms
  by (auto simp: invited_def on_request_def wallet_def dapp_def config_defs connect_session_with_info_def
      signaling_layer_from_version1_def build_session_def new_layer_def Let_def split: session_uri.splits)

lemma wallet_step_session:
  assumes "wallet_step P E args derived (ph, Some s) (ph', x)"
  obtains s' where "x = Some s'" "s' = s \<or> session_step P s s'"
  using assms
proof cases
  case (wallet_connect N now rnd S r S' n)
  then show ?thesis using sess_connect [of P S n N now rnd] by (intro that) auto
next
  case (wallet_wait turns S r S' n)
  then show ?thesis using sess_wait [of P S n turns] by (intro that) auto
next
  case (wallet_close N W rnd ends S r S' n)
  then show ?thesis using sess_close [of P S n N W rnd ends] by (intro that) auto
next
  case (wallet_subscribe S n)
  then show ?thesis using sess_observe [of P S n True] by (intro that) (auto simp: subscribe_requests_def)
qed (use that in auto)

lemma wallet_invited:
  assumes "reachable fresh_main (wallet_step P E args derived) m"
  shows "\<forall>S n. snd m = Some (S, n) \<longrightarrow> invited P E args S"
  using assms
proof (induction rule: reachable.induct)
  case (reach_step m m')
  show ?case
  proof (cases "snd m")
    case None
    with reach_step.hyps(2) show ?thesis by cases (auto intro: wallet_session_invited)
  next
    case (Some s)
    obtain s' where s': "snd m' = Some s'" "s' = s \<or> session_step P s s'"
      using wallet_step_session [of P E args derived "fst m" s "fst m'" "snd m'"] reach_step.hyps(2) Some
      by (metis prod.collapse)
    have "session_inv P s"
      using wallet_main.reachable_inv [OF reach_step.hyps(1)] Some session_layer.reachable_inv
      by (simp add: main_inv_def)
    then have "props (ss_signaling (fst s')) = props (ss_signaling (fst s))"
      using s'(2) session_step_props [of P "fst s" "snd s" "fst s'" "snd s'"] by auto
    with reach_step.IH Some s'(1) show ?thesis by (cases s; cases s') (auto simp: invited_def)
  qed
qed simp

text \<open>
  C14. The wallet program, whatever its session and its peer do meanwhile, is only ever bound to
  the host of the URL it was started with: its session is one that sessions reach, and the
  peer key it records, where it is the client, has the hash in that URL. When its \<open>main\<close>
  returns, the session is closed and declines requests.
\<close>

theorem wallet_program_bound:
  assumes "reachable fresh_main (wallet_step P E args derived) (ph, Some (S, n))"
  shows "reachable fresh_session (session_step P) (S, n) \<and>
    (\<exists>url u. args_nth args 1 = Some url \<and> session_uri_from_url E url = Ok (Version1 u) \<and>
       (\<forall>k. relying_key (ss_signaling S) = Some k \<and> \<not> sp_is_host (props (ss_signaling S)) \<longrightarrow>
          hash_public_key P k = key_hash u)) \<and>
    (ph = Main_done \<longrightarrow> fst (dispatch_request S payload) = Fail SessionClosed)"
proof -
  have inv: "main_inv P (ph, Some (S, n))" by (rule wallet_main.reachable_inv [OF assms])
  then have S: "reachable fresh_session (session_step P) (S, n)" by (simp add: main_inv_def)
  then have "key_inv P (ss_signaling S)"
    using session_layer.reachable_inv by (force simp: session_inv_def layer_inv_def Let_def)
  moreover have "invited P E args S" using wallet_invited [OF assms] by simp
  ultimately show ?thesis
    using S inv by (auto simp: invited_def key_inv_def main_inv_def dispatch_request_def admit_handler_def)
qed

end
