(* ===== verification/Service.thy ===== *)
theory Service
  imports Linking Wallet
begin

text \<open>
  The whole way: a dApp and the wallet it invited link their sessions, the dApp's request
  reaches the wallet's handler, and what the wallet answers is the response that the
  provider gives to the dApp.
\<close>

section \<open>One request\<close>

text \<open>What the caller sees of a request, turn by turn, when both answers arrive in time.\<close>

definition answered_in_time :: "instant \<Rightarrow> instant \<Rightarrow> instant \<Rightarrow> instant \<Rightarrow> u64 \<Rightarrow> u64 \<Rightarrow> bool" where
  "answered_in_time mx start ta tr ack_ms resp_ms \<longleftrightarrow>
     start \<le> ta \<and> ta < start + unat ack_ms * 1000000 \<and> start + unat ack_ms * 1000000 \<le> mx \<and>
     tr < ta + unat resp_ms * 1000000 \<and> ta + unat resp_ms * 1000000 \<le> mx"

definition answer_turns :: "instant \<Rightarrow> instant \<Rightarrow> instant \<Rightarrow> session_message list \<Rightarrow> turn list" where
  "answer_turns start ta tr ms =
     [\<lparr>head_clock = start, received_value = Received (ms ! 0), after_clock = ta\<rparr>,
      \<lparr>head_clock = tr, received_value = Received (ms ! 1), after_clock = tr\<rparr>]"

text \<open>
  The frames of one request between two sessions: the request of \<open>A\<close>, the handler's frames of
  \<open>B\<close>, and the wait of \<open>A\<close> over what its sessions handed to the channel of responses.
\<close>

definition call_over ::
  "platform \<Rightarrow> webrtc \<Rightarrow> (nat \<Rightarrow> bytes) \<Rightarrow> string \<Rightarrow> (json \<Rightarrow> json res) \<Rightarrow> instant \<Rightarrow> instant \<Rightarrow> instant \<Rightarrow> instant \<Rightarrow> u64 \<Rightarrow> u64
    \<Rightarrow> session \<times> session \<Rightarrow> json \<Rightarrow> (openlv_error + json) \<times> session \<times> session" where
  "call_over P W r mid h mx start ta tr ack_ms resp_ms AB msg =
     (let A = fst AB; B = snd AB;
          A1 = snd (send_request P W (r 0) mid A msg);
          B1 = snd (handle_transport_payload P B (last (dc_sent (ss_transport A1))));
          B2 = handle_remote_request P W (r 1) (r 2) h B1 mid msg;
          frames = drop (length (dc_sent (ss_transport B1))) (dc_sent (ss_transport B2));
          A2 = fold (\<lambda>e S. snd (handle_transport_payload P S e)) frames A1;
          received = drop (length (ss_response_tx A1)) (ss_response_tx A2)
      in (case receive_response mx start mid ack_ms resp_ms (answer_turns start ta tr received) of
            Some (Inr v) \<Rightarrow> Inr v
          | Some (Inl (Err e)) \<Rightarrow> Inl e
          | _ \<Rightarrow> Inl ResponseChannelClosed, A2, B2))"

lemma call_over_answered:
  assumes ok: "platform_ok P" "honest_pair P a b" "honest_pair P b a" "\<And>e. dc_send W e = Inr ()" "\<And>j. length (r j) = 12"
    and texts: "session_text_ok P (Request mid msg)" "session_text_ok P (Ack mid)" "session_text_ok P (reply mid (h msg))"
    and A: "serving P a b A" and B: "serving P b a B"
    and h: "h msg = Ok v" and clock: "answered_in_time mx start ta tr ack_ms resp_ms"
  shows "fst (call_over P W r mid h mx start ta tr ack_ms resp_ms (A, B) msg) = Inr v"
proof -
  have h': "h msg \<noteq> panicked" using h by simp
  from request_answered [where W = W and mid = mid and h = h and msg = msg and start = start and ta = ta and mx = mx
      and tr = tr and ack_ms = ack_ms and resp_ms = resp_ms,
      OF ok(1-4) ok(5) [of 0] ok(5) [of 1] ok(5) [of 2] texts _ _ _ _ _ h', of A B]
  obtain A1 B1 e0 e1 e2 where e: "send_request P W (r 0) mid A msg = (Ok (), A1)"
    "dc_sent (ss_transport A1) = dc_sent (ss_transport A) @ [e0]" "handle_transport_payload P B e0 = (Ok (), B1)"
    "dc_sent (ss_transport (handle_remote_request P W (r 1) (r 2) h B1 mid msg)) = dc_sent (ss_transport B) @ [e1, e2]"
    "ss_response_tx (snd (handle_transport_payload P (snd (handle_transport_payload P A1 e1)) e2)) =
      ss_response_tx A @ [Ack mid, reply mid (h msg)]"
    "receive_response mx start mid ack_ms resp_ms
      [\<lparr>head_clock = start, received_value = Received (Ack mid), after_clock = ta\<rparr>,
       \<lparr>head_clock = tr, received_value = Received (reply mid (h msg)), after_clock = tr\<rparr>] = Some (Ok v)"
    using A B clock h by (auto simp: serving_def answered_in_time_def)
  have "dc_sent (ss_transport B1) = dc_sent (ss_transport B)"
    using handle_transport_payload_frame(3) [of P B e0] e(3) by simp
  moreover have "ss_response_tx A1 = ss_response_tx A"
    using e(1) by (auto simp: send_request_def send_session_message_def Let_def split: if_splits sum.splits prod.splits)
  ultimately show ?thesis using e by (simp add: call_over_def Let_def answer_turns_def)
qed

end
