(* ===== verification/Ffi.thy ===== *)
theory Ffi
  imports Session
begin

text \<open>
  The bridge to other languages (crates/openlv-ffi/src/lib.rs): failures as a kind and a
  message, the queue through which remote requests reach a native handler, states and
  options as JSON texts, and the creation of sessions from them. The answer a waiting
  handler gets is kept in \<open>rq_answered\<close> once it was sent. The runtime that runs the work and
  the generated bindings are not modelled.
\<close>

section \<open>Failures\<close>

datatype bridge_error = Failure (bridge_kind: string) (bridge_message: string)

fun error_kind :: "openlv_error \<Rightarrow> string" where
  "error_kind (InvalidUri _) = ''invalid_uri''"
| "error_kind (Signaling _) = ''signaling''"
| "error_kind (Transport _) = ''transport''"
| "error_kind (Session _) = ''session''"
| "error_kind SessionClosed = ''session_closed''"
| "error_kind RequestLimitReached = ''request_limit_reached''"
| "error_kind RequestFailed = ''request_failed''"
| "error_kind InvalidRequestTimeout = ''invalid_request_timeout''"
| "error_kind ResponseChannelClosed = ''response_channel_closed''"
| "error_kind (Encryption _) = ''encryption''"
| "error_kind (WireFrame _) = ''wire_frame''"
| "error_kind (ProtocolViolation _) = ''protocol_violation''"
| "error_kind (UnsupportedProtocol _) = ''unsupported_protocol''"
| "error_kind NoConnection = ''no_connection''"
| "error_kind (RequestTimeout _) = ''request_timeout''"
| "error_kind (Other _) = ''other''"

definition bridge_error_from :: "openlv_error \<Rightarrow> bridge_error" where
  "bridge_error_from e = Failure (error_kind e) (error_to_string e)"

text \<open>
  The conversion at a \<open>?\<close>; a panic is not converted. Work on the runtime that panics ends its
  task, and \<open>on_runtime\<close> reports the join error, whose text \<open>je\<close> is the runtime's.
\<close>

definition converted :: "'a res \<Rightarrow> bridge_error option + 'a" where
  "converted r =
     map_err (\<lambda>f. case f of Err e \<Rightarrow> Some (bridge_error_from e) | Panic \<Rightarrow> None) r"

definition on_runtime :: "string \<Rightarrow> bridge_error option + 'a \<Rightarrow> bridge_error + 'a" where
  "on_runtime je r =
     map_err (\<lambda>x. case x of Some b \<Rightarrow> b | None \<Rightarrow> Failure ''other'' je) r"

abbreviation bridged :: "string \<Rightarrow> 'a res \<Rightarrow> bridge_error + 'a" where
  "bridged je r \<equiv> on_runtime je (converted r)"

section \<open>The queue of requests\<close>

type_synonym answer = "openlv_error + string"

record requests =
  rq_next_id :: u64
  rq_pending :: "u64 set"
  rq_queue :: "(u64 \<times> string) list"
  rq_stop :: bool
  rq_answered :: "(u64 \<times> answer) list"

definition new_requests :: requests where
  "new_requests = \<lparr>rq_next_id = 0, rq_pending = {}, rq_queue = [], rq_stop = False, rq_answered = []\<rparr>"

text \<open>
  \<open>handle\<close> up to its await: the id is taken in any case, then the request is queued unless the
  queue has stopped. The receiving end lives as long as the queue, so that sending to it
  cannot fail.
\<close>

definition handle_begin :: "string \<Rightarrow> requests \<Rightarrow> u64 res \<times> requests" where
  "handle_begin message R =
     (let i = rq_next_id R; R1 = R\<lparr>rq_next_id := i + 1\<rparr> in
      if rq_stop R1 then (Fail SessionClosed, R1)
      else (Ok i, R1\<lparr>rq_pending := insert i (rq_pending R1), rq_queue := rq_queue R1 @ [(i, message)]\<rparr>))"

text \<open>What \<open>handle\<close> returns when its wait ends, with an answer or because the sender was dropped.\<close>

definition handle_result :: "platform \<Rightarrow> answer option \<Rightarrow> json res" where
  "handle_result P a =
     (case a of
        None \<Rightarrow> Fail SessionClosed
      | Some (Inl e) \<Rightarrow> Fail e
      | Some (Inr answer_text) \<Rightarrow> map_err (\<lambda>e. Err (Other e)) (json_parse P answer_text))"

text \<open>The core cancels a request, or it was answered: its guard removes the entry.\<close>

definition drop_pending :: "u64 \<Rightarrow> requests \<Rightarrow> requests" where
  "drop_pending i R = R\<lparr>rq_pending := rq_pending R - {i}\<rparr>"

text \<open>
  \<open>next\<close>: requests that are no longer pending are skipped. \<open>Waiting\<close> is the queue without a
  request to hand out.
\<close>

datatype next_result = Stopped | Waiting | Next u64 string

fun next_loop :: "u64 set \<Rightarrow> (u64 \<times> string) list \<Rightarrow> next_result \<times> (u64 \<times> string) list" where
  "next_loop pending [] = (Waiting, [])"
| "next_loop pending ((i, m) # rest) = (if i \<in> pending then (Next i m, rest) else next_loop pending rest)"

definition next_pending :: "requests \<Rightarrow> next_result \<times> requests" where
  "next_pending R =
     (if rq_stop R then (Stopped, R)
      else (case next_loop (rq_pending R) (rq_queue R) of (r, q) \<Rightarrow> (r, R\<lparr>rq_queue := q\<rparr>)))"

definition stop_requests :: "requests \<Rightarrow> requests" where
  "stop_requests R = R\<lparr>rq_stop := True, rq_pending := {}\<rparr>"

text \<open>The waiting handler may be gone between the removal and the sending: \<open>alive\<close> says it is not.\<close>

definition reply_request :: "bool \<Rightarrow> u64 \<Rightarrow> answer \<Rightarrow> requests \<Rightarrow> (bridge_error + unit) \<times> requests" where
  "reply_request alive i a R =
     (if i \<notin> rq_pending R then (Inl (Failure ''session'' ''Request is no longer pending''), R)
      else
        let R1 = R\<lparr>rq_pending := rq_pending R - {i}\<rparr> in
        if alive then (Inr (), R1\<lparr>rq_answered := rq_answered R1 @ [(i, a)]\<rparr>)
        else (Inl (Failure ''session'' ''Request is no longer pending''), R1))"

definition fail_request :: "bool \<Rightarrow> u64 \<Rightarrow> requests \<Rightarrow> (bridge_error + unit) \<times> requests" where
  "fail_request alive i R = reply_request alive i (Inl (Other ''native request handler failed'')) R"

section \<open>Options and states as JSON\<close>

definition try_peer_info :: "peer_info \<Rightarrow> bridge_error + peer_info" where
  "try_peer_info i = rbind (map_err (Failure ''session'') (validate_peer_info i)) (\<lambda>_. Inr i)"

record session_options =
  op_session_id :: "string option"
  op_protocol :: "string option"
  op_server :: "string option"
  op_handshake_key :: "string option"
  op_peer_info :: "peer_info option"

definition session_options_from_value :: "json \<Rightarrow> session_options option" where
  "session_options_from_value v =
     (case struct_fields [''session_id'', ''protocol'', ''server'', ''handshake_key'', ''peer_info''] v of
        Some [a, b, c, d, e] \<Rightarrow>
          Option.bind (opt_field as_str a) (\<lambda>a'.
          Option.bind (opt_field as_str b) (\<lambda>b'.
          Option.bind (opt_field as_str c) (\<lambda>c'.
          Option.bind (opt_field as_str d) (\<lambda>d'.
          Option.bind (opt_field peer_info_from_value e) (\<lambda>e'.
          Some \<lparr>op_session_id = a', op_protocol = b', op_server = c', op_handshake_key = d', op_peer_info = e'\<rparr>)))))
      | _ \<Rightarrow> None)"

definition parse_json :: "platform \<Rightarrow> (json \<Rightarrow> 'a option) \<Rightarrow> string \<Rightarrow> bridge_error + 'a" where
  "parse_json P dec s =
     rbind (map_err (Failure ''other'') (json_parse P s)) (\<lambda>v.
       ok_or (Failure ''other'' (json_error P v)) (dec v))"

definition with_option :: "'a option \<Rightarrow> ('a \<Rightarrow> 'b \<Rightarrow> 'b) \<Rightarrow> 'b \<Rightarrow> 'b" where
  "with_option x f c = (case x of Some v \<Rightarrow> f v c | None \<Rightarrow> c)"

record bridge_session =
  bs_inner :: session
  bs_requests :: requests

definition bridge_create ::
  "string \<Rightarrow> platform \<Rightarrow> uri_env \<Rightarrow> bytes \<Rightarrow> bytes \<Rightarrow> bytes \<Rightarrow> session_config \<Rightarrow> bridge_error + bridge_session" where
  "bridge_create je P E rid rkp rhk c =
     rbind (bridged je (on_request P E rid rkp rhk c)) (\<lambda>S. Inr \<lparr>bs_inner = S, bs_requests = new_requests\<rparr>)"

definition create_dapp ::
  "string \<Rightarrow> platform \<Rightarrow> uri_env \<Rightarrow> bytes \<Rightarrow> bytes \<Rightarrow> bytes \<Rightarrow> string \<Rightarrow> bridge_error + bridge_session" where
  "create_dapp je P E rid rkp rhk options_json =
     rbind (parse_json P session_options_from_value options_json) (\<lambda>ops.
     rbind (case op_peer_info ops of
              Some i \<Rightarrow> rbind (try_peer_info i) (\<lambda>i'. Inr (Some i')) | None \<Rightarrow> Inr None) (\<lambda>peer.
     let c1 = with_option (op_session_id ops) config_session_id dapp;
         c2 = with_option (op_protocol ops) (\<lambda>p. config_protocol (protocol_from E p)) c1;
         c3 = with_option (op_server ops) config_server c2 in
     rbind (case op_handshake_key ops of
              Some k \<Rightarrow> rbind (bridged je (from_hex k)) (\<lambda>hk. Inr (config_handshake_key hk c3))
            | None \<Rightarrow> Inr c3) (\<lambda>c4.
     bridge_create je P E rid rkp rhk (with_option peer config_info c4))))"

definition create_wallet ::
  "string \<Rightarrow> platform \<Rightarrow> uri_env \<Rightarrow> bytes \<Rightarrow> string \<Rightarrow> string \<Rightarrow> bridge_error + bridge_session" where
  "create_wallet je P E rkp uri peer_info_json =
     rbind (parse_json P (\<lambda>v. opt_field peer_info_from_value (Some v)) peer_info_json) (\<lambda>peer.
     rbind (case peer of
              Some i \<Rightarrow> rbind (try_peer_info i) (\<lambda>i'. Inr (config_info i' (wallet uri)))
            | None \<Rightarrow> Inr (wallet uri)) (\<lambda>c.
     bridge_create je P E [] rkp [] c))"

definition parse_session_uri :: "platform \<Rightarrow> uri_env \<Rightarrow> string \<Rightarrow> bridge_error option + string" where
  "parse_session_uri P E url =
     rbind (converted (session_uri_from_url E url)) (\<lambda>uri.
     case uri of Version1 u \<Rightarrow>
       Inr (json_print P (obj
         [(''session_id'', JString (session_id u)), (''key_hash'', JString (key_hash u)),
          (''handshake_key'', JString (to_hex (shared_key u))),
          (''protocol'', JString (protocol_to_string (signaling_protocol u))),
          (''server'', JString (signaling_server u))])))"

text \<open>
  \<open>next_request\<close>: a closed session has no further requests, otherwise the queue is asked; the
  inner \<open>None\<close> of the result is the end of the requests, the outer one a call that still waits.
\<close>

definition next_request ::
  "platform \<Rightarrow> bridge_session \<Rightarrow> string option option \<times> bridge_session" where
  "next_request P B =
     (if session_closed (bs_inner B) then (Some None, B)
      else (case next_pending (bs_requests B) of (r, R) \<Rightarrow>
        ((case r of
            Stopped \<Rightarrow> Some None
          | Waiting \<Rightarrow> None
          | Next i m \<Rightarrow> Some (Some (json_print P (obj [(''id'', JU64 i), (''message'', JString m)])))),
         B\<lparr>bs_requests := R\<rparr>)))"

definition bridge_respond ::
  "bool \<Rightarrow> u64 \<Rightarrow> string \<Rightarrow> bridge_session \<Rightarrow> (bridge_error + unit) \<times> bridge_session" where
  "bridge_respond alive i response B =
     (case reply_request alive i (Inr response) (bs_requests B) of (r, R) \<Rightarrow> (r, B\<lparr>bs_requests := R\<rparr>))"

definition bridge_fail :: "bool \<Rightarrow> u64 \<Rightarrow> bridge_session \<Rightarrow> (bridge_error + unit) \<times> bridge_session" where
  "bridge_fail alive i B =
     (case fail_request alive i (bs_requests B) of (r, R) \<Rightarrow> (r, B\<lparr>bs_requests := R\<rparr>))"

definition bridge_shutdown ::
  "string \<Rightarrow> platform \<Rightarrow> network \<Rightarrow> webrtc \<Rightarrow> bytes \<Rightarrow> nat list \<Rightarrow> bridge_session
    \<Rightarrow> (bridge_error + unit) option \<times> bridge_session" where
  "bridge_shutdown je P N W rnd ends B =
     (case session_close P N W rnd ends (bs_inner B) of (r, S) \<Rightarrow>
        (map_option (bridged je) r, \<lparr>bs_inner = S, bs_requests = stop_requests (bs_requests B)\<rparr>))"

definition bridge_send_with_timeouts ::
  "string \<Rightarrow> platform \<Rightarrow> webrtc \<Rightarrow> bytes \<Rightarrow> string \<Rightarrow> instant \<Rightarrow> instant \<Rightarrow> turn list \<Rightarrow> bridge_session
    \<Rightarrow> string \<Rightarrow> u64 \<Rightarrow> u64 \<Rightarrow> (bridge_error + string) option \<times> bridge_session" where
  "bridge_send_with_timeouts je P W rnd uuid mx start turns B m ack_ms resp_ms =
     (case parse_json P Some m of
        Inl e \<Rightarrow> (Some (Inl e), B)
      | Inr v \<Rightarrow>
          (case send_with_timeouts P W rnd uuid mx start turns (bs_inner B) v ack_ms resp_ms of (r, S) \<Rightarrow>
             (map_option (\<lambda>x. rbind (bridged je x) (\<lambda>response. Inr (json_print P response))) r,
              B\<lparr>bs_inner := S\<rparr>)))"

fun status_text :: "session_status \<Rightarrow> string" where
  "status_text Created = ''created''"
| "status_text Signaling_up = ''signaling''"
| "status_text Link_ready = ''ready''"
| "status_text Linking = ''linking''"
| "status_text Connected = ''connected''"
| "status_text Disconnected = ''disconnected''"

fun signaling_text :: "signal_state \<Rightarrow> string" where
  "signaling_text S_Standby = ''standby''"
| "signaling_text S_Connecting = ''connecting''"
| "signaling_text S_Ready = ''ready''"
| "signaling_text S_Handshake = ''handshake''"
| "signaling_text S_HandshakePartial = ''handshake_partial''"
| "signaling_text S_Encrypted = ''encrypted''"
| "signaling_text S_Error = ''error''"

definition opt_json :: "('a \<Rightarrow> json) \<Rightarrow> 'a option \<Rightarrow> json" where
  "opt_json enc x = (case x of Some v \<Rightarrow> enc v | None \<Rightarrow> JNull)"

definition peer_value :: "peer_info \<Rightarrow> json" where
  "peer_value i = obj [(''identity'', JString (identity i)), (''name'', JString (peer_name i)),
     (''icon'', opt_json JString (icon i))]"

definition state_value :: "session_state_object \<Rightarrow> json" where
  "state_value st = obj
     [(''status'', JString (status_text (so_status st))),
      (''signaling'', opt_json (\<lambda>s. JString (signaling_text s)) (so_signaling st)),
      (''peer'', opt_json peer_value (so_peer_info st)),
      (''error'', opt_json JString (so_error st))]"

definition state_json :: "platform \<Rightarrow> session_state_object \<Rightarrow> string" where
  "state_json P st = json_print P (state_value st)"

text \<open>
  \<open>next_state\<close>: each turn sees that the session closed, a state, that some were missed, or that
  the channel closed.
\<close>

datatype state_turn = Session_over | Got session_state_object | Missed | Channel_over

fun next_state :: "platform \<Rightarrow> state_turn list \<Rightarrow> string option option" where
  "next_state P [] = None"
| "next_state P (t # ts) =
     (case t of
        Got st \<Rightarrow> Some (Some (state_json P st))
      | Missed \<Rightarrow> next_state P ts
      | _ \<Rightarrow> Some None)"

section \<open>Properties of the queue\<close>

inductive requests_step :: "requests \<Rightarrow> requests \<Rightarrow> bool" where
  rs_handle: "unat (rq_next_id R) + 1 < 2 ^ 64 \<Longrightarrow> requests_step R (snd (handle_begin m R))"
| rs_drop: "requests_step R (drop_pending i R)"
| rs_next: "requests_step R (snd (next_pending R))"
| rs_stop: "requests_step R (stop_requests R)"
| rs_reply: "requests_step R (snd (reply_request alive i a R))"

abbreviation fresh_requests :: "requests \<Rightarrow> bool" where
  "fresh_requests R \<equiv> R = new_requests"

text \<open>
  Ids are used once: what is pending, queued or answered was issued, nothing is answered
  twice, and what is answered is no longer pending.
\<close>

definition requests_inv :: "requests \<Rightarrow> bool" where
  "requests_inv R \<longleftrightarrow>
     (\<forall>i \<in> rq_pending R. i < rq_next_id R) \<and>
     (\<forall>(i, a) \<in> set (rq_answered R). i < rq_next_id R \<and> i \<notin> rq_pending R) \<and>
     distinct (map fst (rq_answered R)) \<and>
     (rq_stop R \<longrightarrow> rq_pending R = {})"

lemma next_id_step: "unat (i :: u64) + 1 < 2 ^ 64 \<Longrightarrow> j < i \<or> j = i \<Longrightarrow> j < i + 1"
  by (auto simp: word_less_nat_alt unat_word_ariths)

lemma requests_inv_step:
  assumes "requests_inv R" "requests_step R R'"
  shows "requests_inv R'"
  using assms(2)
proof cases
  case (rs_handle m)
  then have less: "j < rq_next_id R \<or> j = rq_next_id R \<Longrightarrow> j < rq_next_id R + 1" for j
    using next_id_step [of "rq_next_id R" j] by blast
  then show ?thesis
    using assms(1) rs_handle by (fastforce simp: requests_inv_def handle_begin_def Let_def)
next
  case (rs_next)
  then show ?thesis
    using assms(1) by (auto simp: requests_inv_def next_pending_def split: prod.splits)
next
  case (rs_reply alive i a)
  then show ?thesis
    using assms(1) by (force simp: requests_inv_def reply_request_def Let_def)
qed (use assms(1) in \<open>auto simp: requests_inv_def drop_pending_def stop_requests_def\<close>)

interpretation requests_sys: inv_system fresh_requests requests_step requests_inv
  by unfold_locales (simp add: requests_inv_def new_requests_def, rule requests_inv_step)

text \<open>
  Every remote request is answered at most once, and never under the id of another: an id
  handed out is not pending yet, no id is answered twice, a reply to a request that is not
  pending fails and changes nothing, and after \<open>stop\<close> nothing is queued, handed out or
  answered any more.
\<close>

lemma bridge_answers_once:
  assumes "reachable fresh_requests requests_step R"
  shows "rq_next_id R \<notin> rq_pending R \<and> distinct (map fst (rq_answered R)) \<and>
    (i \<notin> rq_pending R \<longrightarrow>
       reply_request alive i a R = (Inl (Failure ''session'' ''Request is no longer pending''), R)) \<and>
    (reply_request alive i a R = (Inr (), R') \<longrightarrow> fst (reply_request alive' i a' R') \<noteq> Inr ()) \<and>
    (rq_stop R \<longrightarrow> fst (handle_begin m R) = Fail SessionClosed \<and> next_pending R = (Stopped, R) \<and>
       fst (reply_request alive i a R) \<noteq> Inr ())"
proof -
  have inv: "requests_inv R" by (rule requests_sys.reachable_inv [OF assms])
  then have "rq_next_id R \<notin> rq_pending R" "distinct (map fst (rq_answered R))"
      "rq_stop R \<longrightarrow> rq_pending R = {}"
    by (auto simp: requests_inv_def)
  then show ?thesis
    by (auto simp: reply_request_def handle_begin_def next_pending_def Let_def split: if_splits)
qed

section \<open>States and failures tell what they stand for\<close>

lemma status_text_eq [simp]: "status_text a = status_text b \<longleftrightarrow> a = b"
  by (cases a; cases b) simp_all

lemma signaling_text_eq [simp]: "signaling_text a = signaling_text b \<longleftrightarrow> a = b"
  by (cases a; cases b) simp_all

lemma opt_json_eq:
  assumes "\<And>x y. enc x = enc y \<longleftrightarrow> x = y" "\<And>x. enc x \<noteq> JNull"
  shows "opt_json enc a = opt_json enc b \<longleftrightarrow> a = b"
  using assms assms(2) [symmetric] by (cases a; cases b) (simp_all add: opt_json_def)

lemma obj_eqD: "obj xs = obj ys \<Longrightarrow> map_of xs k = map_of ys k"
  by (metis fmlookup_of_list json.inject(5))

lemma peer_value_not_null [simp]: "peer_value i \<noteq> JNull"
  by (simp add: peer_value_def)

lemma peer_value_eq [simp]: "peer_value a = peer_value b \<longleftrightarrow> a = b"
proof
  assume eq: "peer_value a = peer_value b"
  from eq [unfolded peer_value_def, THEN obj_eqD, of "''identity''"]
    eq [unfolded peer_value_def, THEN obj_eqD, of "''name''"]
    eq [unfolded peer_value_def, THEN obj_eqD, of "''icon''"]
  show "a = b" by (cases a; cases b) (simp add: opt_json_eq)
qed simp

text \<open>
  The JSON text of a state tells the state: what another language reads determines the
  status, the signaling state, the peer and the error.
\<close>

lemma state_value_eq: "state_value a = state_value b \<longleftrightarrow> a = b"
proof
  assume eq: "state_value a = state_value b"
  from eq [unfolded state_value_def, THEN obj_eqD, of "''status''"]
    eq [unfolded state_value_def, THEN obj_eqD, of "''signaling''"]
    eq [unfolded state_value_def, THEN obj_eqD, of "''peer''"]
    eq [unfolded state_value_def, THEN obj_eqD, of "''error''"]
  show "a = b" by (cases a; cases b) (simp add: opt_json_eq)
qed simp

end
