(* ===== verification/Bridge.thy ===== *)
theory Bridge
  imports Ffi Session_System
begin

text \<open>
  The bridge as a whole (crates/openlv-ffi/src/lib.rs): the rest of its methods, the order in
  which it hands out requests, as a refinement of a plain queue, and everything that may
  happen to a bridged session as steps, under which its session and its queue only make
  steps of their own.
\<close>

section \<open>The remaining methods\<close>

definition bridge_uri :: "uri_env \<Rightarrow> bridge_session \<Rightarrow> string" where
  "bridge_uri E B = session_uri_to_string E (ss_uri (bs_inner B))"

definition bridge_session_id :: "bridge_session \<Rightarrow> string" where
  "bridge_session_id B = (case ss_uri (bs_inner B) of Version1 u \<Rightarrow> session_id u)"

definition bridge_state :: "platform \<Rightarrow> bridge_session \<Rightarrow> string" where
  "bridge_state P B = state_json P (session_state (bs_inner B))"

definition bridge_is_host :: "bridge_session \<Rightarrow> bool" where
  "bridge_is_host B = ss_is_host (bs_inner B)"

definition bridge_connect ::
  "string \<Rightarrow> platform \<Rightarrow> network \<Rightarrow> u64 \<Rightarrow> bytes \<Rightarrow> bridge_session \<Rightarrow> (bridge_error + unit) \<times> bridge_session" where
  "bridge_connect je P N now rnd B =
     (case session_connect P N now rnd (bs_inner B) of (r, S) \<Rightarrow> (bridged je r, B\<lparr>bs_inner := S\<rparr>))"

definition bridge_wait_for_link ::
  "string \<Rightarrow> (state_recv \<times> transport_state) list \<Rightarrow> bridge_session \<Rightarrow> (bridge_error + unit) option \<times> bridge_session" where
  "bridge_wait_for_link je turns B =
     (case session_wait_for_link turns (bs_inner B) of (r, S) \<Rightarrow> (map_option (bridged je) r, B\<lparr>bs_inner := S\<rparr>))"

definition bridge_send ::
  "string \<Rightarrow> platform \<Rightarrow> webrtc \<Rightarrow> bytes \<Rightarrow> string \<Rightarrow> instant \<Rightarrow> instant \<Rightarrow> turn list \<Rightarrow> bridge_session \<Rightarrow> string
    \<Rightarrow> (bridge_error + string) option \<times> bridge_session" where
  "bridge_send je P W rnd uuid mx start turns B m =
     (case parse_json P Some m of
        Inl e \<Rightarrow> (Some (Inl e), B)
      | Inr v \<Rightarrow>
          (case session_send P W rnd uuid mx start turns (bs_inner B) v of (r, S) \<Rightarrow>
             (map_option (\<lambda>x. rbind (bridged je x) (\<lambda>response. Inr (json_print P response))) r,
              B\<lparr>bs_inner := S\<rparr>)))"

text \<open>Dropping the bridged session stops its queue; the session inside may have other owners.\<close>

definition bridge_drop :: "bridge_session \<Rightarrow> bridge_session" where
  "bridge_drop B = B\<lparr>bs_requests := stop_requests (bs_requests B)\<rparr>"

text \<open>A subscription sees the states that are announced after it was made.\<close>

definition subscribe_states :: "bridge_session \<Rightarrow> nat" where
  "subscribe_states B = subscribe_state (bs_inner B)"

definition pending_states :: "nat \<Rightarrow> bridge_session \<Rightarrow> session_state_object list" where
  "pending_states sub B = drop sub (ss_state_tx (bs_inner B))"

section \<open>The queue that the bridge implements\<close>

record work_queue =
  wq_waiting :: "(u64 \<times> string) list"
  wq_taken :: "u64 set"
  wq_open :: bool
  wq_answers :: "(u64 \<times> answer) list"

definition fresh_queue :: "work_queue \<Rightarrow> bool" where
  "fresh_queue Q \<longleftrightarrow> Q = \<lparr>wq_waiting = [], wq_taken = {}, wq_open = True, wq_answers = []\<rparr>"

definition forget :: "u64 \<Rightarrow> work_queue \<Rightarrow> work_queue" where
  "forget i Q = Q\<lparr>wq_waiting := filter (\<lambda>x. fst x \<noteq> i) (wq_waiting Q), wq_taken := wq_taken Q - {i}\<rparr>"

inductive queue_step :: "work_queue \<Rightarrow> work_queue \<Rightarrow> bool" where
  q_arrive: "wq_open Q \<Longrightarrow> i \<notin> wq_taken Q \<Longrightarrow> i \<notin> fst ` set (wq_waiting Q) \<Longrightarrow>
    queue_step Q (Q\<lparr>wq_waiting := wq_waiting Q @ [(i, m)]\<rparr>)"
| q_take: "wq_open Q \<Longrightarrow> wq_waiting Q = (i, m) # rest \<Longrightarrow>
    queue_step Q (Q\<lparr>wq_waiting := rest, wq_taken := insert i (wq_taken Q)\<rparr>)"
| q_cancel: "queue_step Q (forget i Q)"
| q_answer: "i \<in> wq_taken Q \<or> i \<in> fst ` set (wq_waiting Q) \<Longrightarrow>
    queue_step Q ((forget i Q)\<lparr>wq_answers := wq_answers Q @ [(i, a)]\<rparr>)"
| q_stop: "queue_step Q (Q\<lparr>wq_waiting := [], wq_taken := {}, wq_open := False\<rparr>)"

text \<open>What of the queue counts: the requests that are still pending, in their order.\<close>

definition waiting :: "requests \<Rightarrow> (u64 \<times> string) list" where
  "waiting R = filter (\<lambda>x. fst x \<in> rq_pending R) (rq_queue R)"

definition queue_of :: "requests \<Rightarrow> work_queue" where
  "queue_of R = \<lparr>wq_waiting = waiting R, wq_taken = rq_pending R - fst ` set (rq_queue R),
     wq_open = (\<not> rq_stop R), wq_answers = rq_answered R\<rparr>"

definition ordered_inv :: "requests \<Rightarrow> bool" where
  "ordered_inv R \<longleftrightarrow> requests_inv R \<and> distinct (map fst (rq_queue R)) \<and> (\<forall>x \<in> set (rq_queue R). fst x < rq_next_id R)"

lemma next_loop_waiting:
  "next_loop pending q =
     (case filter (\<lambda>x. fst x \<in> pending) q of
        [] \<Rightarrow> (Waiting, [])
      | (i, m) # _ \<Rightarrow> (Next i m, tl (dropWhile (\<lambda>x. fst x \<notin> pending) q)))"
  by (induction pending q rule: next_loop.induct) (auto split: list.splits)

lemma next_pending_queue:
  "next_pending R =
     (if rq_stop R then (Stopped, R)
      else (case waiting R of
              [] \<Rightarrow> (Waiting, R\<lparr>rq_queue := []\<rparr>)
            | (i, m) # _ \<Rightarrow> (Next i m, R\<lparr>rq_queue := tl (dropWhile (\<lambda>x. fst x \<notin> rq_pending R) (rq_queue R))\<rparr>)))"
  by (auto simp: next_pending_def next_loop_waiting waiting_def split: list.splits)

lemma taken_split:
  assumes "waiting R = (i, m) # rest" "distinct (map fst (rq_queue R))"
  defines "q \<equiv> tl (dropWhile (\<lambda>x. fst x \<notin> rq_pending R) (rq_queue R))"
  shows "filter (\<lambda>x. fst x \<in> rq_pending R) q = rest"
    "rq_pending R - fst ` set q = insert i (rq_pending R - fst ` set (rq_queue R))"
    "distinct (map fst q)" "set q \<subseteq> set (rq_queue R)"
proof -
  obtain us vs where Q: "rq_queue R = us @ (i, m) # vs" "\<forall>u \<in> set us. fst u \<notin> rq_pending R" "i \<in> rq_pending R"
      "rest = filter (\<lambda>x. fst x \<in> rq_pending R) vs"
    using assms(1) by (auto simp: waiting_def filter_eq_Cons_iff)
  then have "q = vs" by (simp add: q_def dropWhile_append2)
  with Q assms(2) show "filter (\<lambda>x. fst x \<in> rq_pending R) q = rest"
    "rq_pending R - fst ` set q = insert i (rq_pending R - fst ` set (rq_queue R))"
    "distinct (map fst q)" "set q \<subseteq> set (rq_queue R)"
    by auto
qed

lemma queue_of_eqI:
  assumes "waiting R' = waiting R" "rq_pending R' - fst ` set (rq_queue R') = rq_pending R - fst ` set (rq_queue R)"
    "rq_stop R' = rq_stop R" "rq_answered R' = rq_answered R"
  shows "queue_step\<^sup>*\<^sup>* (queue_of R) (queue_of R')"
  using assms by (simp add: queue_of_def)

lemma queue_of_drop: "queue_of (R\<lparr>rq_pending := rq_pending R - {i}\<rparr>) = forget i (queue_of R)"
  by (auto simp: queue_of_def forget_def waiting_def conj_commute intro: filter_cong)

lemma queue_of_answer:
  "queue_of (R\<lparr>rq_pending := rq_pending R - {i}, rq_answered := as\<rparr>) = (forget i (queue_of R))\<lparr>wq_answers := as\<rparr>"
  unfolding queue_of_drop [symmetric] by (simp add: queue_of_def waiting_def)

lemma queue_of_step:
  assumes "ordered_inv R" "requests_step R R'"
  shows "queue_step\<^sup>*\<^sup>* (queue_of R) (queue_of R')"
  using assms(2)
proof cases
  case (rs_handle m)
  have fresh: "rq_next_id R \<notin> rq_pending R" "rq_next_id R \<notin> fst ` set (rq_queue R)"
    using assms(1) by (auto simp: ordered_inv_def requests_inv_def)
  show ?thesis
  proof (cases "rq_stop R")
    case True
    with rs_handle show ?thesis
      by (intro queue_of_eqI) (simp_all add: handle_begin_def waiting_def Let_def)
  next
    case False
    have "filter (\<lambda>x. fst x = rq_next_id R \<or> fst x \<in> rq_pending R) (rq_queue R) = waiting R"
      unfolding waiting_def using fresh(2) by (intro filter_cong) (force simp: image_iff)+
    then have "queue_of R' = (queue_of R)\<lparr>wq_waiting := wq_waiting (queue_of R) @ [(rq_next_id R, m)]\<rparr>"
      using False rs_handle fresh by (auto simp: queue_of_def handle_begin_def waiting_def Let_def)
    moreover have "queue_step (queue_of R) ((queue_of R)\<lparr>wq_waiting := wq_waiting (queue_of R) @ [(rq_next_id R, m)]\<rparr>)"
      using False fresh by (intro q_arrive) (auto simp: queue_of_def waiting_def)
    ultimately show ?thesis by auto
  qed
next
  case (rs_drop i)
  then show ?thesis using q_cancel [of "queue_of R" i] by (simp add: drop_pending_def queue_of_drop r_into_rtranclp)
next
  case rs_next
  show ?thesis
  proof (cases "rq_stop R \<or> waiting R = []")
    case True
    with rs_next show ?thesis
      by (intro queue_of_eqI) (force simp: next_pending_queue waiting_def filter_empty_conv)+
  next
    case False
    then obtain i m rest where w: "waiting R = (i, m) # rest" by (cases "waiting R") auto
    note split = taken_split [OF w, OF assms(1) [unfolded ordered_inv_def, THEN conjunct2, THEN conjunct1]]
    have "queue_of R' = (queue_of R)\<lparr>wq_waiting := rest, wq_taken := insert i (wq_taken (queue_of R))\<rparr>"
      using rs_next False w split by (simp add: queue_of_def next_pending_queue waiting_def)
    moreover have "queue_step (queue_of R) ((queue_of R)\<lparr>wq_waiting := rest, wq_taken := insert i (wq_taken (queue_of R))\<rparr>)"
      using False w by (intro q_take) (simp_all add: queue_of_def)
    ultimately show ?thesis by auto
  qed
next
  case rs_stop
  then show ?thesis
    using q_stop [of "queue_of R"] by (simp add: queue_of_def stop_requests_def waiting_def r_into_rtranclp)
next
  case (rs_reply alive i a)
  show ?thesis
  proof (cases "i \<in> rq_pending R")
    case True
    then have "i \<in> wq_taken (queue_of R) \<or> i \<in> fst ` set (wq_waiting (queue_of R))"
      by (auto simp: queue_of_def waiting_def)
    moreover have "wq_answers (queue_of R) = rq_answered R" by (simp add: queue_of_def)
    ultimately show ?thesis
      using q_answer [of i "queue_of R" a] q_cancel [of "queue_of R" i] True rs_reply
      by (cases alive) (simp_all add: reply_request_def queue_of_drop queue_of_answer r_into_rtranclp)
  qed (use rs_reply in \<open>simp add: reply_request_def\<close>)
qed

lemma ordered_inv_step:
  assumes "ordered_inv R" "requests_step R R'"
  shows "ordered_inv R'"
proof -
  have "requests_inv R'" using assms requests_inv_step by (auto simp: ordered_inv_def)
  moreover have "distinct (map fst (rq_queue R')) \<and> (\<forall>x \<in> set (rq_queue R'). fst x < rq_next_id R')"
    using assms(2)
  proof cases
    case (rs_handle m)
    then have "j < rq_next_id R \<or> j = rq_next_id R \<Longrightarrow> j < rq_next_id R + 1" for j
      using next_id_step [of "rq_next_id R" j] by blast
    with assms(1) rs_handle show ?thesis by (force simp: ordered_inv_def handle_begin_def Let_def)
  next
    case rs_next
    show ?thesis
    proof (cases "waiting R")
      case (Cons x rest)
      then show ?thesis
        using rs_next assms(1) taken_split(3,4) [of R "fst x" "snd x" rest]
        by (cases x) (auto simp: ordered_inv_def next_pending_queue split: if_splits)
    qed (use rs_next assms(1) in \<open>auto simp: ordered_inv_def next_pending_queue\<close>)
  qed (use assms(1) in \<open>auto simp: ordered_inv_def drop_pending_def stop_requests_def reply_request_def Let_def\<close>)
  ultimately show ?thesis by (simp add: ordered_inv_def)
qed

interpretation bridge_queue: refinement fresh_requests requests_step ordered_inv fresh_queue queue_step queue_of
proof
  fix R R'
  show "ordered_inv R" if "fresh_requests R"
    using that requests_sys.inv_init by (simp add: ordered_inv_def) (simp add: new_requests_def)
  show "fresh_queue (queue_of R)" if "fresh_requests R"
    using that by (simp add: fresh_queue_def queue_of_def waiting_def new_requests_def)
qed (rule ordered_inv_step queue_of_step; assumption)+

text \<open>
  C20. The bridge is a queue: whatever peers, native code and cancellations do, in any order, it
  behaves as one list of waiting requests. \<open>next\<close> hands out the oldest request that is still
  pending, none only where none is waiting, and each request at most once, since the one
  handed out is no longer waiting; after \<open>stop\<close> it hands out nothing.
\<close>

theorem bridge_refines_queue:
  assumes "reachable fresh_requests requests_step R"
  shows "reachable fresh_queue queue_step (queue_of R) \<and>
    fst (next_pending R) =
      (if rq_stop R then Stopped
       else case waiting R of [] \<Rightarrow> Waiting | (i, m) # _ \<Rightarrow> Next i m) \<and>
    (\<not> rq_stop R \<longrightarrow> waiting (snd (next_pending R)) = tl (waiting R)) \<and>
    distinct (map fst (waiting R))"
proof -
  have inv: "ordered_inv R" by (rule bridge_queue.reachable_inv [OF assms])
  then have dist: "distinct (map fst (rq_queue R))" by (simp add: ordered_inv_def)
  have "waiting (snd (next_pending R)) = tl (waiting R)" if "\<not> rq_stop R"
  proof (cases "waiting R")
    case (Cons x rest)
    then show ?thesis
      using that taken_split(1) [of R "fst x" "snd x" rest] dist
      by (cases x) (simp add: next_pending_queue, simp add: waiting_def)
  qed (use that in \<open>simp add: next_pending_queue waiting_def\<close>)
  moreover have "distinct (map fst (waiting R))" using dist by (simp add: waiting_def distinct_map_filter)
  ultimately show ?thesis
    using bridge_queue.abs_reachable [OF assms] by (auto simp: next_pending_queue split: list.splits)
qed

text \<open>
  C21. A remote request gets the native handler's answer: a request of the peer that finds
  nothing waiting is the next one the native code is given, under its id and with its text,
  and the text it answers with is what the peer's handler returns, read as JSON. A second
  answer is refused.
\<close>

theorem bridge_request_roundtrip:
  assumes "reachable fresh_requests requests_step R" "\<not> rq_stop R" "waiting R = []"
    "handle_begin message R = (Ok i, R1)" "next_pending R1 = (r, R2)"
    "reply_request True i (Inr answer_text) R2 = (r', R3)"
  shows "r = Next i message \<and> r' = Inr () \<and>
    handle_result P (map_of (rq_answered R3) i) = map_err (\<lambda>e. Err (Other e)) (json_parse P answer_text) \<and>
    fst (reply_request alive i a R3) \<noteq> Inr ()"
proof -
  have inv: "ordered_inv R" by (rule bridge_queue.reachable_inv [OF assms(1)])
  then have "rq_next_id R \<notin> rq_pending R" "rq_next_id R \<notin> fst ` set (rq_answered R)" "rq_next_id R \<notin> fst ` set (rq_queue R)"
    by (auto simp: ordered_inv_def requests_inv_def)
  moreover have R1: "i = rq_next_id R" "R1 = R\<lparr>rq_next_id := i + 1, rq_pending := insert i (rq_pending R),
      rq_queue := rq_queue R @ [(i, message)]\<rparr>"
    using assms(2,4) by (auto simp: handle_begin_def Let_def)
  ultimately have "waiting R1 = [(i, message)]"
    using assms(3) by (force simp: waiting_def filter_empty_conv)
  then have R2: "r = Next i message" "rq_pending R2 = rq_pending R1" "rq_answered R2 = rq_answered R1"
    using assms(2,5) R1 by (auto simp: next_pending_queue)
  then have "r' = Inr ()" "R3 = R2\<lparr>rq_pending := rq_pending R2 - {i}, rq_answered := rq_answered R @ [(i, Inr answer_text)]\<rparr>"
    using assms(6) R1 by (auto simp: reply_request_def Let_def)
  moreover have "map_of (rq_answered R) i = None"
    using \<open>rq_next_id R \<notin> fst ` set (rq_answered R)\<close> R1(1) by (simp add: map_of_eq_None_iff)
  ultimately show ?thesis
    using R2(1) by (simp add: handle_result_def reply_request_def map_add_def)
qed

text \<open>Two requests, the first of them cancelled by its peer.\<close>

definition crossed_requests :: requests where
  "crossed_requests = drop_pending 0 (snd (handle_begin ''b'' (snd (handle_begin ''a'' new_requests))))"

lemma crossed_requests_eq:
  "crossed_requests = \<lparr>rq_next_id = 2, rq_pending = {1}, rq_queue = [(0, ''a''), (1, ''b'')], rq_stop = False, rq_answered = []\<rparr>"
  by (auto simp: crossed_requests_def drop_pending_def handle_begin_def new_requests_def Let_def)

lemma crossed_requests_reachable: "reachable fresh_requests requests_step crossed_requests"
proof -
  let ?R1 = "snd (handle_begin ''a'' new_requests)"
  have "reachable fresh_requests requests_step new_requests" by (rule reach_init) simp
  moreover have "requests_step new_requests ?R1" by (rule rs_handle) (simp add: new_requests_def)
  ultimately have "reachable fresh_requests requests_step ?R1" by (rule reach_step)
  moreover have "requests_step ?R1 (snd (handle_begin ''b'' ?R1))"
    by (rule rs_handle) (simp add: new_requests_def handle_begin_def Let_def)
  ultimately have "reachable fresh_requests requests_step (snd (handle_begin ''b'' ?R1))" by (rule reach_step)
  then show ?thesis unfolding crossed_requests_def by (rule reach_step) (rule rs_drop)
qed

theorem bridge_refines_queue_witness:
  "fst (next_pending crossed_requests) = Next 1 ''b'' \<and> waiting (snd (next_pending crossed_requests)) = []"
  using bridge_refines_queue [OF crossed_requests_reachable]
  by (simp add: waiting_def) (simp add: crossed_requests_eq)

theorem bridge_request_roundtrip_witness:
  "\<exists>R1 R2 R3. handle_begin ''{}'' new_requests = (Ok 0, R1) \<and> next_pending R1 = (Next 0 ''{}'', R2) \<and>
     reply_request True 0 (Inr ''1'') R2 = (Inr (), R3) \<and> fst (reply_request True 0 (Inr ''2'') R3) \<noteq> Inr ()"
proof -
  let ?R1 = "snd (handle_begin ''{}'' new_requests)"
  let ?R2 = "snd (next_pending ?R1)"
  have "reachable fresh_requests requests_step new_requests" by (rule reach_init) simp
  moreover have "handle_begin ''{}'' new_requests = (Ok 0, ?R1)" by (simp add: handle_begin_def new_requests_def Let_def)
  ultimately show ?thesis
    using bridge_request_roundtrip [of new_requests "''{}''" 0 ?R1 "fst (next_pending ?R1)" ?R2 "''1''"
        "fst (reply_request True 0 (Inr ''1'') ?R2)" "snd (reply_request True 0 (Inr ''1'') ?R2)" _ True "Inr ''2''"]
    by (intro exI [of _ ?R1] exI [of _ ?R2] exI [of _ "snd (reply_request True 0 (Inr ''1'') ?R2)"])
       (simp add: new_requests_def waiting_def prod_eq_iff)
qed

section \<open>The bridged session\<close>

inductive bridge_step :: "platform \<Rightarrow> bridge_session \<times> nat \<Rightarrow> bridge_session \<times> nat \<Rightarrow> bool" for P :: platform where
  br_connect: "bridge_step P (B, n) (snd (bridge_connect je P N now rnd B), n)"
| br_wait: "bridge_step P (B, n) (snd (bridge_wait_for_link je turns B), n)"
| br_send: "bridge_step P (B, n) (snd (bridge_send je P W rnd uuid mx start turns' B m), n)"
| br_send_timeouts: "bridge_step P (B, n)
    (snd (bridge_send_with_timeouts je P W rnd uuid mx start turns' B m ack_ms resp_ms), n)"
| br_next: "bridge_step P (B, n) (snd (next_request P B), n)"
| br_respond: "bridge_step P (B, n) (snd (bridge_respond alive i response B), n)"
| br_fail: "bridge_step P (B, n) (snd (bridge_fail alive i B), n)"
| br_shutdown: "bridge_step P (B, n) (snd (bridge_shutdown je P N W rnd ends B), n)"
| br_drop: "bridge_step P (B, n) (bridge_drop B, n)"
| br_handle: "unat (rq_next_id (bs_requests B)) + 1 < 2 ^ 64 \<Longrightarrow>
    bridge_step P (B, n) (B\<lparr>bs_requests := snd (handle_begin m (bs_requests B))\<rparr>, n)"
| br_gone: "bridge_step P (B, n) (B\<lparr>bs_requests := drop_pending i (bs_requests B)\<rparr>, n)"
| br_session: "session_step P (bs_inner B, n) (S', n') \<Longrightarrow> bridge_step P (B, n) (B\<lparr>bs_inner := S'\<rparr>, n')"

definition fresh_bridge :: "bridge_session \<times> nat \<Rightarrow> bool" where
  "fresh_bridge b \<longleftrightarrow> fresh_session (bs_inner (fst b), snd b) \<and> bs_requests (fst b) = new_requests"

lemma bridge_create_fresh:
  assumes "bridge_create je P E rid rkp rhk c = Inr B"
  shows "fresh_bridge (B, 0)"
proof -
  obtain S where "on_request P E rid rkp rhk c = Ok S" "B = \<lparr>bs_inner = S, bs_requests = new_requests\<rparr>"
    using assms by (cases "on_request P E rid rkp rhk c") (auto simp: bridge_create_def on_runtime_def converted_def)
  then show ?thesis by (simp add: fresh_bridge_def on_request_fresh)
qed

lemma bridge_step_session:
  assumes "bridge_step P (B, n) (B', n')"
  shows "(session_step P)\<^sup>*\<^sup>* (bs_inner B, n) (bs_inner B', n')"
  using assms
proof cases
  case (br_connect je N now rnd)
  then show ?thesis
    using sess_connect [of P "bs_inner B" n N now rnd] by (auto simp: bridge_connect_def split_beta)
next
  case (br_wait je turns)
  then show ?thesis
    using sess_wait [of P "bs_inner B" n turns] by (auto simp: bridge_wait_for_link_def split_beta)
next
  case (br_send je W rnd uuid mx start turns' m)
  then show ?thesis
    using sess_send [of P "bs_inner B" n W rnd uuid mx start turns']
    by (cases "parse_json P Some m") (auto simp: bridge_send_def session_send_def split_beta)
next
  case (br_send_timeouts je W rnd uuid mx start turns' m ack_ms resp_ms)
  then show ?thesis
    using sess_send [of P "bs_inner B" n W rnd uuid mx start turns']
    by (cases "parse_json P Some m") (auto simp: bridge_send_with_timeouts_def split_beta)
next
  case (br_shutdown je N W rnd ends)
  then show ?thesis
    using sess_close [of P "bs_inner B" n N W rnd ends] by (auto simp: bridge_shutdown_def split_beta)
qed (auto simp: next_request_def bridge_respond_def bridge_fail_def bridge_drop_def split: prod.splits)

lemma bridge_step_requests:
  assumes "bridge_step P (B, n) (B', n')"
  shows "requests_step\<^sup>*\<^sup>* (bs_requests B) (bs_requests B')"
  using assms
proof cases
  case br_next
  then show ?thesis
    using rs_next [of "bs_requests B"] by (auto simp: next_request_def split_beta split: if_splits)
next
  case (br_respond alive i response)
  then show ?thesis
    using rs_reply [of "bs_requests B" alive i "Inr response"] by (auto simp: bridge_respond_def split_beta)
next
  case (br_fail alive i)
  then show ?thesis
    using rs_reply [of "bs_requests B" alive i] by (auto simp: bridge_fail_def fail_request_def split_beta)
next
  case (br_shutdown je N W rnd ends)
  then show ?thesis
    using rs_stop [of "bs_requests B"] by (auto simp: bridge_shutdown_def split_beta)
next
  case (br_send je W rnd uuid mx start turns' m)
  then show ?thesis by (cases "parse_json P Some m") (auto simp: bridge_send_def split_beta)
next
  case (br_send_timeouts je W rnd uuid mx start turns' m ack_ms resp_ms)
  then show ?thesis by (cases "parse_json P Some m") (auto simp: bridge_send_with_timeouts_def split_beta)
next
  case (br_handle m)
  then show ?thesis using rs_handle [of "bs_requests B" m] by (simp add: r_into_rtranclp)
qed (auto simp: bridge_connect_def bridge_wait_for_link_def bridge_drop_def split_beta intro: rs_drop rs_stop)

interpretation bridge_inner: refinement fresh_bridge "bridge_step P" "\<lambda>_. True"
  fresh_session "session_step P" "\<lambda>b. (bs_inner (fst b), snd b)" for P
  by unfold_locales (auto simp: fresh_bridge_def intro: bridge_step_session)

interpretation bridge_requests: refinement fresh_bridge "bridge_step P" "\<lambda>_. True"
  fresh_requests requests_step "\<lambda>b. bs_requests (fst b)" for P
  by unfold_locales (auto simp: fresh_bridge_def intro: bridge_step_requests)

text \<open>
  C19. Other languages get the same guarantees: under any calls of the bridge, in any order and
  with whatever its session does meanwhile, the session inside is one that sessions reach
  and the requests are a queue; and once \<open>shutdown\<close> has returned, native code is told that
  no request will come, every answer is refused, and sending fails with \<open>session_closed\<close>.
\<close>

theorem bridge_refines_session:
  assumes "reachable fresh_bridge (bridge_step P) (B, n)"
    "bridge_shutdown je P N W rnd ends B = (Some r, B')"
  shows "reachable fresh_session (session_step P) (bs_inner B', n) \<and>
    reachable fresh_queue queue_step (queue_of (bs_requests B')) \<and>
    next_request P B' = (Some None, B') \<and> fst (bridge_respond alive i response B') \<noteq> Inr () \<and>
    fst (bridge_fail alive i B') \<noteq> Inr () \<and>
    (\<forall>v. parse_json P Some m = Inr v \<longrightarrow>
       (\<exists>text'. fst (bridge_send je P W rnd uuid mx start turns B' m) = Some (Inl (Failure ''session_closed'' text'))))"
proof -
  have "bridge_step P (B, n) (B', n)" using br_shutdown [of P B n je N W rnd ends] assms(2) by simp
  with assms(1) have reach: "reachable fresh_bridge (bridge_step P) (B', n)" by (rule reach_step)
  obtain x where x: "session_close P N W rnd ends (bs_inner B) = (Some x, bs_inner B')"
    "bs_requests B' = stop_requests (bs_requests B)"
    using assms(2) by (auto simp: bridge_shutdown_def split: prod.splits)
  have flag: "closed_flag (ss_control (bs_inner B'))"
    using session_close_frame(4) [of P N W rnd ends "bs_inner B"] x(1)
    by (auto simp: close_control_def wait_for_tasks_def)
  have closed: "session_send P W rnd uuid mx start turns (bs_inner B') v = (Some (Fail SessionClosed), bs_inner B')" for v
    using closed_refuses [OF flag] by (simp add: session_send_def)
  have "reachable fresh_queue queue_step (queue_of (bs_requests B'))"
    using bridge_queue.abs_reachable bridge_requests.abs_reachable [OF reach] by simp
  then show ?thesis
    using bridge_inner.abs_reachable [OF reach] closed
    by (auto simp: x(2) next_request_def next_pending_def stop_requests_def bridge_respond_def bridge_fail_def
        fail_request_def reply_request_def bridge_send_def on_runtime_def converted_def bridge_error_from_def)
qed

end
