(* ===== verification/Loops.thy ===== *)
theory Loops
  imports Session_System
begin

text \<open>
  The four event loops of a session, as tasks that can end. A loop goes on while its receiver
  hands it something; three of them read a broadcast channel of 32 places, whose receiver
  reports \<open>Lagged\<close> when it was too slow, and end there as if the channel had been closed.
  The session with its loops refines the session of \<open>Session_System\<close>, in which a loop never
  ends; what no session does any more once a loop has ended is shown here.
\<close>

section \<open>Turns\<close>

text \<open>What \<open>recv\<close> gives: an item, the report that items were lost, or the end of the channel.\<close>

datatype 'a delivery = Item 'a | Lagged_behind | Shut_down

text \<open>One turn of each loop: whether the loop goes on, and the session after it.\<close>

definition signal_state_turn :: "webrtc \<Rightarrow> signal_state delivery \<Rightarrow> session \<Rightarrow> bool \<times> session" where
  "signal_state_turn W d S = (case d of Item st \<Rightarrow> (True, on_signal_state W st S) | _ \<Rightarrow> (False, S))"

definition signal_message_turn :: "webrtc \<Rightarrow> json delivery \<Rightarrow> session \<Rightarrow> bool \<times> session" where
  "signal_message_turn W d S = (case d of Item v \<Rightarrow> (True, on_signal_message W v S) | _ \<Rightarrow> (False, S))"

definition transport_state_turn :: "transport_state delivery \<Rightarrow> session \<Rightarrow> bool \<times> session" where
  "transport_state_turn d S = (case d of Item st \<Rightarrow> on_transport_state st S | _ \<Rightarrow> (False, S))"

text \<open>The transport's events come over a queue with one reader, which loses nothing.\<close>

definition transport_event_turn ::
  "platform \<Rightarrow> network \<Rightarrow> u64 \<Rightarrow> bytes \<Rightarrow> string \<Rightarrow> transport_event option \<Rightarrow> session \<Rightarrow> bool \<times> session" where
  "transport_event_turn P N now rnd uuid d S =
     (case d of Some ev \<Rightarrow> (True, on_transport_event P N now rnd uuid ev S) | None \<Rightarrow> (False, S))"

text \<open>A loop that nothing interrupts: its turns until it ends.\<close>

fun run_loop :: "('d \<Rightarrow> 's \<Rightarrow> bool \<times> 's) \<Rightarrow> 'd list \<Rightarrow> 's \<Rightarrow> bool \<times> 's" where
  "run_loop turn [] S = (True, S)"
| "run_loop turn (d # ds) S = (case turn d S of (True, S') \<Rightarrow> run_loop turn ds S' | (False, S') \<Rightarrow> (False, S'))"

definition run_signal_state_loop :: "webrtc \<Rightarrow> signal_state delivery list \<Rightarrow> session \<Rightarrow> bool \<times> session" where
  "run_signal_state_loop W = run_loop (signal_state_turn W)"

definition run_signal_message_loop :: "webrtc \<Rightarrow> json delivery list \<Rightarrow> session \<Rightarrow> bool \<times> session" where
  "run_signal_message_loop W = run_loop (signal_message_turn W)"

definition run_transport_state_loop :: "transport_state delivery list \<Rightarrow> session \<Rightarrow> bool \<times> session" where
  "run_transport_state_loop = run_loop transport_state_turn"

text \<open>After a report of lost items nothing that follows is looked at.\<close>

lemma run_loop_ends:
  assumes "\<And>S. turn d S = (False, S)"
  shows "run_loop turn (ds @ d # es) S = (False, snd (run_loop turn ds S))"
  by (induction ds arbitrary: S) (simp_all add: assms split: prod.splits bool.splits)

lemma lagged_loops_end:
  "run_signal_state_loop W (ds @ Lagged_behind # es) S = (False, snd (run_signal_state_loop W ds S))"
  "run_signal_message_loop W (vs @ Lagged_behind # ws) S = (False, snd (run_signal_message_loop W vs S))"
  "run_transport_state_loop (ts @ Lagged_behind # us) S = (False, snd (run_transport_state_loop ts S))"
  by (simp_all add: run_signal_state_loop_def run_signal_message_loop_def run_transport_state_loop_def run_loop_ends
      signal_state_turn_def signal_message_turn_def transport_state_turn_def)

section \<open>A session and its loops\<close>

record loops =
  lp_signal_state :: bool
  lp_signal_message :: bool
  lp_transport_state :: bool
  lp_transport_event :: bool

definition all_loops :: "bool \<Rightarrow> loops" where
  "all_loops b = \<lparr>lp_signal_state = b, lp_signal_message = b, lp_transport_state = b, lp_transport_event = b\<rparr>"

text \<open>Everything a session does outside its loops and \<open>connect\<close>.\<close>

inductive aside_step :: "platform \<Rightarrow> session \<times> nat \<Rightarrow> session \<times> nat \<Rightarrow> bool" for P :: platform where
  aside_resend: "aside_step P (S, n) (on_layer (resend P rnd (channel_publish P N (ss_channel S)) i) S, n)"
| aside_deadline: "live_tasks (ss_signaling S) i = Some Deadline \<Longrightarrow> aside_step P (S, n) (on_layer (deadline_expired i) S, n)"
| aside_task_end: "aside_step P (S, n) (on_control (end_task i) S, n)"
| aside_wait: "aside_step P (S, n) (snd (session_wait_for_link turns' S), n)"
| aside_close: "aside_step P (S, n) (snd (session_close P N W rnd ends S), n)"
| aside_drop: "aside_step P (S, n) (session_drop S, n)"
| aside_observe: "aside_step P (S, n) (S\<lparr>ss_observed := b\<rparr>, n)"
| aside_callback: "setup_begun (ss_transport S) \<Longrightarrow> callback W (ss_transport S) T' \<Longrightarrow>
    aside_step P (S, n) (S\<lparr>ss_transport := T'\<rparr>, n)"
| aside_setup_next: "setup_begun (ss_transport S) \<Longrightarrow> tp_setup (ss_transport S) \<noteq> None \<Longrightarrow>
    aside_step P (S, n) (setup_outcome (setup_next W (ss_transport S)) S, n)"
| aside_setup_dropped: "closed_flag (ss_control S) \<Longrightarrow>
    aside_step P (S, n) (S\<lparr>ss_transport := (ss_transport S)\<lparr>tp_setup := None\<rparr>\<rparr>, n)"
| aside_frame: "ss_events_taken S \<Longrightarrow> aside_step P (S, n) (receiving P N now rnd payload S, n)"
| aside_message: "setup_begun (ss_transport S) \<Longrightarrow> aside_step P (S, n) (channel_message d S, n)"
| aside_send: "aside_step P (S, n) (snd (send_with_timeouts P W rnd uuid mx start turns S message ack_ms resp_ms), n)"
| aside_ack: "aside_step P (S, Suc n) (snd (send_session_message P W rnd S (Ack mid)), Suc n)"
| aside_reply: "aside_step P (S, Suc n)
    (on_control drop_permit (snd (send_session_message P W rnd S (reply mid (outcome :: json res)))), n)"
| aside_cancelled: "aside_step P (S, Suc n) (on_control drop_permit S, n)"

text \<open>
  \<open>connect\<close> spawns the loops, once; a turn needs its loop alive, and an item that was sent; all
  loops end when the session closes.
\<close>

inductive loop_step :: "platform \<Rightarrow> (session \<times> nat) \<times> loops \<Rightarrow> (session \<times> nat) \<times> loops \<Rightarrow> bool" for P :: platform where
  loop_connect: "S' = snd (session_connect P N now rnd S) \<Longrightarrow>
    loop_step P ((S, n), l) ((S', n), if ss_events_taken S' \<and> \<not> ss_events_taken S then all_loops True else l)"
| loop_signal_state: "lp_signal_state l \<Longrightarrow> (\<And>st. d = Item st \<Longrightarrow> st \<in> set (state_tx (ss_signaling S))) \<Longrightarrow>
    signal_state_turn W d S = (go, S') \<Longrightarrow> loop_step P ((S, n), l) ((S', n), l\<lparr>lp_signal_state := go\<rparr>)"
| loop_setup_begin: "lp_signal_state l \<Longrightarrow> S_Encrypted \<in> set (state_tx (ss_signaling S)) \<Longrightarrow> select_transport S \<noteq> None \<Longrightarrow>
    loop_step P ((S, n), l) ((setup_outcome (setup_build W (ss_transport S)) S, n), l)"
| loop_signal_message: "lp_signal_message l \<Longrightarrow> (\<And>v. d = Item v \<Longrightarrow> v \<in> set (message_tx (ss_signaling S))) \<Longrightarrow>
    signal_message_turn W d S = (go, S') \<Longrightarrow> loop_step P ((S, n), l) ((S', n), l\<lparr>lp_signal_message := go\<rparr>)"
| loop_transport_state: "lp_transport_state l \<Longrightarrow> (\<And>st. d = Item st \<Longrightarrow> st \<in> set (tp_state_tx (ss_transport S))) \<Longrightarrow>
    transport_state_turn d S = (go, S') \<Longrightarrow> loop_step P ((S, n), l) ((S', n), l\<lparr>lp_transport_state := go\<rparr>)"
| loop_transport_event: "lp_transport_event l \<Longrightarrow> (\<And>ev. d = Some ev \<Longrightarrow> ev \<in> set (tp_events (ss_transport S))) \<Longrightarrow>
    transport_event_turn P N now rnd uuid d S = (go, S') \<Longrightarrow>
    loop_step P ((S, n), l) ((S', n + new_permits S S'), l\<lparr>lp_transport_event := go\<rparr>)"
| loop_aside: "aside_step P s s' \<Longrightarrow> loop_step P (s, l) (s', l)"
| loop_stopped: "closed_flag (ss_control S) \<Longrightarrow> loop_step P ((S, n), l) ((S, n), all_loops False)"

abbreviation fresh_loops :: "(session \<times> nat) \<times> loops \<Rightarrow> bool" where
  "fresh_loops s \<equiv> fresh_session (fst s) \<and> snd s = all_loops False"

lemma aside_session: "aside_step P s s' \<Longrightarrow> session_step P s s'"
  by (induction rule: aside_step.induct)
     (blast intro: sess_resend sess_deadline sess_task_end sess_wait sess_close sess_own [OF own_drop] sess_observe sess_callback
        sess_own [OF own_setup_next] sess_own [OF own_setup_dropped] sess_frame sess_message sess_send sess_ack sess_reply sess_cancelled)+

lemma loop_session:
  assumes "loop_step P s s'"
  shows "(session_step P)\<^sup>=\<^sup>= (fst s) (fst s')"
  using assms
proof cases
  case (loop_signal_state l d S W go S' n)
  then show ?thesis
    using sess_signal_state [of _ S P n W] by (cases d) (auto simp: signal_state_turn_def)
next
  case (loop_signal_message l d S W go S' n)
  then show ?thesis
    using sess_signal_message [of _ S P n W] by (cases d) (auto simp: signal_message_turn_def)
next
  case (loop_transport_state l d S go S' n)
  then show ?thesis
    using sess_transport_state [of _ S P n] by (cases d) (auto simp: transport_state_turn_def, metis snd_conv)
next
  case (loop_transport_event l d S N now rnd uuid go S' n)
  then show ?thesis
    using sess_transport_event [of _ S P N now rnd uuid S' n] by (cases d) (auto simp: transport_event_turn_def new_permits_def)
qed (auto intro: sess_connect aside_session sess_own [OF own_setup_begin])

text \<open>A loop is alive only after \<open>connect\<close> has spawned it.\<close>

definition spawned :: "(session \<times> nat) \<times> loops \<Rightarrow> bool" where
  "spawned s \<longleftrightarrow> ss_events_taken (fst (fst s)) \<or> snd s = all_loops False"

lemma spawned_step:
  assumes "spawned s" "loop_step P s s'"
  shows "spawned s'"
proof -
  have taken: "ss_events_taken (fst (fst s'))" if "ss_events_taken (fst (fst s))"
    using loop_session [OF assms(2)] that session_step_taken [of P "fst (fst s)" "snd (fst s)" "fst (fst s')" "snd (fst s')"]
    by auto
  from assms(2) show ?thesis
  proof cases
    case (loop_connect S' N now rnd S n l)
    with assms(1) taken show ?thesis by (auto simp: spawned_def)
  next
    case (loop_aside s1 s2 l)
    with assms(1) taken show ?thesis by (auto simp: spawned_def)
  qed (use assms(1) taken in \<open>auto simp: spawned_def all_loops_def\<close>)
qed

interpretation loops_session: refinement fresh_loops "loop_step P" spawned fresh_session "session_step P" fst for P
proof
  fix s s' :: "(session \<times> nat) \<times> loops"
  show "fresh_loops s \<Longrightarrow> spawned s" by (simp add: spawned_def)
  show "spawned s \<Longrightarrow> loop_step P s s' \<Longrightarrow> spawned s'" by (rule spawned_step)
  show "fresh_loops s \<Longrightarrow> fresh_session (fst s)" by simp
  show "loop_step P s s' \<Longrightarrow> (session_step P)\<^sup>*\<^sup>* (fst s) (fst s')" using loop_session by fastforce
qed

text \<open>With all loops alive, nothing of the session is missing.\<close>

lemma session_loop:
  assumes "session_step P s s'"
  shows "\<exists>l. loop_step P (s, all_loops True) (s', l)"
proof -
  have alive: "lp_signal_state (all_loops True)" "lp_signal_message (all_loops True)" "lp_transport_state (all_loops True)"
      "lp_transport_event (all_loops True)" by (simp_all add: all_loops_def)
  note aside = loop_aside [of P s s' "all_loops True"]
  show ?thesis
    using assms
  proof cases
    case (sess_own S S' n)
    from sess_own(3) show ?thesis
    proof cases
      case (own_connect N now rnd)
      with sess_own(1,2) loop_connect [OF own_connect] show ?thesis by blast
    next
      case (own_signal_state st W)
      with sess_own(1,2) loop_signal_state [OF alive(1), of "Item st" S W True S' P n] show ?thesis
        by (auto simp: signal_state_turn_def)
    next
      case (own_signal_message v W)
      with sess_own(1,2) loop_signal_message [OF alive(2), of "Item v" S W True S' P n] show ?thesis
        by (auto simp: signal_message_turn_def)
    next
      case (own_setup_begin W)
      with sess_own(1,2) loop_setup_begin [OF alive(1), of S P n W] show ?thesis by blast
    next
      case (own_transport_state st)
      with sess_own(1,2) loop_transport_state [OF alive(3), of "Item st" S _ S' P n] show ?thesis
        by (auto simp: transport_state_turn_def) (metis prod.collapse)
    qed (use aside sess_own(1,2) in \<open>blast intro: aside_step.intros\<close>)+
  next
    case (sess_transport_event ev S N now rnd uuid S' n)
    with loop_transport_event [OF alive(4), of "Some ev" S P N now rnd uuid True S' n] show ?thesis
      by (auto simp: transport_event_turn_def)
  qed (use aside in \<open>blast intro: aside_step.intros\<close>)+
qed

section \<open>A loop that has ended\<close>

text \<open>The descriptions of the peer that were applied to the connection.\<close>

definition remote_descriptions :: "transport \<Rightarrow> string set" where
  "remote_descriptions T = {x. \<exists>calls. peer_connection T = Some calls \<and> Set_remote x \<in> set calls}"

definition unheard :: "(session \<times> nat) \<times> loops \<Rightarrow> (session \<times> nat) \<times> loops \<Rightarrow> bool" where
  "unheard s t \<longleftrightarrow>
     (case (s, t) of (((S, n), l), ((S', n'), l')) \<Rightarrow>
        ss_events_taken S' \<and>
        (\<not> lp_signal_state l \<longrightarrow> \<not> lp_signal_state l' \<and> setup_begun (ss_transport S') = setup_begun (ss_transport S)) \<and>
        (\<not> lp_signal_message l \<longrightarrow> \<not> lp_signal_message l' \<and>
           remote_descriptions (ss_transport S') \<subseteq> remote_descriptions (ss_transport S)))"

lemma send_message_connection [simp]:
  "peer_connection (ss_transport (snd (send_session_message P W rnd S m))) = peer_connection (ss_transport S)"
  by (auto simp: send_session_message_def t_send_def Let_def split: sum.splits prod.splits if_splits)

lemma callback_connection: "callback W T T' \<Longrightarrow> peer_connection T' = peer_connection T"
  by (erule callback.cases)
     (auto simp: on_ice_candidate_def emit_def on_connection_state_change_def t_set_state_def on_data_channel_def
        store_and_poll_dc_def dc_turn_def split: option.splits dc_event.splits)

lemma close_connection:
  "remote_descriptions (ss_transport (snd (session_close P N W rnd ends S))) \<subseteq> remote_descriptions (ss_transport S)"
proof -
  have "peer_connection (snd (t_teardown W T)) = None" for T
    by (auto simp: t_teardown_def t_set_state_def Let_def split: option.splits sum.splits)
  then show ?thesis
    by (cases rule: session_close_shape_cases [of P N W rnd ends S]) (simp_all add: remote_descriptions_def)
qed

lemma setup_connection: "remote_descriptions (snd (t_setup W T)) \<subseteq> remote_descriptions T"
  by (auto simp: remote_descriptions_def t_setup_def t_set_state_def host_offer_def store_and_poll_dc_def emit_def Let_def
      split: sum.splits prod.splits if_splits)

lemma setup_next_connection: "remote_descriptions (snd (setup_next W T)) \<subseteq> remote_descriptions T"
  by (auto simp: remote_descriptions_def setup_next_def setup_open_def setup_describe_def setup_store_def store_and_poll_dc_def
      emit_def t_set_state_def Let_def split: option.splits setup_point.splits sum.splits)

lemma aside_connection:
  assumes "aside_step P (S, n) (S', n')"
  shows "remote_descriptions (ss_transport S') \<subseteq> remote_descriptions (ss_transport S)"
    "setup_begun (ss_transport S') = setup_begun (ss_transport S)"
proof -
  have send: "peer_connection (ss_transport (snd (send_with_timeouts P W rnd uuid mx start turns S v a b))) = peer_connection (ss_transport S)"
    for W rnd uuid mx start turns v a b
    using send_with_timeouts_shape [of S P W rnd uuid v mx start turns a b] by auto
  show "remote_descriptions (ss_transport S') \<subseteq> remote_descriptions (ss_transport S)"
    using assms
  proof cases
    case (aside_close N W rnd ends)
    then show ?thesis by (simp add: close_connection)
  next
    case (aside_setup_next W)
    then show ?thesis by (simp add: setup_next_connection)
  qed (simp_all add: remote_descriptions_def session_drop_def send callback_connection dc_turn_def)
  show "setup_begun (ss_transport S') = setup_begun (ss_transport S)"
    using assms
  proof cases
    case (aside_callback W T')
    then show ?thesis using quiet_callback by (simp add: quiet_change_def)
  next
    case (aside_message d)
    then show ?thesis using quiet_channel_message by (simp add: quiet_change_def)
  next
    case (aside_setup_next W)
    then show ?thesis using quiet_setup_next [OF aside_setup_next(3)] by (simp add: quiet_change_def)
  next
    case aside_setup_dropped
    then show ?thesis by (simp add: setup_begun_def)
  qed (use quiet_message [of S P] quiet_send [of S P] quiet_close [of S P] in \<open>simp_all add: quiet_change_def session_drop_def\<close>)
qed

lemma unheard_step:
  assumes "ss_events_taken S" "loop_step P ((S, n), l) t"
  shows "unheard ((S, n), l) t"
  using assms(2)
proof cases
  case (loop_connect S' N now rnd)
  have "ss_events_taken S'" using own_step_taken(1) [OF own_connect assms(1)] loop_connect by simp
  moreover have "ss_transport S' = ss_transport S"
    using loop_connect by (cases rule: session_connect_cases [of P N now rnd S]) auto
  ultimately show ?thesis using loop_connect assms(1) by (simp add: unheard_def)
next
  case (loop_signal_state d W go S')
  then have "S' = S \<or> (\<exists>st. S' = on_signal_state W st S)"
    by (cases d) (auto simp: signal_state_turn_def)
  moreover have "remote_descriptions (ss_transport (on_signal_state W st S)) \<subseteq> remote_descriptions (ss_transport S)" for st
    using on_signal_state_transport(1) [of W st S] setup_connection [of W "ss_transport S"] by auto
  ultimately have "remote_descriptions (ss_transport S') \<subseteq> remote_descriptions (ss_transport S)" "ss_events_taken S'"
    using assms(1) by auto
  with loop_signal_state show ?thesis by (simp add: unheard_def)
next
  case (loop_setup_begin W)
  have "remote_descriptions (snd (setup_build W T)) \<subseteq> remote_descriptions T" for T
    by (auto simp: remote_descriptions_def setup_build_def t_set_state_def Let_def split: sum.splits)
  with loop_setup_begin assms(1) show ?thesis by (simp add: unheard_def)
next
  case (loop_signal_message d W go S')
  then have "S' = S \<or> (\<exists>v. S' = on_signal_message W v S)"
    by (cases d) (auto simp: signal_message_turn_def)
  moreover have "setup_begun (ss_transport (on_signal_message W v S)) = setup_begun (ss_transport S)" for v
    using on_signal_message_transport [of W v S] quiet_t_handle [of "ss_transport S" W] by (auto simp: quiet_change_def)
  ultimately have "setup_begun (ss_transport S') = setup_begun (ss_transport S)" "ss_events_taken S'"
    using assms(1) by auto
  with loop_signal_message show ?thesis by (simp add: unheard_def)
next
  case (loop_transport_state d go S')
  then have "S' = S \<or> (\<exists>st. S' = snd (on_transport_state st S))"
    by (cases d) (auto simp: transport_state_turn_def, metis snd_conv)
  then have "ss_transport S' = ss_transport S" "ss_events_taken S'" using assms(1) by auto
  with loop_transport_state show ?thesis by (simp add: unheard_def)
next
  case (loop_transport_event d N now rnd uuid go S')
  then have "S' = S \<or> (\<exists>ev. S' = on_transport_event P N now rnd uuid ev S)"
    by (cases d) (auto simp: transport_event_turn_def)
  moreover have "ss_transport (on_transport_event P N now rnd uuid ev S) = ss_transport S"
    "ss_events_taken (on_transport_event P N now rnd uuid ev S) = ss_events_taken S" for ev
    by (cases ev; simp add: on_transport_event_def)+
  ultimately have "ss_transport S' = ss_transport S" "ss_events_taken S'" using assms(1) by auto
  with loop_transport_event show ?thesis by (simp add: unheard_def)
next
  case (loop_aside s')
  obtain S' n' where s': "s' = (S', n')" by (cases s')
  have "ss_events_taken S'" using session_step_taken [OF aside_session] loop_aside s' assms(1) by auto
  with loop_aside s' aside_connection [of P S n S' n'] show ?thesis by (simp add: unheard_def)
next
  case loop_stopped
  then show ?thesis using assms(1) by (simp add: unheard_def all_loops_def)
qed

lemma unheard_steps:
  assumes "(loop_step P)\<^sup>*\<^sup>* ((S, n), l) t" "ss_events_taken S"
  shows "unheard ((S, n), l) t"
  using assms(1)
proof (induction rule: rtranclp_induct)
  case base
  then show ?case using assms(2) by (simp add: unheard_def)
next
  case (step t u)
  obtain S' n' l' where t: "t = ((S', n'), l')" by (cases t) auto
  then have "unheard ((S', n'), l') u" using step unheard_step by (simp add: unheard_def)
  with step.IH t show ?case by (cases u) (auto simp: unheard_def)
qed

text \<open>
  C37. A loop that falls behind is gone: when the receiver of the signaling states reports that
  items were lost before the transport was started, the loop ends there and the session
  never has a peer connection, whatever happens later; when the receiver of the signaling
  messages reports it, no description of the peer is applied any more; and the loop of the
  transport's states looks at nothing that comes after such a report, be it an error.
\<close>

theorem lagged_loop_is_gone:
  assumes "reachable fresh_loops (loop_step P) ((S, n), l)" "lp_signal_state l" "lp_signal_message l"
  shows "((loop_step P)\<^sup>*\<^sup>* ((S, n), l\<lparr>lp_signal_state := fst (signal_state_turn W Lagged_behind S)\<rparr>) ((S', n'), l') \<longrightarrow>
      \<not> setup_begun (ss_transport S) \<longrightarrow> peer_connection (ss_transport S') = None) \<and>
    ((loop_step P)\<^sup>*\<^sup>* ((S, n), l\<lparr>lp_signal_message := fst (signal_message_turn W Lagged_behind S)\<rparr>) ((S', n'), l') \<longrightarrow>
      remote_descriptions (ss_transport S') \<subseteq> remote_descriptions (ss_transport S)) \<and>
    run_transport_state_loop (ts @ Lagged_behind # us) S = (False, snd (run_transport_state_loop ts S))"
proof -
  have taken: "ss_events_taken S"
    using loops_session.reachable_inv [OF assms(1)] assms(2) by (auto simp: spawned_def all_loops_def)
  have states: "peer_connection (ss_transport S') = None"
    if run: "(loop_step P)\<^sup>*\<^sup>* ((S, n), l\<lparr>lp_signal_state := fst (signal_state_turn W Lagged_behind S)\<rparr>) ((S', n'), l')"
      and none: "\<not> setup_begun (ss_transport S)"
  proof -
    have "loop_step P ((S, n), l) ((S, n), l\<lparr>lp_signal_state := fst (signal_state_turn W Lagged_behind S)\<rparr>)"
      using loop_signal_state [of l Lagged_behind S W False S P n] assms(2) by (simp add: signal_state_turn_def)
    with assms(1) run have "reachable fresh_loops (loop_step P) ((S', n'), l')"
      by (meson reach_step reachable_steps)
    from loops_session.abs_reachable [OF this] have "transport_inv (ss_transport S')"
      using session_layer.reachable_inv [of P "(S', n')"] by (simp add: session_inv_def Let_def)
    moreover have "\<not> setup_begun (ss_transport S')"
      using unheard_steps [OF run taken] none by (simp add: unheard_def signal_state_turn_def)
    ultimately show ?thesis by (simp add: transport_inv_def)
  qed
  have "remote_descriptions (ss_transport S') \<subseteq> remote_descriptions (ss_transport S)"
    if run: "(loop_step P)\<^sup>*\<^sup>* ((S, n), l\<lparr>lp_signal_message := fst (signal_message_turn W Lagged_behind S)\<rparr>) ((S', n'), l')"
    using unheard_steps [OF run taken] by (simp add: unheard_def signal_message_turn_def)
  with states lagged_loops_end(3) show ?thesis by blast
qed


end
