(* ===== verification/Session_Scenario.thy ===== *)
theory Session_Scenario
  imports Session_Properties Scenario
begin

text \<open>
  Concrete sessions: two linked sessions over the sample primitives, a request between them,
  and an invitation, at which the theorems on sessions are applied.
\<close>

section \<open>Two linked sessions\<close>

definition session_messages :: "session_message list" where
  "session_messages = [Request ''1'' (obj []), Ack ''1'', Response ''1'' JNull, Close]"

definition session_table :: "(json \<times> string) list" where
  "session_table = zip (map session_message_to_value session_messages) [''0'', ''1'', ''2'', ''3'']"

abbreviation SQ :: platform where "SQ \<equiv> sample_platform session_table"

lemma session_texts: "m \<in> set session_messages \<Longrightarrow> session_text_ok SQ m"
proof -
  assume m: "m \<in> set session_messages"
  have "inj session_message_to_value"
    by (rule injI) (metis option.inject session_message_roundtrip)
  moreover have "distinct session_messages" by (simp add: session_messages_def)
  ultimately have "distinct (map session_message_to_value session_messages)"
    by (auto simp: distinct_map intro: inj_on_subset)
  note dist = this
  have "utf8_valid s \<and> length s \<le> gcm_limit" if "s \<in> set [''0'', ''1'', ''2'', ''3'']" for s
    using that by (auto simp: is_ascii_def gcm_limit_def)
  moreover have "session_message_to_value m \<in> set (map session_message_to_value session_messages)"
    using m by simp
  moreover have "length [''0'', ''1'', ''2'', ''3''] = length (map session_message_to_value session_messages)"
    by (simp add: session_messages_def)
  moreover have "distinct [''0'', ''1'', ''2'', ''3'']" by simp
  ultimately show ?thesis
    unfolding session_text_ok_def Let_def by (intro table_value_ok [OF session_table_def _ dist])
qed

definition sample_session :: "bool \<Rightarrow> key_pair \<Rightarrow> key_pair \<Rightarrow> session" where
  "sample_session host a b =
     (build_session (Version1 sample_uri) host
        ((new_layer ''mqtt'' (party_props SQ host (kp_encryption_key KH) sample_key a sample_caps))
           \<lparr>sl_state := S_Encrypted, relying_key := Some (kp_encryption_key b), peer_caps := Some sample_caps\<rparr>)
        (Mqtt_channel ((new_mqtt_channel ''s'' ''t'')\<lparr>mc_client := True\<rparr>)) (kp_decryption_key a))
     \<lparr>ss_transport := (new_transport host)\<lparr>tp_state := T_Connected, data_channel := True\<rparr>\<rparr>"

lemmas sample_session_defs = sample_session_def build_session_def new_layer_def new_transport_def new_control_def

lemma sample_dc_send [simp]: "dc_send sample_webrtc e = Inr ()"
  by (simp add: sample_webrtc_def)

lemma session_text_members:
  "session_text_ok SQ (Request ''1'' (obj []))" "session_text_ok SQ (Ack ''1'')"
  "session_text_ok SQ (reply ''1'' (Inr JNull :: json res))" "session_text_ok SQ Close"
  by (rule session_texts, simp add: session_messages_def reply_def)+

theorem request_admission_witness:
  "fst (handle_session_frame SQ (sample_session False KC KH)
     (json_print SQ (session_message_to_value (Request ''1'' (obj []))))) = Ok ()"
  using request_admission [OF session_message_from_text [OF session_text_members(1)], of "sample_session False KC KH"]
  by (simp add: sample_session_defs)

theorem close_returns_and_is_final_witness:
  "\<exists>r S'. session_close SQ sample_network sample_webrtc (sample_nonce 0) [] (sample_session True KH KC) = (Some r, S') \<and>
     dispatch_request S' JNull = (Fail SessionClosed, S')"
  using close_returns_and_is_final [of "sample_session True KH KC" "[]" SQ sample_network sample_webrtc "sample_nonce 0"
      "sample_nonce 1" "[]" 0 "''u''" 0 0 "[]" JNull 0 0 JNull]
  by (auto simp: sample_session_defs)

section \<open>An invitation\<close>

definition sample_init :: session_init where
  "sample_init = \<lparr>si_session_id = None, si_h = None, si_k = Some sample_key, si_p = Some ''mqtt'',
     si_s = Some ''mqtt://broker'', si_info = None\<rparr>"

lemma sample_key_pair: "generate_key_pair (sample_platform tbl) (replicate 32 c) = Ok (sample_pair c)"
  by (simp add: generate_key_pair_def sample_platform_def sample_pair_def to_base64_def Let_def)

lemma sample_hashes: "hash_public_key (sample_platform tbl) (kp_encryption_key KC) \<noteq>
    hash_public_key (sample_platform tbl) (kp_encryption_key KH)"
proof -
  have "replicate 32 c = c # replicate 31 c" for c :: char by (simp add: numeral_eq_Suc)
  then show ?thesis
    by (simp add: hash_public_key_def sample_platform_def sample_pair_def HASH_LENGTH_def hex_byte_def hex_digit_def)
qed

lemma sample_created:
  "\<exists>H. create_session (sample_platform tbl) sample_env (replicate 16 CHR ''r'') (replicate 32 CHR ''h'') [] (sample_init\<lparr>si_h := oh\<rparr>) = Ok H"
  using sample_key_pair [of tbl "CHR ''h''"] known_protocol_text(1) [of Mqtt sample_env]
  by (cases oh) (simp_all add: create_session_def sample_init_def create_signaling_channel_def Let_def)

lemma sample_init_valid: "valid_init sample_init"
proof -
  have "from_hex (hk_hex sample_key) = Ok sample_key"
    by (simp add: sample_key_def from_hex_Ok_iff list_all_iff is_ascii_hexdigit_def is_hex_lower_def is_digit_def ascii_lower_def)
  then show ?thesis by (simp add: valid_init_def sample_init_def is_ascii_def)
qed

theorem create_session_foreign_hash_witness:
  "\<exists>S. create_session SQ sample_env (replicate 16 CHR ''r'') (replicate 32 CHR ''h'') [] (sample_init\<lparr>si_h := Some []\<rparr>) = Ok S \<and>
     ss_is_host S \<and> \<not> sp_is_host (props (ss_signaling S))"
proof -
  obtain S where S: "create_session SQ sample_env (replicate 16 CHR ''r'') (replicate 32 CHR ''h'') []
      (sample_init\<lparr>si_h := Some []\<rparr>) = Ok S"
    using sample_created [of session_table "Some []"] by blast
  have "length (sha256 SQ (public_key (kp_encryption_key KH))) = 32" by (simp add: sample_platform_def)
  then have "[] \<noteq> hash_public_key SQ (kp_encryption_key KH)"
    using hash_public_key_form(1) [of SQ "kp_encryption_key KH"] by force
  from create_session_foreign_hash [OF S _ sample_key_pair this] S show ?thesis by auto
qed

end
