(* ===== verification/Service_Scenario.thy ===== *)
theory Service_Scenario
  imports Service Bridge Loops Session_Scenario
begin

text \<open>
  A dApp and a wallet from the invitation to an answer, over the sample primitives, network
  and WebRTC library, at which the theorems on linked sessions are applied.
\<close>

section \<open>Texts\<close>

definition sample_signer :: signer where
  "sample_signer = \<lparr>address = ''0xf39F'', sign_message_sync = (\<lambda>m. Inr (''0x'' @ m))\<rparr>"

definition sample_decode :: "string \<Rightarrow> string + bytes" where
  "sample_decode s = Inr (hex_decode s)"

abbreviation sample_answer :: json where
  "sample_answer \<equiv> handle_rpc_request sample_decode app_request sample_signer"

abbreviation sample_uuid :: "nat \<Rightarrow> string" where
  "sample_uuid i \<equiv> (if i = 0 then ''u'' else ''w'')"

definition linking_messages :: "signaling_message list" where
  "linking_messages = link_messages KH KC sample_caps sample_caps sample_time sample_uuid ''sdp'' ''sdp''"

definition asking_messages :: "session_message list" where
  "asking_messages = [Request ''1'' app_request, Ack ''1'', Response ''1'' sample_answer, Close]"

definition service_texts :: "string list" where
  "service_texts = [''0'', ''1'', ''2'', ''3'', ''4'', ''5'', ''6'', ''7'', ''8'', ''9'', ''a'']"

definition service_table :: "(json \<times> string) list" where
  "service_table = zip (map signaling_message_to_value linking_messages @ map session_message_to_value asking_messages)
     service_texts"

abbreviation SL :: platform where "SL \<equiv> sample_platform service_table"

lemma service_values_distinct:
  "distinct (map signaling_message_to_value linking_messages @ map session_message_to_value asking_messages)"
proof -
  have "inj signaling_message_to_value" by (rule injI) (metis option.inject signaling_message_roundtrip)
  moreover have "distinct linking_messages"
    by (simp add: linking_messages_def link_messages_def handshake_messages_def flash_message_def)
  moreover have "inj session_message_to_value" by (rule injI) (metis option.inject session_message_roundtrip)
  moreover have "distinct asking_messages" by (simp add: asking_messages_def)
  moreover have "json_get (signaling_message_to_value m) ''type'' \<noteq> json_get (session_message_to_value m') ''type''" for m m'
    by (cases m; cases m') simp_all
  then have "signaling_message_to_value m \<noteq> session_message_to_value m'" for m m' by metis
  ultimately show ?thesis by (auto simp: distinct_map intro: inj_on_subset)
qed

lemma service_value_ok:
  assumes "v \<in> set (map signaling_message_to_value linking_messages @ map session_message_to_value asking_messages)"
  shows "json_parse SL (json_print SL v) = Inr v \<and> utf8_valid (json_print SL v) \<and> length (json_print SL v) \<le> gcm_limit"
proof (rule table_value_ok [OF service_table_def _ service_values_distinct _ _ assms])
  show "length service_texts = length (map signaling_message_to_value linking_messages @ map session_message_to_value asking_messages)"
    by (simp add: service_texts_def linking_messages_def link_messages_def handshake_messages_def asking_messages_def)
  show "distinct service_texts" by (simp add: service_texts_def)
  show "utf8_valid s \<and> length s \<le> gcm_limit" if "s \<in> set service_texts" for s
    using that by (auto simp: service_texts_def is_ascii_def gcm_limit_def)
qed

lemma linking_texts: "list_all (text_ok SL) linking_messages"
  using service_value_ok by (auto simp: list_all_iff text_ok_def Let_def)

lemma asking_texts: "m \<in> set asking_messages \<Longrightarrow> session_text_ok SL m"
  using service_value_ok by (auto simp: session_text_ok_def Let_def)

lemma asking_texts_each:
  "session_text_ok SL (Request ''1'' app_request)" "session_text_ok SL (Ack ''1'')"
  "session_text_ok SL (Response ''1'' sample_answer)" "session_text_ok SL Close"
  by (rule asking_texts, simp add: asking_messages_def)+

section \<open>The invitation\<close>

lemma sample_info: "own_capabilities (si_info sample_init) = sample_caps" "own_capabilities None = sample_caps"
  by (simp_all add: sample_init_def own_capabilities_def sample_caps_def)

lemma sample_invitation:
  obtains H where "create_session SL sample_env (replicate 16 CHR ''r'') (replicate 32 CHR ''h'') [] sample_init = Ok H"
proof -
  have "sample_init\<lparr>si_h := None\<rparr> = sample_init" by (simp add: sample_init_def)
  with sample_created [of service_table None] that show ?thesis by auto
qed

lemma sample_sha: "length (sha256 SL b) = 32"
  by (simp add: sample_platform_def)

lemmas sample_link_ok =
  sample_session_ok [of service_table, folded sample_info(2)]
  linking_texts [unfolded linking_messages_def, folded sample_info(2)]

lemma sample_init_info: "si_info sample_init = None"
  by (simp add: sample_init_def)

section \<open>Linked sessions\<close>

lemma sample_serving:
  obtains H C where "serving SL KH KC H" "serving SL KC KH C"
proof -
  obtain H where H: "create_session SL sample_env (replicate 16 CHR ''r'') (replicate 32 CHR ''h'') [] sample_init = Ok H"
    by (rule sample_invitation)
  obtain H2 C2 where "serving SL KH KC (open_channel H2)" "serving SL KC KH (open_channel C2)"
    by (rule reachable_pair.invited_sessions_serve [OF H sample_init_valid _ sample_form_ok sample_sha sample_key_pair sample_key_pair
          sample_hashes, where pinfo = None and t = sample_time and n = sample_nonce, unfolded sample_init_info,
          OF _ sample_link_ok _ sample_environment]) simp_all
  then show ?thesis by (rule that)
qed


theorem only_the_peer_is_heard_witness:
  "\<exists>S raw plain. snd (handle_transport_payload SL S raw) \<noteq> S \<and>
     relying_key (ss_signaling S) = Some (kp_encryption_key KH) \<and>
     handle_transport_payload SL S raw = handle_session_frame SL S plain"
proof -
  obtain H C where serv: "serving SL KH KC H" "serving SL KC KH C" by (rule sample_serving)
  note ok = session_okD(1-3) [OF sample_session_ok [of service_table]]
  have link: "linked SL KH KC H" "linked SL KC KH C" using serv by (simp_all add: serving_def)
  obtain e where e: "send_session_message SL sample_webrtc (sample_nonce 0) H (Request ''1'' app_request) = (Ok (), sending H e)"
    "peer_decrypt SL (kp_decryption_key KC) e (Some (kp_encryption_key KH)) =
       Ok (json_print SL (session_message_to_value (Request ''1'' app_request)))"
    by (rule message_sent [OF ok(1,2) link(1) asking_texts_each(1), where rnd = "sample_nonce 0" and W = sample_webrtc])
       simp_all
  have "utf8_valid e" by (rule sent_utf8 [OF sample_base64_ok e(1)])
  then have turn: "snd (dc_turn (OnMessage e) T) = T\<lparr>tp_events := tp_events T @ [Message e]\<rparr>" for T
    by (simp add: dc_turn_def)
  define S where "S = C\<lparr>ss_transport := snd (dc_turn (OnMessage e) (ss_transport C))\<rparr>"
  have reach: "session_reachable SL S"
    unfolding S_def by (rule reach_channel_message) (use serv(2) in \<open>simp_all add: serving_def\<close>)
  have event: "Message e \<in> set (tp_events (ss_transport S))" by (simp add: S_def turn)
  have S: "linked SL KC KH S" "ss_control S = ss_control C"
    using link(2) by (simp_all add: S_def turn linked_def)
  have "handle_transport_payload SL S e =
      handle_session_frame SL S (json_print SL (session_message_to_value (Request ''1'' app_request)))"
    by (rule received_message [OF S(1) asking_texts_each(1) e(2)])
  also have "\<dots> = dispatch_request S app_request"
    using session_message_from_text [OF asking_texts_each(1)] by (simp add: handle_session_frame_def)
  finally have "active_handlers (ss_control (snd (handle_transport_payload SL S e))) = 1"
    using serv(2) S(2)
    by (simp add: serving_def dispatch_request_def admit_handler_def spawn_control_def observe_request_def
        MAX_ACTIVE_HANDLERS_def Let_def)
  then have "snd (handle_transport_payload SL S e) \<noteq> S" using serv(2) S(2) by (auto simp: serving_def)
  with only_the_peer_is_heard [OF reach event this] S(1) show ?thesis by (auto simp: linked_def)
qed

section \<open>A session and its loops\<close>

lemma sample_connected:
  obtains S where "reachable fresh_loops (loop_step SL) ((S, 0), all_loops True)" "ss_events_taken S"
    "\<not> setup_begun (ss_transport S)"
proof -
  obtain H where H: "create_session SL sample_env (replicate 16 CHR ''r'') (replicate 32 CHR ''h'') [] sample_init = Ok H"
    by (rule sample_invitation)
  define S where "S = snd (session_connect SL sample_network 0 [] H)"
  note shape = created_shape [OF H sample_key_pair]
  note con = connect_unconnected [OF sample_environment(1) shape(1), of SL 0 "[]", folded S_def]
  have "reachable fresh_loops (loop_step SL) ((H, 0), all_loops False)"
    by (rule reach_init) (simp add: created_fresh [OF H])
  moreover have "loop_step SL ((H, 0), all_loops False) ((S, 0), all_loops True)"
    using loop_connect [OF S_def, of 0 "all_loops False"] con(2) shape(1) by simp
  ultimately have "reachable fresh_loops (loop_step SL) ((S, 0), all_loops True)" by (rule reach_step)
  moreover have "\<not> setup_begun (ss_transport S)" using con(4) shape(2) by (simp add: setup_begun_def new_transport_def)
  ultimately show ?thesis using that con(2) by blast
qed

theorem lagged_loop_is_gone_witness:
  "\<exists>S. ss_events_taken S \<and> peer_connection (ss_transport (incoming SL sample_network 1 [] S ''h'')) = None"
proof -
  obtain S where S: "reachable fresh_loops (loop_step SL) ((S, 0), all_loops True)" "ss_events_taken S"
    "\<not> setup_begun (ss_transport S)" by (rule sample_connected)
  have "(loop_step SL)\<^sup>*\<^sup>* ((S, 0), l) ((incoming SL sample_network 1 [] S ''h'', 0), l)" for l
    unfolding incoming_def by (rule r_into_rtranclp, rule loop_aside, rule aside_frame, rule S(2))
  with S(3) have "peer_connection (ss_transport (incoming SL sample_network 1 [] S ''h'')) = None"
    by (intro lagged_loop_is_gone [THEN conjunct1, rule_format, OF S(1), of sample_webrtc])
       (simp_all add: all_loops_def)
  with S(2) show ?thesis by blast
qed


section \<open>The wallet program\<close>

lemma on_request_wallet: "on_request P E rid rkp rhk (wallet url) = connect_session P E rkp url"
  by (simp add: on_request_def wallet_def dapp_def config_defs connect_session_def)

theorem wallet_program_bound_witness:
  "\<exists>url C u. reachable fresh_main (wallet_step SL sample_env [''client'', url] (Inr sample_signer))
       (Main_created, Some (C, 0)) \<and>
     session_uri_from_url sample_env url = Ok (Version1 u) \<and> reachable fresh_session (session_step SL) (C, 0)"
proof -
  obtain H where H: "create_session SL sample_env (replicate 16 CHR ''r'') (replicate 32 CHR ''h'') [] sample_init = Ok H"
    by (rule sample_invitation)
  let ?url = "to_connection_url sample_env (ss_uri H)"
  obtain C where "connect_session_with_info SL sample_env (replicate 32 CHR ''c'') ?url None = Ok C"
    using invited_client [OF H sample_init_valid _ sample_form_ok sample_sha sample_key_pair sample_key_pair sample_hashes,
        of None] by auto
  then have "on_request SL sample_env [] (replicate 32 CHR ''c'') [] (wallet ?url) = Ok C"
    by (simp add: on_request_wallet connect_session_def)
  then have step: "wallet_step SL sample_env [''client'', ?url] (Inr sample_signer) (Main_start, None) (Main_created, Some (C, 0))"
    by (intro wallet_created) (simp_all add: args_nth_def)
  have "reachable fresh_main (wallet_step SL sample_env [''client'', ?url] (Inr sample_signer)) (Main_start, None)"
    by (rule reach_init) simp
  then have reach: "reachable fresh_main (wallet_step SL sample_env [''client'', ?url] (Inr sample_signer))
      (Main_created, Some (C, 0))"
    using step by (rule reach_step)
  from wallet_program_bound [OF reach] obtain u where "session_uri_from_url sample_env ?url = Ok (Version1 u)"
    "reachable fresh_session (session_step SL) (C, 0)"
    by (auto simp: args_nth_def)
  with reach show ?thesis by blast
qed

section \<open>A bridged session\<close>

theorem bridge_refines_session_witness:
  "\<exists>B r B'. bridge_shutdown [] SL sample_network sample_webrtc (sample_nonce 0) [] B = (Some r, B') \<and>
     next_request SL B' = (Some None, B') \<and> fst (bridge_respond True 0 ''{}'' B') \<noteq> Inr ()"
proof -
  obtain H where H: "create_session SL sample_env (replicate 16 CHR ''r'') (replicate 32 CHR ''h'') [] sample_init = Ok H"
    by (rule sample_invitation)
  define B where "B = \<lparr>bs_inner = H, bs_requests = new_requests\<rparr>"
  have "reachable fresh_bridge (bridge_step SL) (B, 0)"
    by (rule reach_init) (simp add: B_def fresh_bridge_def created_fresh [OF H])
  moreover have "ss_close_result H = None" "tasks (ss_control H) = []"
    using H by (auto simp: create_session_def build_session_def new_control_def Let_def)
  then have "wait_for_tasks [] (close_control (ss_control H)) = (True, (close_control (ss_control H))\<lparr>tasks := []\<rparr>)"
    by (simp add: wait_for_tasks_def close_control_def)
  from session_close_shape [OF \<open>ss_close_result H = None\<close> this]
  obtain r S' where "session_close SL sample_network sample_webrtc (sample_nonce 0) [] H = (Some r, S')" by metis
  then obtain x B' where "bridge_shutdown [] SL sample_network sample_webrtc (sample_nonce 0) [] B = (Some x, B')"
    by (simp add: bridge_shutdown_def B_def)
  ultimately show ?thesis
    using bridge_refines_session [of SL B 0 "[]" sample_network sample_webrtc "sample_nonce 0" "[]" x B'] by blast
qed

end
