(* ===== verification/Adversary_Scenario.thy ===== *)
theory Adversary_Scenario
  imports Delivery Service_Scenario
begin

text \<open>
  The dApp and the wallet of the sample primitives on a network: from the invitation to an
  answered request, at which the theorems on the network are applied.
\<close>

lemma service_json_sound: "json_sound SL"
proof (unfold json_sound_def, intro allI impI)
  fix v w
  assume parsed: "json_parse SL (json_print SL v) = Inr w"
  let ?vs = "map signaling_message_to_value linking_messages @ map session_message_to_value asking_messages"
  have len: "length service_texts = length ?vs"
    by (simp add: service_texts_def linking_messages_def link_messages_def handshake_messages_def asking_messages_def)
  show "w = v"
  proof (cases "v \<in> set ?vs")
    case True
    with service_value_ok parsed show ?thesis by simp
  next
    case False
    then have "map_of service_table v = None"
      unfolding service_table_def using len by simp
    then have "json_print SL v = []" by (simp add: sample_platform_def)
    with parsed have "(w, []) \<in> set service_table"
      by (auto simp: sample_platform_def split: option.splits dest!: map_of_SomeD)
    moreover have "[] \<notin> snd ` set service_table"
      unfolding service_table_def using len by (auto simp: service_texts_def dest: set_zip_rightD)
    ultimately show ?thesis by force
  qed
qed

lemma service_pairs: "distinct_pairs SL KH KC"
  by (simp add: distinct_pairs_def sample_platform_ok service_json_sound sample_pair_ok) (simp add: sample_pair_def)

text \<open>A network in which the dApp has asked the wallet, and has been handed the answer.\<close>

lemma service_network:
  obtains A B where "reachable (started SL KH KC) (net_step SL) (A, B)" "trusts A B" "trusts B A"
    "holds_link SL KH B" "no_collision SL KH B" "sl_state (party_layer B) = S_Encrypted"
    "pt_asked A = [(''1'', app_request)]" "pt_answered B = [(''1'', app_request, Inr sample_answer)]"
    "ss_response_tx (pt_session A) = [Response ''1'' sample_answer]"
proof -
  obtain H where H: "create_session SL sample_env (replicate 16 CHR ''r'') (replicate 32 CHR ''h'') [] sample_init = Ok H"
    by (rule sample_invitation)
  obtain S M where S: "serving SL KH KC S" "serving SL KC KH M" "crossing SL KH KC S M"
      "\<not> sp_is_host (props (ss_signaling M))"
    by (rule carried_pair.invited_sessions_serve [OF H sample_init_valid _ sample_form_ok sample_sha sample_key_pair
          sample_key_pair sample_hashes, where pinfo = None and t = sample_time and n = sample_nonce,
          unfolded sample_init_info, OF _ sample_link_ok _ sample_environment])
       (use service_pairs in simp_all)
  note ok = session_okD(1-3) [OF sample_session_ok [of service_table]]
  obtain A B where A: "carried_from SL KH KC A B" "linked SL KH KC (pt_session A)" "linked SL KC KH (pt_session B)"
      "setup_begun (ss_transport (pt_session A))" "party_layer A = ss_signaling S" "party_layer B = ss_signaling M"
      "pt_asked A = [(''1'', app_request)]" "pt_jobs B = [(''1'', app_request)]" "pt_answered B = []"
      "ss_response_tx (pt_session A) = []"
    by (rule request_carried [where W = sample_webrtc and rnd = "sample_nonce 0", OF ok(1,2) _ _ asking_texts_each(1) S(3,1,2)])
       simp_all
  obtain A' B' where B: "carried_from SL KH KC A' B'" "linked SL KH KC (pt_session A')" "linked SL KC KH (pt_session B')"
      "party_layer A' = party_layer A" "party_layer B' = party_layer B" "pt_asked A' = pt_asked A"
      "pt_answered B' = pt_answered B @ [(''1'', app_request, Inr sample_answer)]"
      "ss_response_tx (pt_session A') = ss_response_tx (pt_session A) @ [Response ''1'' sample_answer]"
    by (rule answer_carried [where W = sample_webrtc and rnd = "sample_nonce 0",
          OF ok(1,3) _ _ asking_texts_each(3) A(1,2,4,3,8)]) simp_all
  have peers: "peers SL KH KC A' B'" by (rule carried_peers [OF B(1)])
  then have trust: "trusts A' B'" "trusts B' A'" using linked_trusts B(2,3) by (auto simp: peers_def)
  have key: "key_inv SL (party_layer B')"
    using peers by (simp add: peers_def party_inv_def session_inv_def layer_inv_def Let_def)
  have link: "relying_key (party_layer B') = Some (kp_encryption_key KH)" using B(3) by (simp add: linked_def)
  show ?thesis
  proof (rule that [OF carried_reachable [OF B(1)] trust])
    show "bound_to A' B'" "bound_to B' A'" using trust by (simp_all add: trusts_bound)
    show "holds_link SL KH B'" using key link S(4) A(6) B(5) by (simp add: key_inv_def holds_link_def)
    show "no_collision SL KH B'" using link by (simp add: no_collision_def)
    show "sl_state (party_layer B') = S_Encrypted" using S(2) A(6) B(5) by (simp add: serving_def)
  qed (use A B in simp_all)
qed

theorem handshake_authentic_witness:
  "\<exists>(A :: party) (B :: party). trusts B A \<and> trusts A B \<and>
     peer_caps (party_layer B) = Some (sp_capabilities (props (party_layer A)))"
proof -
  obtain A B where "reachable (started SL KH KC) (net_step SL) (A, B)" "holds_link SL KH B" "no_collision SL KH B"
      "sl_state (party_layer B) = S_Encrypted" by (rule service_network)
  from handshake_authentic [OF this] show ?thesis by blast
qed

theorem requests_authentic_witness:
  "\<exists>(A :: party) (B :: party). (''1'', app_request, Inr sample_answer) \<in> set (pt_answered B) \<and> (''1'', app_request) \<in> set (pt_asked A)"
proof -
  obtain A B where net: "reachable (started SL KH KC) (net_step SL) (A, B)" "trusts B A"
      "pt_answered B = [(''1'', app_request, Inr sample_answer)]" by (rule service_network)
  have "reachable (started SL KC KH) (net_step SL) (B, A)" by (rule net_swap [OF net(1)])
  from requests_authentic [OF this net(2)] net(3) show ?thesis by (intro exI [of _ A] exI [of _ B]) simp
qed

theorem answers_authentic_witness:
  "\<exists>(A :: party) (B :: party) v. receive_response 100000000 0 ''1'' 10 10
       [\<lparr>head_clock = 3, received_value = Received (Response ''1'' sample_answer), after_clock = 4\<rparr>] = Some (Ok sample_answer) \<and>
     (''1'', v) \<in> set (pt_asked A) \<and> (''1'', v, Inr sample_answer) \<in> set (pt_answered B)"
proof -
  obtain A B where net: "reachable (started SL KH KC) (net_step SL) (A, B)" "trusts A B"
      "ss_response_tx (pt_session A) = [Response ''1'' sample_answer]" by (rule service_network)
  let ?turns = "[\<lparr>head_clock = 3, received_value = Received (Response ''1'' sample_answer), after_clock = 4\<rparr>]"
  have r: "receive_response 100000000 0 ''1'' 10 10 ?turns = Some (Ok sample_answer)"
    by (simp add: receive_response_def deadline_after_def Let_def)
  from answers_authentic [OF net(1,2) _ r] net(3) r show ?thesis by auto
qed

end
