(* ===== verification/Regex.thy ===== *)
theory Regex
  imports Prelude
begin

text \<open>
  The patterns of the source are regular expressions that are matched leftmost-first: of the
  ways to match, alternatives and repetitions take the first, and the longer, one that lets
  the rest of the pattern match. This theory gives that meaning by backtracking, over the
  characters of a text, with the groups a match captures.
\<close>

section \<open>Patterns and their meaning\<close>

datatype 'a regex =
    Cls "'a \<Rightarrow> bool"
  | Seq "'a regex" "'a regex"
  | Alt "'a regex" "'a regex"
  | Opt "'a regex"
  | Star "'a \<Rightarrow> bool"
  | Grp string "'a regex"
  | Empty

type_synonym 'a captures = "string \<rightharpoonup> 'a list"

definition otherwise :: "'b option \<Rightarrow> 'b option \<Rightarrow> 'b option" where
  "otherwise x y = (case x of Some r \<Rightarrow> Some r | None \<Rightarrow> y)"

text \<open>A greedy repetition of a class: one more character first, then going on without it.\<close>

fun star_loop :: "('a \<Rightarrow> bool) \<Rightarrow> 'a list \<Rightarrow> ('a list \<Rightarrow> 'b option) \<Rightarrow> 'b option" where
  "star_loop p [] k = k []"
| "star_loop p (x # xs) k = (if p x then otherwise (star_loop p xs k) (k (x # xs)) else k (x # xs))"

text \<open>The last argument goes on with the text that is left and the groups so far.\<close>

primrec matching ::
  "'a regex \<Rightarrow> 'a list \<Rightarrow> 'a captures \<Rightarrow> ('a list \<Rightarrow> 'a captures \<Rightarrow> 'b option) \<Rightarrow> 'b option" where
  "matching (Cls p) s c k = (case s of x # xs \<Rightarrow> if p x then k xs c else None | [] \<Rightarrow> None)"
| "matching (Seq r q) s c k = matching r s c (\<lambda>s' c'. matching q s' c' k)"
| "matching (Alt r q) s c k = otherwise (matching r s c k) (matching q s c k)"
| "matching (Opt r) s c k = otherwise (matching r s c k) (k s c)"
| "matching (Star p) s c k = star_loop p s (\<lambda>s'. k s' c)"
| "matching (Grp g r) s c k = matching r s c (\<lambda>s' c'. k s' (c'(g \<mapsto> take (length s - length s') s)))"
| "matching Empty s c k = k s c"

text \<open>A pattern between \<open>^\<close> and \<open>$\<close>.\<close>

definition full_match :: "'a regex \<Rightarrow> 'a list \<Rightarrow> 'a captures option" where
  "full_match r s = matching r s Map.empty (\<lambda>s' c. if s' = [] then Some c else None)"

definition Plus :: "('a \<Rightarrow> bool) \<Rightarrow> 'a regex" where
  "Plus p = Seq (Cls p) (Star p)"

primrec Lit :: "'a list \<Rightarrow> 'a regex" where
  "Lit [] = Empty"
| "Lit (x # xs) = Seq (Cls (\<lambda>y. y = x)) (Lit xs)"

primrec Times :: "nat \<Rightarrow> ('a \<Rightarrow> bool) \<Rightarrow> 'a regex" where
  "Times 0 p = Empty"
| "Times (Suc n) p = Seq (Cls p) (Times n p)"

section \<open>Patterns that match in one way\<close>

lemma otherwise_simps [simp]:
  "otherwise None y = y" "otherwise (Some r) y = Some r" "otherwise x None = x" "otherwise x x = x"
  by (simp_all add: otherwise_def split: option.splits)

lemma star_loop_greedy:
  assumes "\<And>u v. takeWhile p s = u @ v \<Longrightarrow> k (dropWhile p s) = None \<Longrightarrow> k (v @ dropWhile p s) = None"
  shows "star_loop p s k = k (dropWhile p s)"
  using assms
proof (induction s)
  case (Cons x xs)
  show ?case
  proof (cases "p x")
    case True
    have "star_loop p xs k = k (dropWhile p xs)"
      using Cons.IH Cons.prems True by (metis append_Cons dropWhile.simps(2) takeWhile.simps(2))
    moreover have "k (dropWhile p xs) = None \<Longrightarrow> k (x # xs) = None"
      using Cons.prems [of "[]" "x # takeWhile p xs"] True by simp
    ultimately show ?thesis using True by (cases "k (dropWhile p xs)") simp_all
  qed simp
qed simp

lemma matching_Plus:
  assumes "\<And>u v. takeWhile p s = u @ v \<Longrightarrow> k (dropWhile p s) c = None \<Longrightarrow> k (v @ dropWhile p s) c = None"
  shows "matching (Plus p) s c k = (if takeWhile p s = [] then None else k (dropWhile p s) c)"
proof (cases s)
  case (Cons x xs)
  show ?thesis
  proof (cases "p x")
    case True
    have "star_loop p xs (\<lambda>s'. k s' c) = k (dropWhile p xs) c"
      using assms True Cons by (intro star_loop_greedy) (metis append_Cons dropWhile.simps(2) takeWhile.simps(2))
    with True Cons show ?thesis by (simp add: Plus_def)
  qed (use Cons in \<open>simp add: Plus_def\<close>)
qed (simp add: Plus_def)

lemma matching_Lit [simp]:
  "matching (Lit w) s c k = (if take (length w) s = w then k (drop (length w) s) c else None)"
  by (induction w arbitrary: s) (auto split: list.splits)

lemma matching_Times [simp]:
  "matching (Times n p) s c k =
     (if length (take n s) = n \<and> list_all p (take n s) then k (drop n s) c else None)"
  by (induction n arbitrary: s) (auto split: list.splits)

declare Lit.simps [simp del] Times.simps [simp del]

lemma while_until:
  assumes "\<And>y. y \<in> set a \<Longrightarrow> p y" "\<not> p x"
  shows "takeWhile p (a @ x # b) = a" "dropWhile p (a @ x # b) = x # b"
  using assms by (simp_all add: takeWhile_append2 dropWhile_append2)

text \<open>The rest of a text, up to its end, by a repetition.\<close>

lemma star_loop_end:
  "star_loop p s (\<lambda>s'. if s' = [] then Some r else None) = (if list_all p s then Some r else None)"
  by (induction s) (auto simp: otherwise_def)

lemma take_rest [simp]: "take (length s - length (dropWhile p s)) s = takeWhile p s"
  by (metis append_take_drop_id length_takeWhile_le add_diff_cancel_right' append_eq_conv_conj length_append takeWhile_dropWhile_id)

text \<open>A group of characters of a class, ended by one that is not in it.\<close>

lemma matching_group_then:
  assumes "\<not> p x"
  shows "matching (Grp g (Plus p)) s c (\<lambda>s' c'. matching (Lit [x]) s' c' k) =
    (if takeWhile p s \<noteq> [] \<and> take 1 (dropWhile p s) = [x]
     then k (drop 1 (dropWhile p s)) (c(g \<mapsto> takeWhile p s)) else None)"
proof -
  let ?k = "\<lambda>s' c'. matching (Lit [x]) s' (c'(g \<mapsto> take (length s - length s') s)) k"
  have greedy: "?k (v @ dropWhile p s) c = None"
    if "takeWhile p s = u @ v" "?k (dropWhile p s) c = None" for u v
  proof (cases v)
    case (Cons y ys)
    have "y \<in> set (takeWhile p s)" using that(1) Cons by simp
    then show ?thesis using Cons assms by (auto dest: set_takeWhileD)
  qed (use that(2) in simp)
  have "matching (Plus p) s c ?k = (if takeWhile p s = [] then None else ?k (dropWhile p s) c)"
    using greedy by (rule matching_Plus)
  then show ?thesis by simp
qed

lemma matching_optional_then:
  assumes "\<not> p x"
  shows "matching (Seq (Opt (Grp g (Plus p))) (Lit [x])) s c k =
      otherwise (if takeWhile p s \<noteq> [] \<and> take 1 (dropWhile p s) = [x]
                 then k (drop 1 (dropWhile p s)) (c(g \<mapsto> takeWhile p s)) else None)
        (if take 1 s = [x] then k (drop 1 s) c else None)"
    "matching (Opt (Seq (Grp g (Plus p)) (Lit [x]))) s c k =
      otherwise (if takeWhile p s \<noteq> [] \<and> take 1 (dropWhile p s) = [x]
                 then k (drop 1 (dropWhile p s)) (c(g \<mapsto> takeWhile p s)) else None) (k s c)"
  by (simp_all only: matching.simps(2,4) matching_group_then [of p x, OF assms]) simp

lemma matching_group_end:
  "matching (Grp g (Plus p)) s c (\<lambda>s' c'. if s' = [] then Some c' else None) =
     (if s \<noteq> [] \<and> list_all p s then Some (c(g \<mapsto> s)) else None)"
proof -
  have eq: "(\<lambda>s' (c' :: 'a captures). if s' = [] then Some (c'(g \<mapsto> take (length s - length s') s)) else None) =
      (\<lambda>s' c'. if s' = [] then Some (c'(g \<mapsto> s)) else None)"
    by (auto simp: fun_eq_iff)
  have "matching (Grp g (Plus p)) s c (\<lambda>s' c'. if s' = [] then Some c' else None) =
      matching (Plus p) s c (\<lambda>s' c'. if s' = [] then Some (c'(g \<mapsto> s)) else None)"
    unfolding matching.simps(6) by (rule arg_cong [OF eq])
  then show ?thesis by (cases s) (auto simp: Plus_def star_loop_end)
qed

end
