(* ===== verification/Patterns.thy ===== *)
theory Patterns
  imports Regex Channels Instances
begin

text \<open>
  The regular expressions of the source, as patterns: the URL of an ntfy server
  (crates/openlv/src/signaling/ntfy/url/mod.rs) and the connection URL
  (crates/openlv/src/url/v1.rs). The functions that the model uses for them compute what
  leftmost-first matching of the patterns gives.
\<close>

section \<open>The URL of an ntfy server\<close>

definition ntfy_protocol_pattern :: "char regex" where
  "ntfy_protocol_pattern = Grp ''protocol''
     (Alt (Seq (Lit ''http'') (Opt (Lit ''s''))) (Seq (Lit ''ntfy'') (Opt (Lit ''s''))))"

definition ntfy_user_pattern :: "char regex" where
  "ntfy_user_pattern = Opt (Seq (Grp ''user'' (Plus (\<lambda>x. x \<noteq> CHR '':'' \<and> x \<noteq> CHR ''@''))) (Lit '':''))"

definition ntfy_password_pattern :: "char regex" where
  "ntfy_password_pattern = Seq (Opt (Grp ''password'' (Plus (\<lambda>x. x \<noteq> CHR ''@'')))) (Lit ''@'')"

definition ntfy_userinfo_pattern :: "char regex" where
  "ntfy_userinfo_pattern = Seq ntfy_user_pattern ntfy_password_pattern"

definition ntfy_host_pattern :: "char regex" where
  "ntfy_host_pattern =
     Seq (Grp ''host'' (Plus (\<lambda>x. x \<noteq> CHR ''/'' \<and> x \<noteq> CHR ''?'')))
       (Seq (Opt (Lit ''/'')) (Grp ''parameters'' (Star (\<lambda>x. x \<noteq> CHR 0x0A))))"

definition ntfy_pattern :: "char regex" where
  "ntfy_pattern = Seq ntfy_protocol_pattern (Seq (Lit ''://'') (Seq (Opt ntfy_userinfo_pattern) ntfy_host_pattern))"

abbreviation at_end :: "'a list \<Rightarrow> 'a captures \<Rightarrow> 'a captures option" where
  "at_end s c \<equiv> if s = [] then Some c else None"

lemma captured_end:
  "(\<lambda>s'. at_end s' (c(g \<mapsto> take (length s - length s') s))) = (\<lambda>s'. if s' = [] then Some (c(g \<mapsto> s)) else None)"
  by auto

lemma parameters_match:
  "matching (Seq (Opt (Lit ''/'')) (Grp ''parameters'' (Star (\<lambda>x. x \<noteq> CHR 0x0A)))) s c at_end =
     (let params = (if take 1 s = ''/'' then drop 1 s else s) in
      if CHR 0x0A \<notin> set params then Some (c(''parameters'' \<mapsto> params)) else None)"
  by (cases s) (auto simp: captured_end star_loop_end list_all_iff Let_def)

abbreviation host_found :: "string \<Rightarrow> char captures \<Rightarrow> char captures option" where
  "host_found s c \<equiv> map_option (\<lambda>(h, p). c(''host'' \<mapsto> h, ''parameters'' \<mapsto> p)) (match_host s)"

lemma host_match: "matching ntfy_host_pattern s c at_end = host_found s c"
proof -
  let ?p = "\<lambda>x. x \<noteq> CHR ''/'' \<and> x \<noteq> CHR ''?''"
  let ?k = "\<lambda>s' c'. matching (Seq (Opt (Lit ''/'')) (Grp ''parameters'' (Star (\<lambda>x. x \<noteq> CHR 0x0A)))) s'
      (c'(''host'' \<mapsto> take (length s - length s') s)) at_end"
  have greedy: "?k (v @ dropWhile ?p s) c = None"
    if "takeWhile ?p s = u @ v" "?k (dropWhile ?p s) c = None" for u v
  proof (cases v)
    case (Cons x xs)
    have "x \<in> set (takeWhile ?p s)" using that(1) Cons by simp
    then have "x \<noteq> CHR ''/''" by (auto dest: set_takeWhileD)
    then show ?thesis
      using that(2) Cons unfolding parameters_match
      by (auto simp: Let_def split: if_splits dest: in_set_dropD)
  qed (use that(2) in simp)
  have "matching (Plus ?p) s c ?k = (if takeWhile ?p s = [] then None else ?k (dropWhile ?p s) c)"
    using greedy by (rule matching_Plus)
  moreover have "matching ntfy_host_pattern s c at_end = matching (Plus ?p) s c ?k"
    by (simp add: ntfy_host_pattern_def)
  ultimately show ?thesis unfolding parameters_match by (simp add: match_host_def Let_def)
qed

lemma password_match:
  assumes "CHR ''@'' \<notin> set u"
  shows "matching ntfy_password_pattern (u @ CHR ''@'' # t) c k =
     k t (if u = [] then c else c(''password'' \<mapsto> u))"
proof -
  have "takeWhile (\<lambda>x. x \<noteq> CHR ''@'') (u @ CHR ''@'' # t) = u" "dropWhile (\<lambda>x. x \<noteq> CHR ''@'') (u @ CHR ''@'' # t) = CHR ''@'' # t"
    by (rule while_until; use assms in auto)+
  with assms show ?thesis by (cases u) (auto simp: ntfy_password_pattern_def matching_optional_then simp del: matching.simps)
qed

lemma password_no_match:
  assumes "CHR ''@'' \<notin> set s"
  shows "matching ntfy_password_pattern s c k = None"
proof -
  have "dropWhile (\<lambda>x. x \<noteq> CHR ''@'') s = []" using assms by auto
  with assms show ?thesis by (cases s) (auto simp: ntfy_password_pattern_def matching_optional_then simp del: matching.simps)
qed

lemma userinfo_steps:
  "matching ntfy_userinfo_pattern s c k =
     (let p = \<lambda>x. x \<noteq> CHR '':'' \<and> x \<noteq> CHR ''@'' in
      otherwise (if takeWhile p s \<noteq> [] \<and> take 1 (dropWhile p s) = '':''
                 then matching ntfy_password_pattern (drop 1 (dropWhile p s)) (c(''user'' \<mapsto> takeWhile p s)) k
                 else None)
        (matching ntfy_password_pattern s c k))"
  unfolding ntfy_userinfo_pattern_def matching.simps(2) ntfy_user_pattern_def Let_def
  by (rule matching_optional_then(2)) simp

definition put :: "string \<Rightarrow> 'a list option \<Rightarrow> 'a captures \<Rightarrow> 'a captures" where
  "put g x c = (case x of Some v \<Rightarrow> c(g \<mapsto> v) | None \<Rightarrow> c)"

lemma userinfo_match:
  assumes "CHR ''@'' \<notin> set u"
  shows "matching ntfy_userinfo_pattern (u @ CHR ''@'' # t) c host_found =
    (case match_userinfo u of (user, password) \<Rightarrow> host_found t (put ''password'' password (put ''user'' user c)))"
proof (cases "CHR '':'' \<in> set u")
  case True
  then obtain a b where u: "u = a @ CHR '':'' # b" "CHR '':'' \<notin> set a" by (meson split_list_first)
  let ?pu = "\<lambda>x. x \<noteq> CHR '':'' \<and> x \<noteq> CHR ''@''"
  have "takeWhile ?pu (a @ CHR '':'' # b @ CHR ''@'' # t) = a"
    "dropWhile ?pu (a @ CHR '':'' # b @ CHR ''@'' # t) = CHR '':'' # b @ CHR ''@'' # t"
    by (rule while_until; use u assms in auto)+
  moreover have "takeWhile (\<lambda>x. x \<noteq> CHR '':'') u = a" "dropWhile (\<lambda>x. x \<noteq> CHR '':'') u = CHR '':'' # b"
    unfolding u(1) by (rule while_until; use u in auto)+
  moreover have "CHR ''@'' \<notin> set b" using u assms by simp
  ultimately show ?thesis
    using u assms password_match [of b t _ host_found] password_match [of u t _ host_found]
    by (cases "match_host t") (auto simp: userinfo_steps match_userinfo_def put_def Let_def)
next
  case False
  let ?pu = "\<lambda>x. x \<noteq> CHR '':'' \<and> x \<noteq> CHR ''@''"
  have "takeWhile ?pu (u @ CHR ''@'' # t) = u" "dropWhile ?pu (u @ CHR ''@'' # t) = CHR ''@'' # t"
    by (rule while_until; use False assms in auto)+
  moreover have "takeWhile (\<lambda>x. x \<noteq> CHR '':'') u = u" "dropWhile (\<lambda>x. x \<noteq> CHR '':'') u = []"
    using False by auto
  ultimately show ?thesis
    using assms password_match [of u t _ host_found]
    by (auto simp: userinfo_steps match_userinfo_def put_def Let_def)
qed

lemma userinfo_no_match:
  assumes "CHR ''@'' \<notin> set s"
  shows "matching ntfy_userinfo_pattern s c k = None"
proof -
  have "CHR ''@'' \<notin> set (drop 1 (dropWhile (\<lambda>x. x \<noteq> CHR '':'' \<and> x \<noteq> CHR ''@'') s))"
    using assms by (meson in_set_dropD set_dropWhileD)
  with assms show ?thesis
    by (simp add: userinfo_steps password_no_match Let_def)
qed

type_synonym ntfy_groups = "string option \<times> string option \<times> string \<times> string"

definition authority_captures :: "char captures \<Rightarrow> ntfy_groups \<Rightarrow> char captures" where
  "authority_captures c m =
     (case m of (user, password, h, p) \<Rightarrow>
        (put ''password'' password (put ''user'' user c))(''host'' \<mapsto> h, ''parameters'' \<mapsto> p))"

lemma authority_match:
  "matching (Seq (Opt ntfy_userinfo_pattern) ntfy_host_pattern) s c at_end =
     map_option (authority_captures c) (match_authority s)"
proof -
  have eq: "matching (Seq (Opt ntfy_userinfo_pattern) ntfy_host_pattern) s c at_end =
      otherwise (matching ntfy_userinfo_pattern s c host_found) (host_found s c)"
    by (simp only: matching.simps(2,4) host_match)
  show ?thesis
  proof (cases "CHR ''@'' \<in> set s")
    case True
    then obtain u t where s: "s = u @ CHR ''@'' # t" "CHR ''@'' \<notin> set u" by (meson split_list_first)
    have "takeWhile (\<lambda>x. x \<noteq> CHR ''@'') s = u" "dropWhile (\<lambda>x. x \<noteq> CHR ''@'') s = CHR ''@'' # t"
      unfolding s(1) by (rule while_until; use s in auto)+
    moreover have plain: "host_found s c = map_option (authority_captures c)
        (map_option (\<lambda>(h, p). (None, None, h, p)) (match_host s))"
      by (cases "match_host s") (auto simp: authority_captures_def put_def)
    ultimately show ?thesis
      using eq userinfo_match [OF s(2), of t c]
      by (cases "match_host t") (auto simp: s(1) match_authority_def authority_captures_def Let_def split: prod.splits)
  next
    case False
    then have "dropWhile (\<lambda>x. x \<noteq> CHR ''@'') s = []" by auto
    with eq userinfo_no_match [OF False] show ?thesis
      by (cases "match_host s") (auto simp: match_authority_def authority_captures_def put_def Let_def)
  qed
qed

lemma strip_scheme_Some: "strip_scheme s url = Some r \<longleftrightarrow> url = s @ ''://'' @ r"
proof
  assume "strip_scheme s url = Some r"
  then have "take (length s + 3) url = s @ ''://''" "drop (length s + 3) url = r"
    by (auto simp: strip_scheme_def split: if_splits)
  then show "url = s @ ''://'' @ r" using append_take_drop_id [of "length s + 3" url] by simp
qed (simp add: strip_scheme_def)

lemma strip_scheme_append:
  "strip_scheme (a @ b) url = (if take (length a) url = a then strip_scheme b (drop (length a) url) else None)"
proof -
  have "strip_scheme (a @ b) url = Some r \<longleftrightarrow>
      (if take (length a) url = a then strip_scheme b (drop (length a) url) else None) = Some r" for r
    by (auto simp: strip_scheme_Some) (metis append_take_drop_id)
  then show ?thesis by (metis option.exhaust)
qed

lemma strip_scheme_Nil: "strip_scheme [] url = (if take 3 url = ''://'' then Some (drop 3 url) else None)"
  by (simp add: strip_scheme_def)

definition ntfy_groups_of :: "char captures \<Rightarrow> string \<times> ntfy_groups" where
  "ntfy_groups_of c = (the (c ''protocol''), c ''user'', c ''password'', the (c ''host''), the (c ''parameters''))"

lemma ntfy_groups_of_captures [simp]:
  "ntfy_groups_of (authority_captures [''protocol'' \<mapsto> s] m) = (s, m)"
  by (cases m) (auto simp: ntfy_groups_of_def authority_captures_def put_def split: option.splits)

lemma scheme_match:
  "map_option ntfy_groups_of
     (if take (length s) url = s then
        matching (Seq (Lit ''://'') (Seq (Opt ntfy_userinfo_pattern) ntfy_host_pattern)) (drop (length s) url)
          [''protocol'' \<mapsto> s] at_end
      else None) =
   Option.bind (strip_scheme s url) (\<lambda>r. map_option (\<lambda>m. (s, m)) (match_authority r))"
  unfolding strip_scheme_append [of s "[]", simplified] strip_scheme_Nil matching.simps(2) [of "Lit _"] authority_match
  by (auto simp: option.map_comp comp_def numeral_3_eq_3)

lemma map_otherwise: "map_option f (otherwise x y) = otherwise (map_option f x) (map_option f y)"
  by (cases x) simp_all

lemma optional_suffix:
  "matching (Seq (Lit a) (Opt (Lit b))) s c k =
     otherwise (if take (length (a @ b)) s = a @ b then k (drop (length (a @ b)) s) c else None)
       (if take (length a) s = a then k (drop (length a) s) c else None)"
proof (cases "take (length a) s = a")
  case True
  then have "take (length (a @ b)) s = a @ b \<longleftrightarrow> take (length b) (drop (length a) s) = b" by (simp add: take_add)
  with True show ?thesis by (simp add: add.commute)
next
  case False
  then have "take (length (a @ b)) s \<noteq> a @ b" by (metis append_eq_conv_conj append_take_drop_id append_assoc)
  with False show ?thesis by simp
qed

lemma captured_prefix: "take (length w) s = w \<Longrightarrow> take (length s - length (drop (length w) s)) s = w"
  by (metis append_eq_conv_conj append_take_drop_id diff_diff_cancel length_drop length_take min.cobounded1)

lemma captured_cong:
  "(if take (length w) s = w then k (drop (length w) s) (c(g \<mapsto> take (length s - length (drop (length w) s)) s)) else None) =
   (if take (length w) s = w then k (drop (length w) s) (c(g \<mapsto> w)) else None)"
  using captured_prefix [of w s] by simp

lemma protocol_match:
  fixes url :: string and c :: "char captures" and k :: "string \<Rightarrow> char captures \<Rightarrow> 'b option"
  defines "attempt \<equiv> \<lambda>s. if take (length s) url = s then k (drop (length s) url) (c(''protocol'' \<mapsto> s)) else None"
  shows "matching ntfy_protocol_pattern url c k =
    otherwise (otherwise (attempt ''https'') (attempt ''http'')) (otherwise (attempt ''ntfys'') (attempt ''ntfy''))"
  unfolding ntfy_protocol_pattern_def matching.simps(3,6) optional_suffix captured_cong attempt_def by simp

text \<open>
  C27. The parser of ntfy URLs reads them as the regular expression of the source does: for
  every text, its groups are those of the first match in the order in which backtracking
  tries them, and it has none exactly where the expression does not match.
\<close>

theorem ntfy_captures_pattern:
  "ntfy_captures url = map_option ntfy_groups_of (full_match ntfy_pattern url)"
proof -
  let ?rest = "Seq (Lit ''://'') (Seq (Opt ntfy_userinfo_pattern) ntfy_host_pattern)"
  let ?attempt = "\<lambda>s. if take (length s) url = s then matching ?rest (drop (length s) url) [''protocol'' \<mapsto> s] at_end else None"
  have "full_match ntfy_pattern url =
      otherwise (otherwise (?attempt ''https'') (?attempt ''http'')) (otherwise (?attempt ''ntfys'') (?attempt ''ntfy''))"
    unfolding full_match_def ntfy_pattern_def matching.simps(2) [of ntfy_protocol_pattern] protocol_match ..
  then show ?thesis
    by (simp only: map_otherwise scheme_match ntfy_captures_def Let_def) (simp add: otherwise_def split: option.splits)
qed

section \<open>The connection URL\<close>

text \<open>Over the characters of the text, since \<open>\\d\<close> holds digits of more than one byte.\<close>

definition one :: "(char \<Rightarrow> bool) \<Rightarrow> string \<Rightarrow> bool" where
  "one p c = (case c of [b] \<Rightarrow> p b | _ \<Rightarrow> False)"

definition uri_pattern :: "uri_env \<Rightarrow> string regex" where
  "uri_pattern E =
     Seq (Lit (map (\<lambda>b. [b]) ''openlv://''))
       (Seq (Grp ''1'' (Times 16 (one is_id_char)))
          (Seq (Lit [''@''])
             (Seq (Grp ''2'' (Plus (is_d E)))
                (Seq (Lit [''?'']) (Grp ''3'' (Plus (\<lambda>c. c \<noteq> [CHR 0x0A])))))))"

definition uri_groups_of :: "string captures \<Rightarrow> string \<times> string \<times> string" where
  "uri_groups_of c = (concat (the (c ''1'')), concat (the (c ''2'')), concat (the (c ''3'')))"

text \<open>In a valid text no continuation byte follows an ASCII character.\<close>

lemma utf8_valid_ascii_tail:
  assumes "utf8_valid (a # s)" "is_ascii a"
  shows "utf8_valid s" "s \<noteq> [] \<Longrightarrow> \<not> is_cont (hd s)"
proof -
  have head: "\<not> is_cont (hd t)" if "utf8_valid t" "t \<noteq> []" for t
    using that
    by (cases t rule: utf8_valid.cases) (auto simp: is_ascii_def in_range_def is_cont_def split: if_splits)
  show tail: "utf8_valid s"
    using assms by (cases "a # s" rule: utf8_valid.cases) auto
  show "s \<noteq> [] \<Longrightarrow> \<not> is_cont (hd s)" using head [OF tail] by simp
qed

lemma chars_ascii_append:
  assumes "utf8_valid (w @ s)" "\<forall>b \<in> set w. is_ascii b"
  shows "chars (w @ s) = map (\<lambda>b. [b]) w @ chars s"
  using assms
proof (induction w)
  case (Cons a w)
  then have "utf8_valid (w @ s)" "w @ s \<noteq> [] \<Longrightarrow> \<not> is_cont (hd (w @ s))"
    using utf8_valid_ascii_tail [of a "w @ s"] by simp_all
  then have "takeWhile is_cont (w @ s) = []" "dropWhile is_cont (w @ s) = w @ s"
    by (cases "w @ s"; simp)+
  with Cons \<open>utf8_valid (w @ s)\<close> show ?case by simp
qed simp

lemma one_chars: "list_all (one p) cs \<Longrightarrow> cs = map (\<lambda>b. [b]) (concat cs) \<and> list_all p (concat cs) \<and> length (concat cs) = length cs"
  by (induction cs) (auto simp: one_def split: list.splits)

lemma uri_tail_match:
  "matching (Seq (Grp ''2'' (Plus (is_d E))) (Seq (Lit [''?'']) (Grp ''3'' (Plus (\<lambda>c. c \<noteq> [CHR 0x0A]))))) cs c at_end =
     (let digits = takeWhile (is_d E) cs; query = drop 1 (dropWhile (is_d E) cs) in
      if digits \<noteq> [] \<and> take 1 (dropWhile (is_d E) cs) = [''?''] \<and> query \<noteq> [] \<and> list_all (\<lambda>c. c \<noteq> [CHR 0x0A]) query
      then Some (c(''2'' \<mapsto> digits, ''3'' \<mapsto> query)) else None)"
proof -
  have "\<not> is_d E ''?''" by (simp add: is_d_def is_digit_def)
  then show ?thesis
    by (simp add: matching.simps(2) matching_group_then [of "is_d E" "''?''"] matching_group_end Let_def
        del: matching.simps(6) matching_Lit)
qed

lemma uri_pattern_match:
  fixes cs :: "string list"
  defines "sid \<equiv> take 16 (drop 9 cs)"
  shows "full_match (uri_pattern E) cs =
    (if take 9 cs = map (\<lambda>b. [b]) ''openlv://'' \<and> length sid = 16 \<and> list_all (one is_id_char) sid \<and> take 1 (drop 25 cs) = [''@'']
     then matching (Seq (Grp ''2'' (Plus (is_d E))) (Seq (Lit [''?'']) (Grp ''3'' (Plus (\<lambda>c. c \<noteq> [CHR 0x0A])))))
            (drop 26 cs) [''1'' \<mapsto> sid] at_end
     else None)"
proof -
  let ?rest = "Seq (Grp ''2'' (Plus (is_d E))) (Seq (Lit [''?'']) (Grp ''3'' (Plus (\<lambda>c. c \<noteq> [CHR 0x0A]))))"
  have group: "matching (Grp ''1'' (Times 16 (one is_id_char))) s c k =
      (if length (take 16 s) = 16 \<and> list_all (one is_id_char) (take 16 s) then k (drop 16 s) (c(''1'' \<mapsto> take 16 s)) else None)"
    for s c and k :: "string list \<Rightarrow> string captures \<Rightarrow> string captures option"
    by (auto simp: min_def split: if_splits)
  have lit: "matching (Lit (map (\<lambda>b. [b]) ''openlv://'')) s c k =
      (if take 9 s = map (\<lambda>b. [b]) ''openlv://'' then k (drop 9 s) c else None)"
    "matching (Lit [''@'']) s c k = (if take 1 s = [''@''] then k (drop 1 s) c else None)"
    for s c and k :: "string list \<Rightarrow> string captures \<Rightarrow> string captures option"
    by (simp_all add: numeral_eq_Suc)
  show ?thesis
    unfolding full_match_def uri_pattern_def matching.simps(2) [of "Lit (map _ _)"] lit(1)
      matching.simps(2) [of "Grp ''1'' _"] group matching.simps(2) [of "Lit [''@'']"] lit(2) sid_def
    by (simp add: drop_drop del: matching.simps)
qed

lemma four_parts: "xs = take a xs @ take b (drop a xs) @ take c (drop (a + b) xs) @ drop (a + b + c) xs"
  by (metis add.commute append_take_drop_id drop_drop)

lemma uri_prefix_chars:
  assumes "utf8_valid (''openlv://'' @ sid @ ''@'' @ rest)" "list_all is_id_char sid"
  shows "chars (''openlv://'' @ sid @ ''@'' @ rest) =
    map (\<lambda>b. [b]) ''openlv://'' @ map (\<lambda>b. [b]) sid @ [''@''] @ chars rest"
proof -
  have "is_ascii b" if "is_id_char b" for b
    using that by (auto simp: is_id_char_def is_ascii_def is_digit_def)
  then have "\<forall>b \<in> set (''openlv://'' @ sid @ ''@''). is_ascii b"
    using assms(2) by (auto simp: list_all_iff is_ascii_def)
  with chars_ascii_append [of "''openlv://'' @ sid @ ''@''" rest] assms(1) show ?thesis by simp
qed

lemma one_map [simp]: "list_all (one p) (map (\<lambda>b. [b]) s) = list_all p s"
  by (simp add: list_all_iff one_def)

lemma uri_prefix:
  assumes "utf8_valid url"
  shows "take 9 (chars url) = map (\<lambda>b. [b]) ''openlv://'' \<and> length (take 16 (drop 9 (chars url))) = 16 \<and>
      list_all (one is_id_char) (take 16 (drop 9 (chars url))) \<and> take 1 (drop 25 (chars url)) = [''@''] \<longleftrightarrow>
    (\<exists>sid rest. url = ''openlv://'' @ sid @ ''@'' @ rest \<and> length sid = 16 \<and> list_all is_id_char sid)"
  (is "?L = ?R")
proof
  let ?cs = "chars url"
  assume L: ?L
  have "?cs = take 9 ?cs @ take 16 (drop 9 ?cs) @ take 1 (drop 25 ?cs) @ drop 26 ?cs"
    using four_parts [of ?cs 9 16 1] by simp
  then have "url = concat (take 9 ?cs @ take 16 (drop 9 ?cs) @ take 1 (drop 25 ?cs) @ drop 26 ?cs)"
    by (metis concat_chars)
  with L one_chars [of is_id_char "take 16 (drop 9 ?cs)"] show ?R
    by (intro exI [of _ "concat (take 16 (drop 9 ?cs))"] exI [of _ "concat (drop 26 ?cs)"]) simp
next
  assume ?R
  then obtain sid rest where url: "url = ''openlv://'' @ sid @ ''@'' @ rest" "length sid = 16" "list_all is_id_char sid" by auto
  with uri_prefix_chars [of sid rest] assms show ?L by simp
qed

lemma concat_singles [simp]: "concat (map (\<lambda>b. [b]) s) = s"
  by (induction s) simp_all

text \<open>
  C28. A connection URL is read as the regular expression of the source reads it: for every
  text that is a Rust string, the session id, version and query are the groups of the first
  match, and there are none exactly where the expression does not match.
\<close>

theorem uri_captures_pattern:
  assumes "utf8_valid url"
  shows "uri_captures E url = map_option uri_groups_of (full_match (uri_pattern E) (chars url))"
proof (cases "\<exists>sid rest. url = ''openlv://'' @ sid @ ''@'' @ rest \<and> length sid = 16 \<and> list_all is_id_char sid")
  case True
  then obtain sid rest where url: "url = ''openlv://'' @ sid @ ''@'' @ rest" "length sid = 16" "list_all is_id_char sid"
    by blast
  have cs: "chars url = map (\<lambda>b. [b]) ''openlv://'' @ map (\<lambda>b. [b]) sid @ [''@''] @ chars rest"
    using uri_prefix_chars [of sid rest] assms url by simp
  have "full_match (uri_pattern E) (chars url) =
      matching (Seq (Grp ''2'' (Plus (is_d E))) (Seq (Lit [''?'']) (Grp ''3'' (Plus (\<lambda>c. c \<noteq> [CHR 0x0A])))))
        (chars rest) [''1'' \<mapsto> map (\<lambda>b. [b]) sid] at_end"
    using url(2,3) by (simp add: uri_pattern_match cs del: matching.simps)
  then show ?thesis
    unfolding uri_tail_match using url by (simp add: uri_captures_def uri_groups_of_def Let_def)
next
  case False
  then have "full_match (uri_pattern E) (chars url) = None"
    unfolding uri_pattern_match uri_prefix [OF assms] by (simp only: if_False simp_thms)
  moreover have "uri_captures E url = None"
  proof (rule ccontr)
    assume "uri_captures E url \<noteq> None"
    then have "take 9 url = ''openlv://''" "length (take 16 (drop 9 url)) = 16" "list_all is_id_char (take 16 (drop 9 url))"
      "take 1 (drop 25 url) = ''@''"
      by (auto simp: uri_captures_def Let_def split: if_splits)
    with four_parts [of url 9 16 1] have "url = ''openlv://'' @ take 16 (drop 9 url) @ ''@'' @ drop 26 url" by simp
    with False \<open>length (take 16 (drop 9 url)) = 16\<close> \<open>list_all is_id_char (take 16 (drop 9 url))\<close> show False by metis
  qed
  ultimately show ?thesis by simp
qed

theorem uri_captures_pattern_witness:
  "map_option uri_groups_of (full_match (uri_pattern sample_env) (chars ''openlv://0123456789abcdef@1?k=x'')) =
     Some (''0123456789abcdef'', ''1'', ''k=x'') \<and>
   full_match (uri_pattern sample_env) (chars ''openlv://short@1?k=x'') = None"
proof -
  have "uri_captures sample_env ''openlv://0123456789abcdef@1?k=x'' = Some (''0123456789abcdef'', ''1'', ''k=x'')"
    "uri_captures sample_env ''openlv://short@1?k=x'' = None"
    by (simp_all add: uri_captures_def is_id_char_def is_d_def is_digit_def is_cont_def Let_def)
  then show ?thesis
    using uri_captures_pattern [of "''openlv://0123456789abcdef@1?k=x''" sample_env] uri_captures_pattern [of "''openlv://short@1?k=x''" sample_env]
    by (simp add: is_ascii_def utf8_valid_ascii)
qed

end
