(* ===== verification/Spec2Isabelle.thy ===== *)
theory Spec2Isabelle
  imports Agreement Adversary_Scenario Patterns
begin

text \<open>
  openlv connects a dApp, the host, and a wallet, the client. They meet on a topic of a public
  message broker, agree on keys there, and then talk peer to peer.

  \<^bold>\<open>The program.\<close> A host creates a session (\<open>session/mod.rs\<close>) and shows its connection URL
  (\<open>url/\<close>), which names a topic and its server, the hash of the host's public key and a
  handshake key. A client that opens the URL and the host then run a handshake in the
  signaling layer (\<open>signaling/layer/\<close>) over a channel (\<open>signaling/ntfy/\<close>,
  \<open>signaling/mqtt/\<close>): flash, public keys, capabilities, carried in wire frames
  (\<open>signaling/wire/\<close>) and encrypted first with the handshake key, then with the keys of the
  two sides (\<open>encryption/\<close>). When the layer is encrypted, the session negotiates a WebRTC
  connection over it (\<open>transport/webrtc.rs\<close>), on which requests, acknowledgements and
  responses travel (\<open>transport/message/\<close>, \<open>session/response/\<close>), each request in a task of
  the session's control (\<open>session/control/\<close>). A JSON-RPC provider for Alloy (\<open>provider/\<close>)
  and a bridge to other languages (\<open>crates/openlv-ffi\<close>) stand on top. All paths are under
  src/crates/openlv/src unless they say otherwise.

  \<^bold>\<open>The theories.\<close>
  \<^item> \<open>Prelude\<close>: bytes and texts (a Rust string is the list of its UTF-8 bytes), slicing with
    its panics, results as sums, and the locale of transition systems with an invariant.
  \<^item> \<open>Errors\<close>: \<open>OpenLvError\<close> and its texts; a fault is an error value or a panic.
  \<^item> \<open>Json\<close>: values of serde_json and the shapes of derived structs and tagged enums.
  \<^item> \<open>Wire\<close>: \<open>compose_frame\<close>, \<open>parse_frame\<close>; the parser accepts exactly what is composed.
  \<^item> \<open>Messages\<close>: signaling, negotiation and session messages, their JSON and validation.
  \<^item> \<open>Crypto\<close>: hex keys, handshake and peer encryption, public key hashes. AEAD, X25519,
    HKDF, SHA-256, base64 and the JSON text codec are fields of the record \<open>platform\<close>;
    what is relied on is stated by \<open>base64_ok\<close>, \<open>aead_ok\<close>, \<open>x25519_ok\<close>, \<open>text_ok\<close>.
  \<^item> \<open>Uri\<close>: connection URLs, session ids, redaction. Form encoding and Unicode lowering are
    fields of \<open>uri_env\<close>.
  \<^item> \<open>Instances\<close>: concrete primitives that satisfy these laws.
  \<^item> \<open>Signaling\<close>: the record \<open>layer\<close> (\<open>SignalingInner\<close>) with the tasks it has spawned, its
    operations, \<open>layer_step\<close> for one operation after the other, and its invariants.
  \<^item> \<open>Handshake\<close>: two layers exchanging their frames; \<open>Scenario\<close>: a concrete pair.
  \<^item> \<open>Interleaving\<close>: the same layer with every handler split at its awaits.
  \<^item> \<open>Channels\<close>: the trait \<open>SignalingChannel\<close> as a locale, interpreted by the ntfy and MQTT
    channels and by the boxed channel a layer owns; ntfy URLs; the ntfy reader task.
  \<^item> \<open>Control\<close>: admission and tasks, with a locale of bounded admission; \<open>Response\<close>: the wait
    for a response under its two deadlines; \<open>Transport\<close>: the WebRTC layer over the record
    \<open>webrtc\<close> of library calls, its setup in one go and from await to await.
  \<^item> \<open>Session\<close>: creation, connecting, loops, requests, closing; \<open>Session_Properties\<close> and
    \<open>Session_Scenario\<close>: its properties and concrete sessions.
  \<^item> \<open>Session_System\<close>: everything that may happen to a session as steps, with the number of
    handlers alive; the task of a handler and the setup of the transport are split at their
    awaits, so that anything may happen in between. Signaling layer and control
    of a session refine to the components' own steps.
  \<^item> \<open>Loops\<close>: the four event loops of a session as tasks that lag, end and are stopped.
  \<^item> \<open>Speaking\<close>: a session with the requests it has sent, the handlers it runs and the answers
    they gave, and that every ciphertext it sends is one of these messages.
  \<^item> \<open>Adversary\<close>: two such parties on a network that loses, repeats, redirects and invents
    what they receive, but does not forge ciphertexts (\<open>unforged\<close>); \<open>Delivery\<close>: a network that
    only carries is one of them; \<open>Adversary_Scenario\<close>: an answered request on it.
  \<^item> \<open>Agreement\<close>: the handshake as an abstract key agreement of four steps, which the
    interleaved signaling layer refines.
  \<^item> \<open>Linking\<close>: two sessions connecting, negotiating and opening their data channel, or losing
    an offer while a setup is under way, with the locale \<open>session_pair\<close> of what such a run keeps.
  \<^item> \<open>Provider\<close>: \<open>exchange\<close> and the Alloy transport; \<open>Wallet\<close>: the request handlers and the
    \<open>main\<close> functions of the two programs under src/examples; \<open>Service\<close> and
    \<open>Service_Scenario\<close>: a request over a link, and a concrete dApp and wallet.
  \<^item> \<open>Ffi\<close>: errors, requests, states and session creation of the bridge; \<open>Bridge\<close>: its other
    methods, its queue as a refinement, and the bridged session as steps.
  \<^item> \<open>Regex\<close>: leftmost-first matching by backtracking; \<open>Patterns\<close>: the regular expressions of
    the source and that the parsers of the model agree with them.

  The interfaces are locales: \<open>inv_system\<close> and \<open>refinement\<close> (\<open>Prelude\<close>) relate a component's
  steps to its invariant and to a more abstract system, \<open>codec\<close> is a pair of encoder and
  decoder, \<open>signaling_channel\<close> is the trait of that name, \<open>Control\<close> states bounded
  admission, and \<open>session_pair\<close> is what the steps of two sessions keep, be it that both are
  reachable or that a network has carried everything between them. Each is interpreted on
  the definitions of the model.

  \<^bold>\<open>What is shown.\<close> Authenticity, against a network that can do anything but make or alter a
  ciphertext under a key it does not have: an invited client that is encrypted shares its
  keys with the host of its link, a handler runs only for requests the peer has sent, and a
  caller gets only what the handler of the peer returned for its request, so that a dApp
  gets only what its wallet computed for what it asked; the direction in
  the key derivation rules out reflections, the shapes of the messages rule out that one
  kind passes for another. Replays are outside these theorems: a ciphertext carries no
  sequence number, so what the peer has sent once may be taken twice. Safety: the signaling
  layer refines an agreement in which the client takes only the key it was invited to and
  nothing recorded ever changes, also when handlers interleave; a host records only the key that sent the frame; nobody but that peer is heard
  by a session, in any state it can reach; the wallet program is only bound to the host of
  its URL and signs only for its own account. Progress: an invitation leads to two connected
  sessions, through the handshake, the crossing of offer and answer and the opening of the
  data channel, and over them a dApp's request gets exactly the wallet's answer; a lost last
  frame is repaired; waits end by their deadlines; closing returns and is final. Components:
  inside a session, and inside a bridged session, signaling layer, control and request queue
  only do what they do on their own, so that at most 256 handlers run and requests are
  handed out in order, each once. Codecs: frames, URLs and messages survive their round
  trips, the URL parsers agree with their regular expressions, and every panic of the frame
  parser is characterised. Some theorems state flaws: the panic of the parser, a resending
  task that overlapping sends leak, at signs in ntfy URLs, a session created with a foreign
  hash, event loops that end for good when they lag, and an offer that is dropped because it
  arrives before the connection is stored.

  \<^bold>\<open>Time, bounds and waiting.\<close> Loops over received items recurse on the list of what they
  observe, one element per turn, and give \<open>None\<close> where the list ends before they return;
  theorems that they return say how long a list suffices. No other fuel is used. Counters
  and timestamps are 64 bit words; clocks are nanoseconds as natural numbers. The ids of
  bridged requests are assumed not to wrap around.

  \<^bold>\<open>What is not modelled.\<close> The network, the WebRTC library, the primitives, the signer and the
  Tokio runtime are parameters or observed turns; what is relied on for the theorems of
  progress is stated by \<open>network_ok\<close> and \<open>webrtc_ok\<close>, for authenticity by \<open>unforged\<close>,
  \<open>json_sound\<close> and \<open>no_collision\<close>. Timer periods only show as steps that may happen. Broadcast
  channels are logs without a capacity, except that receivers may be told they lagged. A
  turn of a session's loop is one step; the signaling layer, the setup of the transport and
  the handlers of requests are split at their awaits. \<open>default_ice_servers\<close>, the \<open>Debug\<close> implementations, what the examples
  print, the re-exports of \<open>lib.rs\<close> and the generated bindings are left out;
  \<open>provider/alloy_2.rs\<close> is \<open>alloy_1.rs\<close> over another version of its library.

  \<^bold>\<open>Open.\<close> The calls on a peer connection and the sends of the transport's events split at
  their awaits, and broadcast channels with their capacity.
\<close>

section \<open>From an invitation to an answer\<close>

text \<open>
  C6. An invitation leads to a link: a client opened with the URL of a created session exists,
  and when both connect over a working network and exchange the frames each sends, their
  signaling is encrypted, the host's offer and the client's answer cross, each connection
  gets the description of the other, and both sessions end connected, each with the key of
  the other. Every step on the way is one that sessions make.
\<close>

theorem invited_sessions_link:
  assumes host: "create_session P E rid rkp rhk i = Ok H" "valid_init i" "length rid = 16" "form_ok E"
      "\<And>b. length (sha256 P b) = 32"
    and keys: "generate_key_pair P rkp = Ok kh" "generate_key_pair P rkp' = Ok kc"
      "hash_public_key P (kp_encryption_key kc) \<noteq> hash_public_key P (kp_encryption_key kh)"
    and ok: "session_ok P kh kc (own_capabilities (si_info i)) (own_capabilities pinfo)"
      "list_all (text_ok P) (link_messages kh kc (own_capabilities (si_info i)) (own_capabilities pinfo) t u offt anst)"
      "\<And>j. length (n j) = 12"
    and env: "network_ok N" "webrtc_ok W off offt ans anst"
  shows "\<exists>C H1 C1 H2 C2 H3 C3.
    connect_session_with_info P E rkp' (to_connection_url E (ss_uri H)) pinfo = Ok C \<and>
    session_run P N t n H C = (H1, C1) \<and> negotiate P N W t n u H1 C1 = (H2, C2) \<and>
    H3 = open_channel H2 \<and> C3 = open_channel C2 \<and> ss_status H3 = Connected \<and> ss_status C3 = Connected \<and>
    relying_key (ss_signaling H3) = Some (kp_encryption_key kc) \<and>
    relying_key (ss_signaling C3) = Some (kp_encryption_key kh) \<and>
    peer_connection (ss_transport H3) = Some [Set_local off, Set_remote ans] \<and>
    peer_connection (ss_transport C3) = Some [Set_remote off, Set_local ans] \<and>
    session_reachable P H3 \<and> session_reachable P C3"
proof -
  obtain C H1 C1 H2 C2 where "connect_session_with_info P E rkp' (to_connection_url E (ss_uri H)) pinfo = Ok C"
    "session_run P N t n H C = (H1, C1)" "negotiate P N W t n u H1 C1 = (H2, C2)"
    "serving P kh kc (open_channel H2)" "serving P kc kh (open_channel C2)"
    "peer_connection (ss_transport (open_channel H2)) = Some [Set_local off, Set_remote ans]"
    "peer_connection (ss_transport (open_channel C2)) = Some [Set_remote off, Set_local ans]"
    by (rule reachable_pair.invited_sessions_serve [OF host keys ok env])
  then show ?thesis by (auto simp: serving_def linked_def)
qed

theorem invited_sessions_link_witness:
  "\<exists>H C H1 C1 H2 C2.
    create_session SL sample_env (replicate 16 CHR ''r'') (replicate 32 CHR ''h'') [] sample_init = Ok H \<and>
    connect_session_with_info SL sample_env (replicate 32 CHR ''c'') (to_connection_url sample_env (ss_uri H)) None = Ok C \<and>
    session_run SL sample_network sample_time sample_nonce H C = (H1, C1) \<and>
    negotiate SL sample_network sample_webrtc sample_time sample_nonce sample_uuid H1 C1 = (H2, C2) \<and>
    ss_status (open_channel H2) = Connected \<and> ss_status (open_channel C2) = Connected"
proof -
  obtain H where H: "create_session SL sample_env (replicate 16 CHR ''r'') (replicate 32 CHR ''h'') [] sample_init = Ok H"
    by (rule sample_invitation)
  from invited_sessions_link [OF H sample_init_valid _ sample_form_ok sample_sha sample_key_pair sample_key_pair sample_hashes,
      where pinfo = None and t = sample_time and n = sample_nonce, unfolded sample_init_info,
      OF _ sample_link_ok _ sample_environment] H
  show ?thesis by auto
qed

text \<open>
  C38. The offer of a host is lost on a client that is slower to set up its transport: after
  the same invitation and handshake, over a network that delivers every frame, there is a run
  in which the client hears the offer and handles it while its setup has built the connection
  and not yet stored it. Both transports end ready, the host waits for an answer, the client's
  connection has been given no description and nothing is left for it to send. No message is
  kept for a connection that is not there yet, only candidates for one without a description.
\<close>

theorem early_offer_lost:
  assumes host: "create_session P E rid rkp rhk i = Ok H" "valid_init i" "length rid = 16" "form_ok E"
      "\<And>b. length (sha256 P b) = 32"
    and keys: "generate_key_pair P rkp = Ok kh" "generate_key_pair P rkp' = Ok kc"
      "hash_public_key P (kp_encryption_key kc) \<noteq> hash_public_key P (kp_encryption_key kh)"
    and ok: "session_ok P kh kc (own_capabilities (si_info i)) (own_capabilities pinfo)"
      "list_all (text_ok P) (link_messages kh kc (own_capabilities (si_info i)) (own_capabilities pinfo) t u offt anst)"
      "\<And>j. length (n j) = 12"
    and env: "network_ok N" "webrtc_ok W off offt ans anst"
  shows "\<exists>C H1 C1 H2 C2.
    connect_session_with_info P E rkp' (to_connection_url E (ss_uri H)) pinfo = Ok C \<and>
    session_run P N t n H C = (H1, C1) \<and> negotiate_unready P N W t n u H1 C1 = (H2, C2) \<and>
    last (message_tx (ss_signaling C2)) = relayed (u 0) (offer_message offt) \<and>
    tp_state (ss_transport H2) = T_Ready \<and> peer_connection (ss_transport H2) = Some [Set_local off] \<and>
    tp_state (ss_transport C2) = T_Ready \<and> peer_connection (ss_transport C2) = Some [] \<and>
    tp_events (ss_transport C2) = [] \<and> session_reachable P H2 \<and> session_reachable P C2"
proof -
  obtain C H1 C1 H2 C2 where "connect_session_with_info P E rkp' (to_connection_url E (ss_uri H)) pinfo = Ok C"
    "session_run P N t n H C = (H1, C1)" "negotiate_unready P N W t n u H1 C1 = (H2, C2)"
    "session_reachable P H2 \<and> session_reachable P C2"
    "ss_transport H2 = transport_at True [T_Connecting, T_Ready] [offer_message offt] [Set_local off] True"
    "ss_transport C2 = transport_at False [T_Connecting, T_Ready] [] [] False"
    "last (message_tx (ss_signaling C2)) = relayed (u 0) (offer_message offt)"
    by (rule reachable_pair.invited_sessions_unready [OF host keys ok env])
  then show ?thesis by (simp add: transport_at_def)
qed

theorem early_offer_lost_witness:
  "\<exists>H C H1 C1 H2 C2.
    create_session SL sample_env (replicate 16 CHR ''r'') (replicate 32 CHR ''h'') [] sample_init = Ok H \<and>
    connect_session_with_info SL sample_env (replicate 32 CHR ''c'') (to_connection_url sample_env (ss_uri H)) None = Ok C \<and>
    session_run SL sample_network sample_time sample_nonce H C = (H1, C1) \<and>
    negotiate_unready SL sample_network sample_webrtc sample_time sample_nonce sample_uuid H1 C1 = (H2, C2) \<and>
    peer_connection (ss_transport C2) = Some [] \<and> tp_events (ss_transport C2) = []"
proof -
  obtain H where H: "create_session SL sample_env (replicate 16 CHR ''r'') (replicate 32 CHR ''h'') [] sample_init = Ok H"
    by (rule sample_invitation)
  from early_offer_lost [OF H sample_init_valid _ sample_form_ok sample_sha sample_key_pair sample_key_pair sample_hashes,
      where pinfo = None and t = sample_time and n = sample_nonce, unfolded sample_init_info,
      OF _ sample_link_ok _ sample_environment] H
  show ?thesis by auto
qed

text \<open>
  C7. A dApp gets the wallet's answer: over the link that an invitation leads to, any request
  the dApp's provider sends is handed to the wallet's handler, and the exchange gives back
  exactly the response that the handler computed, when both sides can write their messages
  and the frames arrive before the deadlines.
\<close>

theorem wallet_answers_dapp:
  assumes host: "create_session P E rid rkp rhk i = Ok H" "valid_init i" "length rid = 16" "form_ok E"
      "\<And>b. length (sha256 P b) = 32"
    and keys: "generate_key_pair P rkp = Ok kh" "generate_key_pair P rkp' = Ok kc"
      "hash_public_key P (kp_encryption_key kc) \<noteq> hash_public_key P (kp_encryption_key kh)"
    and ok: "session_ok P kh kc (own_capabilities (si_info i)) (own_capabilities pinfo)"
      "list_all (text_ok P) (link_messages kh kc (own_capabilities (si_info i)) (own_capabilities pinfo) t u offt anst)"
      "\<And>j. length (n j) = 12"
    and env: "network_ok N" "webrtc_ok W off offt ans anst"
    and texts: "session_text_ok P (Request mid request)" "session_text_ok P (Ack mid)"
      "session_text_ok P (Response mid (handle_rpc_request decode request K))"
    and clock: "answered_in_time mx start ta tr ack_ms resp_ms"
  shows "\<exists>C H1 C1 H2 C2.
    connect_session_with_info P E rkp' (to_connection_url E (ss_uri H)) pinfo = Ok C \<and>
    session_run P N t n H C = (H1, C1) \<and> negotiate P N W t n u H1 C1 = (H2, C2) \<and>
    fst (exchange (call_over P W n mid (wallet_handler decode K) mx start ta tr ack_ms resp_ms)
           (open_channel H2, open_channel C2) request) = Inr (handle_rpc_request decode request K)"
proof -
  let ?h = "wallet_handler decode K" and ?v = "handle_rpc_request decode request K"
  obtain C H1 C1 H2 C2 where C: "connect_session_with_info P E rkp' (to_connection_url E (ss_uri H)) pinfo = Ok C"
    "session_run P N t n H C = (H1, C1)" "negotiate P N W t n u H1 C1 = (H2, C2)"
    "serving P kh kc (open_channel H2)" "serving P kc kh (open_channel C2)"
    by (rule reachable_pair.invited_sessions_serve [OF host keys ok env])
  have dc: "dc_send W e = Inr ()" for e using env(2) by (simp add: webrtc_ok_def)
  have "?h request = Ok ?v" by (simp add: wallet_handler_def)
  moreover from this texts(3) have "session_text_ok P (reply mid (?h request))" by (simp add: reply_def)
  ultimately have "fst (call_over P W n mid ?h mx start ta tr ack_ms resp_ms (open_channel H2, open_channel C2) request) = Inr ?v"
    by (intro call_over_answered [OF session_okD(1-3) [OF ok(1)] dc ok(3) texts(1,2) _ C(4,5) _ clock])
  then have "fst (exchange (call_over P W n mid ?h mx start ta tr ack_ms resp_ms) (open_channel H2, open_channel C2) request) = Inr ?v"
    using handler_accepted [of request decode K] by (simp add: exchange_def accepted_def split_beta)
  with C(1-3) show ?thesis by blast
qed

theorem wallet_answers_dapp_witness:
  "\<exists>H1 C1 H2 C2.
    negotiate SL sample_network sample_webrtc sample_time sample_nonce sample_uuid H1 C1 = (H2, C2) \<and>
    fst (exchange (call_over SL sample_webrtc sample_nonce ''1'' (wallet_handler sample_decode sample_signer)
           100000000 0 1 2 10 10) (open_channel H2, open_channel C2) app_request) =
      Inr (obj [(''jsonrpc'', JString ''2.0''), (''id'', JU64 1), (''result'', JString ''0x1'')])"
proof -
  obtain H where H: "create_session SL sample_env (replicate 16 CHR ''r'') (replicate 32 CHR ''h'') [] sample_init = Ok H"
    by (rule sample_invitation)
  have clock: "answered_in_time 100000000 0 1 2 10 10" by (simp add: answered_in_time_def)
  have answer: "sample_answer = obj [(''jsonrpc'', JString ''2.0''), (''id'', JU64 1), (''result'', JString ''0x1'')]"
    by (simp add: handle_rpc_request_def rpc_outcome_def app_request_def json_index_def)
  from wallet_answers_dapp [OF H sample_init_valid _ sample_form_ok sample_sha sample_key_pair sample_key_pair sample_hashes,
      where pinfo = None and t = sample_time and n = sample_nonce, unfolded sample_init_info,
      OF _ sample_link_ok _ sample_environment asking_texts_each(1-3) clock]
  show ?thesis unfolding answer by auto
qed

text \<open>
  C8. No network gives a dApp anything but its wallet's answers: when the other side answers
  with the wallet's handler, a value that the dApp's wait for a response returns is what the wallet
  computed for a request that the dApp itself has sent under this id. The provider accepts
  it for that request, and the dApp is never told that the request has failed.
\<close>

theorem dapp_hears_wallet:
  assumes net: "reachable (started P a b) (net_step P) (A, B)" "trusts A B"
    and wallet: "\<And>mid v r. (mid, v, r) \<in> set (pt_answered B) \<Longrightarrow> r = wallet_handler decode K v"
    and wait: "\<And>t m. t \<in> set turns \<Longrightarrow> received_value t = Received m \<Longrightarrow> m \<in> set (ss_response_tx (pt_session A))"
      "receive_response mx start mid ack_ms resp_ms turns = Some outcome"
  shows "(\<forall>r. outcome = Ok r \<longrightarrow> (\<exists>v. (mid, v) \<in> set (pt_asked A) \<and> r = handle_rpc_request decode v K \<and>
       settle (json_index v ''id'') (Inr r) = Inr r)) \<and> outcome \<noteq> Fail RequestFailed"
proof -
  note own = response_belongs_to_request [OF wait(2)]
  have "\<exists>v. (mid, v) \<in> set (pt_asked A) \<and> r = handle_rpc_request decode v K" if "outcome = Ok r" for r
  proof -
    from own that wait(1) have "Response mid r \<in> set (ss_response_tx (pt_session A))" by blast
    then obtain v where v: "(mid, v) \<in> set (pt_asked A)" "(mid, v, Inr r) \<in> set (pt_answered B)"
      using reply_heard(1) [OF net] by blast
    with wallet [OF v(2)] show ?thesis by (auto simp: wallet_handler_def)
  qed
  moreover have "outcome \<noteq> Fail RequestFailed"
  proof
    assume "outcome = Fail RequestFailed"
    with own wait(1) have "Failed mid \<in> set (ss_response_tx (pt_session A))" by blast
    then obtain v e where "(mid, v, Inl e) \<in> set (pt_answered B)" using reply_heard(2) [OF net] by blast
    from wallet [OF this] show False by (simp add: wallet_handler_def)
  qed
  ultimately show ?thesis using handler_accepted [unfolded accepted_def] by blast
qed

theorem dapp_hears_wallet_witness:
  "\<exists>(A :: party) v. (''1'', v) \<in> set (pt_asked A) \<and>
     receive_response 100000000 0 ''1'' 10 10
       [\<lparr>head_clock = 3, received_value = Received (Response ''1'' sample_answer), after_clock = 4\<rparr>] =
     Some (Ok (handle_rpc_request sample_decode v sample_signer))"
proof -
  obtain A B where net: "reachable (started SL KH KC) (net_step SL) (A, B)" "trusts A B"
      "pt_answered B = [(''1'', app_request, Inr sample_answer)]"
      "ss_response_tx (pt_session A) = [Response ''1'' sample_answer]" by (rule service_network)
  let ?turns = "[\<lparr>head_clock = 3, received_value = Received (Response ''1'' sample_answer), after_clock = 4\<rparr>]"
  have r: "receive_response 100000000 0 ''1'' 10 10 ?turns = Some (Ok sample_answer)"
    by (simp add: receive_response_def deadline_after_def Let_def)
  from dapp_hears_wallet [OF net(1,2) _ _ r, of sample_decode sample_signer] net(3,4) r
  show ?thesis by (auto simp: wallet_handler_def)
qed

end
